(* ===== verification/Prelude.thy ===== *)
theory Prelude
  imports Complex_Main "HOL-Library.Sublist"
begin

text \<open>
  Shared vocabulary of the development.

  \<^item> Go strings are byte strings: \<open>string\<close> is a list of 8-bit characters, \<open>length\<close> is Go's \<open>len\<close>.
    The functions of package \<open>strings\<close> that the source calls are modelled below. White space is
    \<open>unicode.IsSpace\<close>; case mapping is that of ASCII, a byte above 127 is left alone.
  \<^item> UTF-8 decoding (\<open>utf8.RuneCountInString\<close>, \<open>[]rune(s)\<close>) is modelled on the bytes, with the
    decoder's treatment of ill-formed input: one replacement character per bad byte.
  \<^item> Errors are values of the datatype \<open>error\<close> (\<open>src/backend/internal/shared/errors\<close>); a call that may fail
    returns \<open>error + 'a\<close>, with \<open>Inl\<close> for the error.
  \<^item> Instants and durations are \<open>int\<close> nanoseconds, as in package \<open>time\<close>.
\<close>

named_theorems op_simps "unfolding of the state-and-error operations"
named_theorems keeps_intros "rules that build preservation proofs along the operations"

named_theorems clean_intros "operations that leave the tables alone when they fail"

type_synonym uuid = string
type_synonym time = int
type_synonym duration = int

section \<open>Strings\<close>

definition lower_char :: "char \<Rightarrow> char" where
  "lower_char c = (let n = (of_char c :: nat) in
     if 65 \<le> n \<and> n \<le> 90 then char_of (n + 32) else c)"

definition to_lower :: "string \<Rightarrow> string" where
  "to_lower s = map lower_char s"

text \<open>
  \<open>unicode.IsSpace\<close> on the UTF-8 encoding of a rune, and \<open>strings.TrimSpace\<close>, which decodes runes from
  both ends. A space encoding never starts inside another rune, so looking at the bytes is enough.
\<close>

definition byte :: "char \<Rightarrow> nat" where
  "byte c = of_char c"

fun is_space_rune :: "string \<Rightarrow> bool" where
  "is_space_rune [a] = (9 \<le> byte a \<and> byte a \<le> 13 \<or> byte a = 32)"
| "is_space_rune [a, b] = (byte a = 194 \<and> (byte b = 133 \<or> byte b = 160))"
| "is_space_rune [a, b, c] =
     (byte a = 225 \<and> byte b = 154 \<and> byte c = 128 \<or>
      byte a = 226 \<and> byte b = 128 \<and>
        (128 \<le> byte c \<and> byte c \<le> 138 \<or> byte c = 168 \<or> byte c = 169 \<or> byte c = 175) \<or>
      byte a = 226 \<and> byte b = 129 \<and> byte c = 159 \<or>
      byte a = 227 \<and> byte b = 128 \<and> byte c = 128)"
| "is_space_rune s = False"

definition space_len :: "string \<Rightarrow> nat" where
  "space_len s = (if is_space_rune (take 1 s) then 1 else if is_space_rune (take 2 s) then 2
     else if is_space_rune (take 3 s) then 3 else 0)"

definition space_len_right :: "string \<Rightarrow> nat" where
  "space_len_right s = (let end_of = (\<lambda>n. rev (take n (rev s))) in
     if is_space_rune (end_of 1) then 1 else if is_space_rune (end_of 2) then 2
     else if is_space_rune (end_of 3) then 3 else 0)"

function trim_left :: "string \<Rightarrow> string" where
  "trim_left s = (if s = [] \<or> space_len s = 0 then s else trim_left (drop (space_len s) s))"
  by pat_completeness auto
termination by (relation "measure length") auto

function trim_right :: "string \<Rightarrow> string" where
  "trim_right s = (if s = [] \<or> space_len_right s = 0 then s
     else trim_right (take (length s - space_len_right s) s))"
  by pat_completeness auto
termination by (relation "measure length") auto

declare trim_left.simps [simp del] trim_right.simps [simp del]

definition trim_space :: "string \<Rightarrow> string" where
  "trim_space s = trim_right (trim_left s)"

text \<open>\<open>strings.Contains(s, sub)\<close>, \<open>strings.HasPrefix\<close> and \<open>strings.HasSuffix\<close>.\<close>

definition contains :: "string \<Rightarrow> string \<Rightarrow> bool" where
  "contains s sub = sublist sub s"

definition has_prefix :: "string \<Rightarrow> string \<Rightarrow> bool" where
  "has_prefix s p = prefix p s"

definition has_suffix :: "string \<Rightarrow> string \<Rightarrow> bool" where
  "has_suffix s p = suffix p s"

text \<open>\<open>strings.TrimSuffix\<close>.\<close>

definition trim_suffix :: "string \<Rightarrow> string \<Rightarrow> string" where
  "trim_suffix s p = (if has_suffix s p then take (length s - length p) s else s)"

text \<open>\<open>strings.Fields\<close>: the maximal runs of non-space runes.\<close>

fun take_word :: "string \<Rightarrow> string" where
  "take_word [] = []"
| "take_word (c # cs) = (if 0 < space_len (c # cs) then [] else c # take_word cs)"

fun drop_word :: "string \<Rightarrow> string" where
  "drop_word [] = []"
| "drop_word (c # cs) = (if 0 < space_len (c # cs) then c # cs else drop_word cs)"

lemma length_trim_left: "length (trim_left s) \<le> length s"
  by (induction s rule: trim_left.induct) (subst trim_left.simps, fastforce)

lemma length_drop_word: "length (drop_word s) \<le> length s"
  by (induction s) auto

function split_fields :: "string \<Rightarrow> string list" where
  "split_fields s = (case trim_left s of [] \<Rightarrow> []
     | c # cs \<Rightarrow> (c # take_word cs) # split_fields (drop_word cs))"
  by pat_completeness auto
termination
proof (relation "measure length")
  fix s c cs
  assume "trim_left s = c # cs"
  then have "length (c # cs) \<le> length s" by (metis length_trim_left)
  with length_drop_word [of cs] show "(drop_word cs, s) \<in> measure length" by simp
qed simp

declare split_fields.simps [simp del]

text \<open>\<open>strings.Join\<close>.\<close>

fun join_with :: "string \<Rightarrow> string list \<Rightarrow> string" where
  "join_with sep [] = []"
| "join_with sep [x] = x"
| "join_with sep (x # y # xs) = x @ sep @ join_with sep (y # xs)"

text \<open>Decimal digits of \<open>%d\<close>.\<close>

fun itoa_nat :: "nat \<Rightarrow> string" where
  "itoa_nat n = (if n < 10 then [char_of (48 + n)]
     else itoa_nat (n div 10) @ [char_of (48 + n mod 10)])"

declare itoa_nat.simps [simp del]

definition itoa :: "int \<Rightarrow> string" where
  "itoa i = (if i < 0 then ''-'' @ itoa_nat (nat (- i)) else itoa_nat (nat i))"

text \<open>
  \<open>%q\<close> (\<open>strconv.Quote\<close>): a double-quoted Go literal. Bytes above 127 are taken to belong to printable
  runes and kept.
\<close>

definition hex_digit :: "nat \<Rightarrow> char" where
  "hex_digit n = (if n < 10 then char_of (48 + n) else char_of (87 + n))"

definition quote_char :: "char \<Rightarrow> string" where
  "quote_char c = (let n = (of_char c :: nat) in
     if n = 34 \<or> n = 92 then [char_of (92::nat), c]
     else if n = 7 then [char_of (92::nat), CHR ''a''] else if n = 8 then [char_of (92::nat), CHR ''b'']
     else if n = 12 then [char_of (92::nat), CHR ''f''] else if n = 10 then [char_of (92::nat), CHR ''n'']
     else if n = 13 then [char_of (92::nat), CHR ''r''] else if n = 9 then [char_of (92::nat), CHR ''t'']
     else if n = 11 then [char_of (92::nat), CHR ''v'']
     else if n < 32 \<or> n = 127 then
       [char_of (92::nat), CHR ''x'', hex_digit (n div 16), hex_digit (n mod 16)]
     else [c])"

definition go_quote :: "string \<Rightarrow> string" where
  "go_quote s = char_of (34::nat) # concat (map quote_char s) @ [char_of (34::nat)]"

definition newline :: string where "newline = [char_of (10::nat)]"

definition em_dash :: string where
  "em_dash = [char_of (226::nat), char_of (128::nat), char_of (148::nat)]"

lemma to_lower_append [simp]: "to_lower (s @ t) = to_lower s @ to_lower t"
  by (simp add: to_lower_def)

lemma to_lower_Nil [simp]: "to_lower [] = []"
  by (simp add: to_lower_def)

lemma length_to_lower [simp]: "length (to_lower s) = length s"
  by (simp add: to_lower_def)

lemma contains_append_left: "contains s sub \<Longrightarrow> contains (s @ t) sub"
  unfolding contains_def by (auto simp: sublist_def) (metis append.assoc)

lemma contains_append_right: "contains t sub \<Longrightarrow> contains (s @ t) sub"
  unfolding contains_def by (auto simp: sublist_def) (metis append.assoc)

lemma trim_left_Nil [simp]: "trim_left [] = []"
  by (simp add: trim_left.simps)

lemma trim_right_Nil [simp]: "trim_right [] = []"
  by (simp add: trim_right.simps)

lemma trim_space_Nil [simp]: "trim_space [] = []"
  by (simp add: trim_space_def)

lemma length_trim_right: "length (trim_right s) \<le> length s"
  by (induction s rule: trim_right.induct) (subst trim_right.simps, fastforce)

lemma length_trim_space: "length (trim_space s) \<le> length s"
  unfolding trim_space_def using length_trim_left length_trim_right le_trans by blast

lemma last_join_with: "xs \<noteq> [] \<Longrightarrow> suffix (last xs) (join_with sep xs)"
proof (induction sep xs rule: join_with.induct)
  case (3 sep x y xs)
  then have "suffix (last (y # xs)) (join_with sep (y # xs))" by simp
  then show ?case by (auto simp: suffix_def)
qed auto

lemma contains_refl [simp]: "contains s s"
  by (simp add: contains_def)

lemma contains_trans: "contains s t \<Longrightarrow> contains t u \<Longrightarrow> contains s u"
  unfolding contains_def by (meson sublist_order.order_trans)

lemma join_with_contains: "x \<in> set xs \<Longrightarrow> contains (join_with sep xs) x"
proof (induction sep xs rule: join_with.induct)
  case (3 sep y z xs)
  then show ?case
    by (auto intro: contains_append_left contains_append_right)
qed auto

section \<open>UTF-8\<close>

definition continuation :: "char \<Rightarrow> bool" where
  "continuation c \<longleftrightarrow> 128 \<le> byte c \<and> byte c \<le> 191"

text \<open>The well-formed encodings, by their first byte (the table of package \<open>unicode/utf8\<close>).\<close>

fun valid_rune :: "string \<Rightarrow> bool" where
  "valid_rune [a] = (byte a < 128)"
| "valid_rune [a, b] = (194 \<le> byte a \<and> byte a \<le> 223 \<and> continuation b)"
| "valid_rune [a, b, c] = (continuation b \<and> continuation c \<and>
     (byte a = 224 \<and> 160 \<le> byte b \<or> byte a = 237 \<and> byte b \<le> 159 \<or>
      225 \<le> byte a \<and> byte a \<le> 239 \<and> byte a \<noteq> 237))"
| "valid_rune [a, b, c, d] = (continuation b \<and> continuation c \<and> continuation d \<and>
     (byte a = 240 \<and> 144 \<le> byte b \<or> byte a = 244 \<and> byte b \<le> 143 \<or>
      241 \<le> byte a \<and> byte a \<le> 243))"
| "valid_rune s = False"

definition replacement_rune :: string where
  "replacement_rune = [char_of (239::nat), char_of (191::nat), char_of (189::nat)]"

text \<open>The runes of a byte string, each as its UTF-8 encoding; an ill-formed byte decodes to U+FFFD.\<close>

function runes :: "string \<Rightarrow> string list" where
  "runes [] = []"
| "runes (c # cs) = (let s = c # cs in
     if valid_rune (take 1 s) then take 1 s # runes (drop 1 s)
     else if valid_rune (take 2 s) then take 2 s # runes (drop 2 s)
     else if valid_rune (take 3 s) then take 3 s # runes (drop 3 s)
     else if valid_rune (take 4 s) then take 4 s # runes (drop 4 s)
     else replacement_rune # runes cs)"
  by pat_completeness auto
termination
  by (relation "measure length") auto

declare runes.simps(2) [simp del]

definition rune_count :: "string \<Rightarrow> nat" where
  "rune_count s = length (runes s)"

definition clamp_runes :: "string \<Rightarrow> nat \<Rightarrow> string" where
  "clamp_runes s n = (let r = runes s in if length r \<le> n then s else concat (take n r))"

lemma valid_replacement [simp]: "valid_rune replacement_rune"
  by (simp add: replacement_rune_def continuation_def byte_def)

lemma valid_runes: "r \<in> set (runes s) \<Longrightarrow> valid_rune r"
proof (induction s rule: runes.induct)
  case (2 c cs)
  then show ?case
    by (auto simp: runes.simps(2) [of c cs] Let_def simp del: valid_rune.simps split: if_splits)
qed simp

lemma runes_valid_append:
  assumes "valid_rune r"
  shows "runes (r @ s) = r # runes s"
  using assms
  by (cases r rule: valid_rune.cases)
    (auto simp: runes.simps(2) Let_def continuation_def numeral_eq_Suc)

lemma runes_concat: "(\<And>r. r \<in> set rs \<Longrightarrow> valid_rune r) \<Longrightarrow> runes (concat rs) = rs"
  by (induction rs) (auto simp: runes_valid_append)

lemma rune_count_clamp: "rune_count (clamp_runes s n) \<le> n"
proof -
  have "runes (concat (take n (runes s))) = take n (runes s)"
    by (rule runes_concat) (meson in_set_takeD valid_runes)
  then show ?thesis by (simp add: clamp_runes_def rune_count_def Let_def)
qed

lemma clamp_runes_short: "rune_count s \<le> n \<Longrightarrow> clamp_runes s n = s"
  by (simp add: clamp_runes_def rune_count_def)

end
