(* ===== verification/Shared.thy ===== *)
theory Shared
  imports Prelude
begin

text \<open>
  Errors and transactions, the two conventions every service of the backend follows.

  \<^item> \<open>error\<close> mirrors \<open>src/backend/internal/shared/errors\<close>: a \<open>DomainError\<close> with code and message, a
    \<open>NotFoundError\<close>, an \<open>Internal\<close> wrapper; \<open>Sentinel\<close> is a value made by \<open>errors.New\<close>, \<open>Wrapped\<close> and
    \<open>Annotated\<close> are made by \<open>fmt.Errorf\<close> with the \<open>%w\<close> verb. Error values are compared structurally.
  \<^item> \<open>db\<close> mirrors what \<open>src/backend/pkg/db/postgres.go\<close> threads through the context: the tables, the
    tenant set for row-level security, the open transaction, and the after-commit hooks. Whether a
    statement fails is not decided by the program, so the state carries \<open>faults\<close>, the outcomes the
    database gives to the coming statements (the empty list: none of them fails). PostgreSQL aborts a
    transaction at its first failed statement: every later statement fails too, until a rollback.
\<close>

section \<open>Errors\<close>

datatype error =
    DomainError string string \<comment> \<open>Code, Message\<close>
  | NotFoundError string string \<comment> \<open>Resource, ID\<close>
  | Internal error
  | Sentinel string
  | Wrapped string error \<comment> \<open>"text: %w"\<close>
  | Annotated error string \<comment> \<open>"%w: text"\<close>
  | PgError string string \<comment> \<open>a \<open>pgconn.PgError\<close>: Code, ConstraintName\<close>

type_synonym 'a result = "error + 'a"

fun error_text :: "error \<Rightarrow> string" where
  "error_text (DomainError c m) = m"
| "error_text (NotFoundError r i) = r @ '' '' @ i @ '' not found''"
| "error_text (Internal e) = ''internal error''"
| "error_text (Sentinel m) = m"
| "error_text (Wrapped m e) = m @ '': '' @ error_text e"
| "error_text (Annotated e m) = error_text e @ '': '' @ m"
| "error_text (PgError c n) = ''ERROR: '' @ n @ '' (SQLSTATE '' @ c @ '')''"

fun with_context :: "string \<Rightarrow> error \<Rightarrow> error" where
  "with_context ctx (DomainError c m) = DomainError c (ctx @ '': '' @ m)"
| "with_context ctx e = e"

text \<open>\<open>errors.Is\<close> and \<open>errors.As\<close> with a \<open>*DomainError\<close> target walk the \<open>Unwrap\<close> chain.\<close>

fun err_is :: "error \<Rightarrow> error \<Rightarrow> bool" where
  "err_is (Internal e) t = (Internal e = t \<or> err_is e t)"
| "err_is (Wrapped m e) t = (Wrapped m e = t \<or> err_is e t)"
| "err_is (Annotated e m) t = (Annotated e m = t \<or> err_is e t)"
| "err_is e t = (e = t)"

fun as_domain :: "error \<Rightarrow> (string \<times> string) option" where
  "as_domain (DomainError c m) = Some (c, m)"
| "as_domain (Internal e) = as_domain e"
| "as_domain (Wrapped m e) = as_domain e"
| "as_domain (Annotated e m) = as_domain e"
| "as_domain e = None"

fun as_pg :: "error \<Rightarrow> (string \<times> string) option" where
  "as_pg (PgError c n) = Some (c, n)"
| "as_pg (Internal e) = as_pg e"
| "as_pg (Wrapped m e) = as_pg e"
| "as_pg (Annotated e m) = as_pg e"
| "as_pg e = None"

text \<open>\<open>db.WrapError\<close>, on the error that is not nil.\<close>

definition WrapError :: "error \<Rightarrow> error" where
  "WrapError e = (if as_domain e \<noteq> None then e
     else (case as_pg e of
         Some (code, constraint) \<Rightarrow>
           if code = ''23505'' then DomainError ''ALREADY_EXISTS'' (''resource already exists: '' @ constraint)
           else if code = ''23503''
             then DomainError ''NOT_FOUND'' (''referenced resource not found: '' @ constraint)
           else Internal (Sentinel (''postgres '' @ code @ '': '' @ error_text e))
       | None \<Rightarrow> Internal e))"

definition PermanentWorkerError :: "error option \<Rightarrow> error list \<Rightarrow> bool" where
  "PermanentWorkerError err sentinels = (case err of None \<Rightarrow> False
     | Some e \<Rightarrow> list_ex (\<lambda>s. err_is e s) sentinels)"

text \<open>\<open>asynq.SkipRetry\<close>, \<open>db.ErrNoTx\<close>, \<open>db.ErrNoTenant\<close> and PostgreSQL's answer in an aborted transaction.\<close>

definition SkipRetry :: error where "SkipRetry = Sentinel ''skip retry for the task''"

definition ErrNoTx :: error where
  "ErrNoTx = Sentinel ''no transaction in context (tenant tables require one)''"

definition ErrNoTenant :: error where "ErrNoTenant = Sentinel ''no tenant in context''"

definition ErrTxAborted :: error where "ErrTxAborted = PgError ''25P02'' []"

text \<open>PostgreSQL's refusal by a row-level security policy, a unique and a foreign-key constraint.\<close>

definition ErrRLS :: error where "ErrRLS = PgError ''42501'' []"

definition unique_violation :: "string \<Rightarrow> error" where "unique_violation c = PgError ''23505'' c"

definition foreign_key_violation :: "string \<Rightarrow> error" where "foreign_key_violation c = PgError ''23503'' c"

section \<open>Operations with state and errors\<close>

type_synonym ('s, 'a) op = "'s \<Rightarrow> 'a result \<times> 's"

definition ret :: "'a \<Rightarrow> ('s, 'a) op" where
  "ret a s = (Inr a, s)"

definition throw :: "error \<Rightarrow> ('s, 'a) op" where
  "throw e s = (Inl e, s)"

definition bindE :: "('s, 'a) op \<Rightarrow> ('a \<Rightarrow> ('s, 'b) op) \<Rightarrow> ('s, 'b) op" where
  "bindE m f s = (case m s of (Inl e, s') \<Rightarrow> (Inl e, s') | (Inr a, s') \<Rightarrow> f a s')"

definition lift :: "'a result \<Rightarrow> ('s, 'a) op" where
  "lift r s = (r, s)"

text \<open>\<open>if cond { return err }\<close>.\<close>

definition fail_if :: "bool \<Rightarrow> error \<Rightarrow> ('s, unit) op" where
  "fail_if b e = (if b then throw e else ret ())"

text \<open>\<open>x, err := m; if err != nil { ... }\<close> where the error is inspected, not returned.\<close>

definition attempt :: "('s, 'a) op \<Rightarrow> ('s, 'a result) op" where
  "attempt m s = (case m s of (r, s') \<Rightarrow> (Inr r, s'))"

definition keeps :: "('s \<Rightarrow> bool) \<Rightarrow> ('s, 'a) op \<Rightarrow> bool" where
  "keeps P m \<longleftrightarrow> (\<forall>s. P s \<longrightarrow> P (snd (m s)))"

lemmas op_defs = ret_def throw_def bindE_def lift_def fail_if_def attempt_def

declare op_defs [op_simps]

lemma keepsD: "keeps P m \<Longrightarrow> m s = (r, s') \<Longrightarrow> P s \<Longrightarrow> P s'"
  unfolding keeps_def by (metis snd_conv)

lemma keeps_ret [keeps_intros, simp]: "keeps P (ret a)"
  by (simp add: keeps_def ret_def)

lemma keeps_throw [keeps_intros, simp]: "keeps P (throw e)"
  by (simp add: keeps_def throw_def)

lemma keeps_lift [keeps_intros, simp]: "keeps P (lift r)"
  by (simp add: keeps_def lift_def)

lemma keeps_fail_if [keeps_intros, simp]: "keeps P (fail_if b e)"
  by (simp add: keeps_def fail_if_def ret_def throw_def)

lemma keeps_bindE [keeps_intros]:
  "keeps P m \<Longrightarrow> (\<And>a. keeps P (f a)) \<Longrightarrow> keeps P (bindE m f)"
  unfolding keeps_def bindE_def by (fastforce split: prod.splits sum.splits)

lemma keeps_attempt [keeps_intros]: "keeps P m \<Longrightarrow> keeps P (attempt m)"
  unfolding keeps_def attempt_def by (fastforce split: prod.splits)

lemma keeps_if [keeps_intros]: "keeps P m \<Longrightarrow> keeps P n \<Longrightarrow> keeps P (if b then m else n)"
  by simp

lemma keeps_case_option [keeps_intros]:
  "keeps P m \<Longrightarrow> (\<And>x. keeps P (f x)) \<Longrightarrow> keeps P (case y of None \<Rightarrow> m | Some x \<Rightarrow> f x)"
  by (cases y) auto

lemma keeps_case_sum [keeps_intros]:
  "(\<And>e. keeps P (g e)) \<Longrightarrow> (\<And>x. keeps P (f x)) \<Longrightarrow> keeps P (case y of Inl e \<Rightarrow> g e | Inr x \<Rightarrow> f x)"
  by (cases y) auto

lemma keeps_case_prod [keeps_intros]:
  "(\<And>a b. keeps P (f a b)) \<Longrightarrow> keeps P (case y of (a, b) \<Rightarrow> f a b)"
  by (cases y) auto

lemma bindE_Inr:
  "bindE m f s = (Inr b, s'') \<longleftrightarrow> (\<exists>a s'. m s = (Inr a, s') \<and> f a s' = (Inr b, s''))"
  unfolding bindE_def by (auto split: prod.splits sum.splits)

lemma bindE_eval_Inr: "m s = (Inr a, s') \<Longrightarrow> bindE m f s = f a s'"
  by (simp add: bindE_def)

lemma bindE_eval_Inl: "m s = (Inl e, s') \<Longrightarrow> bindE m f s = (Inl e, s')"
  by (simp add: bindE_def)

text \<open>Reading a successful run backwards.\<close>

lemma ret_Inr: "ret a s = (Inr b, s') \<longleftrightarrow> b = a \<and> s' = s"
  by (auto simp: ret_def)

lemma throw_Inr: "throw e s = (Inr b, s') \<longleftrightarrow> False"
  by (simp add: throw_def)

lemma lift_Inr: "lift r s = (Inr b, s') \<longleftrightarrow> r = Inr b \<and> s' = s"
  by (auto simp: lift_def)

lemma fail_if_Inr: "fail_if c e s = (Inr b, s') \<longleftrightarrow> \<not> c \<and> s' = s"
  by (auto simp: fail_if_def ret_def throw_def)

lemma attempt_Inr: "attempt m s = (Inr r, s') \<longleftrightarrow> m s = (r, s')"
  by (auto simp: attempt_def split: prod.splits)

lemma if_op_Inr: "(if c then m else n) s = (Inr a, s') \<longleftrightarrow> (if c then m s = (Inr a, s') else n s = (Inr a, s'))"
  by simp

text \<open>\<open>if err := m; err == e1 { return e2 }\<close>: errors renamed on the way out.\<close>

definition map_error :: "(error \<Rightarrow> error) \<Rightarrow> ('s, 'a) op \<Rightarrow> ('s, 'a) op" where
  "map_error f m s = (case m s of (Inl e, s') \<Rightarrow> (Inl (f e), s') | (Inr a, s') \<Rightarrow> (Inr a, s'))"

lemma map_error_Inr: "map_error f m s = (Inr a, s') \<longleftrightarrow> m s = (Inr a, s')"
  by (auto simp: map_error_def split: prod.splits sum.splits)

lemma map_error_snd [simp]: "snd (map_error f m s) = snd (m s)"
  by (auto simp: map_error_def split: prod.splits sum.splits)

text \<open>\<open>if err := f(); err != nil { return err }\<close> for a check that has no result.\<close>

definition check :: "error option \<Rightarrow> ('s, unit) op" where
  "check e = (case e of Some x \<Rightarrow> throw x | None \<Rightarrow> ret ())"

lemma check_Inr: "check e s = (Inr b, s') \<longleftrightarrow> e = None \<and> s' = s"
  by (auto simp: check_def ret_def throw_def split: option.splits)

lemma bindE_InrE: "bindE m f s = (Inr b, s2) \<Longrightarrow> (\<And>a s1. m s = (Inr a, s1) \<Longrightarrow> f a s1 = (Inr b, s2) \<Longrightarrow> P) \<Longrightarrow> P"
  by (auto simp: bindE_def split: prod.splits sum.splits)

lemma ret_InrE: "ret a s = (Inr b, s2) \<Longrightarrow> (b = a \<Longrightarrow> s2 = s \<Longrightarrow> P) \<Longrightarrow> P"
  by (simp add: ret_def)

lemma throw_InrE: "throw e s = (Inr b, s2) \<Longrightarrow> P"
  by (simp add: throw_def)

lemma lift_InrE: "lift r s = (Inr b, s2) \<Longrightarrow> (r = Inr b \<Longrightarrow> s2 = s \<Longrightarrow> P) \<Longrightarrow> P"
  by (simp add: lift_def)

lemma fail_if_InrE: "fail_if c e s = (Inr b, s2) \<Longrightarrow> (\<not> c \<Longrightarrow> s2 = s \<Longrightarrow> P) \<Longrightarrow> P"
  by (simp add: fail_if_Inr)

lemma attempt_InrE: "attempt m s = (Inr r, s2) \<Longrightarrow> (m s = (r, s2) \<Longrightarrow> P) \<Longrightarrow> P"
  by (simp add: attempt_Inr)

lemma map_error_InrE: "map_error f m s = (Inr a, s2) \<Longrightarrow> (m s = (Inr a, s2) \<Longrightarrow> P) \<Longrightarrow> P"
  by (simp add: map_error_Inr)

lemma check_InrE: "check e s = (Inr b, s2) \<Longrightarrow> (e = None \<Longrightarrow> s2 = s \<Longrightarrow> P) \<Longrightarrow> P"
  by (simp add: check_Inr)

lemmas op_InrE = bindE_InrE ret_InrE throw_InrE lift_InrE fail_if_InrE attempt_InrE map_error_InrE check_InrE

lemmas op_Inr = bindE_Inr ret_Inr throw_Inr lift_Inr fail_if_Inr attempt_Inr map_error_Inr check_Inr

section \<open>The database and its transactions\<close>

record ('r, 'h) db =
  tables :: 'r
  tenant :: "uuid option"
  in_tx :: bool
  aborted :: bool
  saved :: "(string \<times> 'r) list"
  faults :: "error option list"
  pending :: "'h list"
  fired :: "'h list"

definition next_fault :: "('r, 'h) db \<Rightarrow> error option \<times> ('r, 'h) db" where
  "next_fault d = (case faults d of [] \<Rightarrow> (None, d) | f # fs \<Rightarrow> (f, d\<lparr>faults := fs\<rparr>))"

text \<open>
  One SQL statement. \<open>f\<close> gives its effect on the tables, under the tenant in force; a sentinel such as
  \<open>ErrNotFound\<close> that \<open>f\<close> returns is the adapter's reading of an empty result and aborts nothing.
\<close>

definition stmt :: "(uuid option \<Rightarrow> 'r \<Rightarrow> ('a \<times> 'r) result) \<Rightarrow> (('r, 'h) db, 'a) op" where
  "stmt f d = (if \<not> in_tx d then (Inl ErrNoTx, d)
     else if aborted d then (Inl ErrTxAborted, d)
     else (case next_fault d of
         (Some e, d') \<Rightarrow> (Inl e, d'\<lparr>aborted := True\<rparr>)
       | (None, d') \<Rightarrow> (case f (tenant d') (tables d') of
             Inl e \<Rightarrow> (Inl e, d')
           | Inr (a, r) \<Rightarrow> (Inr a, d'\<lparr>tables := r\<rparr>))))"

text \<open>A statement whose own error (a violated constraint or policy) aborts the transaction.\<close>

definition exec :: "(uuid option \<Rightarrow> 'r \<Rightarrow> ('a \<times> 'r) result) \<Rightarrow> (('r, 'h) db, 'a) op" where
  "exec f d = (if \<not> in_tx d then (Inl ErrNoTx, d)
     else if aborted d then (Inl ErrTxAborted, d)
     else (case next_fault d of
         (Some e, d') \<Rightarrow> (Inl e, d'\<lparr>aborted := True\<rparr>)
       | (None, d') \<Rightarrow> (case f (tenant d') (tables d') of
             Inl e \<Rightarrow> (Inl e, d'\<lparr>aborted := True\<rparr>)
           | Inr (a, r) \<Rightarrow> (Inr a, d'\<lparr>tables := r\<rparr>))))"

text \<open>An effect outside the database (a queue, a socket), which may fail as well.\<close>

definition emit :: "'h \<Rightarrow> (('r, 'h) db, unit) op" where
  "emit h d = (case next_fault d of (Some e, d') \<Rightarrow> (Inl e, d')
     | (None, d') \<Rightarrow> (Inr (), d'\<lparr>fired := fired d' @ [h]\<rparr>))"

definition SetTenant :: "string \<Rightarrow> (('r, 'h) db, unit) op" where
  "SetTenant orgID d = (if orgID = [] then (Inl ErrNoTenant, d)
     else (case next_fault d of
         (Some e, d') \<Rightarrow> (Inl e, d'\<lparr>aborted := True\<rparr>)
       | (None, d') \<Rightarrow> (Inr (), d'\<lparr>tenant := Some orgID\<rparr>)))"

definition AfterCommit :: "'h \<Rightarrow> (('r, 'h) db, unit) op" where
  "AfterCommit h d = (if in_tx d then (Inr (), d\<lparr>pending := pending d @ [h]\<rparr>)
     else (Inr (), d\<lparr>fired := fired d @ [h]\<rparr>))"

definition RunAfterCommit :: "('r, 'h) db \<Rightarrow> ('r, 'h) db" where
  "RunAfterCommit d = d\<lparr>fired := fired d @ pending d, pending := []\<rparr>"

definition rollback :: "('r, 'h) db \<Rightarrow> ('r, 'h) db \<Rightarrow> ('r, 'h) db" where
  "rollback d0 d = d\<lparr>tables := tables d0, tenant := tenant d0, in_tx := False, aborted := False,
     saved := [], pending := pending d0\<rparr>"

text \<open>The statement that ends a transaction: an aborted transaction cannot be committed.\<close>

definition commit :: "(('r, 'h) db, unit) op" where
  "commit d = (if aborted d then (Inl ErrTxAborted, d)
     else (case next_fault d of (Some e, d') \<Rightarrow> (Inl e, d') | (None, d') \<Rightarrow> (Inr (), d')))"

text \<open>
  \<open>RunInTx\<close>: a transaction already carried by the context is reused, and its outcome is left to the
  outer level; otherwise the body runs in a transaction of its own with the tenant set, and the hooks
  it registered fire once the commit has succeeded.
\<close>

definition RunInTx :: "string \<Rightarrow> (('r, 'h) db, 'a) op \<Rightarrow> (('r, 'h) db, 'a) op" where
  "RunInTx orgID fn d = (if in_tx d then fn d
     else (case next_fault d of
         (Some e, d1) \<Rightarrow> (Inl e, d1)
       | (None, d1) \<Rightarrow>
           (case bindE (SetTenant orgID) (\<lambda>_. bindE fn (\<lambda>a. bindE commit (\<lambda>_. ret a)))
                   (d1\<lparr>in_tx := True, aborted := False, saved := [], pending := []\<rparr>) of
              (Inl e, d2) \<Rightarrow> (Inl e, rollback d1 d2)
            | (Inr a, d2) \<Rightarrow> (Inr a, (RunAfterCommit d2)\<lparr>tenant := tenant d1, in_tx := False,
                 saved := [], pending := pending d1\<rparr>))))"

text \<open>\<open>tx.SavePoint\<close> and \<open>tx.RollbackTo\<close>.\<close>

definition SavePoint :: "string \<Rightarrow> (('r, 'h) db, unit) op" where
  "SavePoint n = bindE (stmt (\<lambda>_ r. Inr ((), r)))
     (\<lambda>_ d. (Inr (), d\<lparr>saved := (n, tables d) # saved d\<rparr>))"

definition RollbackTo :: "string \<Rightarrow> (('r, 'h) db, unit) op" where
  "RollbackTo n d = (case map_of (saved d) n of
       None \<Rightarrow> (Inl (Sentinel ''savepoint does not exist''), d\<lparr>aborted := True\<rparr>)
     | Some r \<Rightarrow> (case next_fault d of
           (Some e, d') \<Rightarrow> (Inl e, d'\<lparr>aborted := True\<rparr>)
         | (None, d') \<Rightarrow> (Inr (), d'\<lparr>tables := r, aborted := False\<rparr>)))"

lemmas tx_defs = stmt_def exec_def emit_def SetTenant_def AfterCommit_def RunAfterCommit_def rollback_def commit_def
  RunInTx_def SavePoint_def RollbackTo_def next_fault_def

subsection \<open>What the transactions promise\<close>

text \<open>A property of the tables, held by the savepoints as well.\<close>

definition on_tables :: "('r \<Rightarrow> bool) \<Rightarrow> ('r, 'h) db \<Rightarrow> bool" where
  "on_tables Q d \<longleftrightarrow> Q (tables d) \<and> (\<forall>p \<in> set (saved d). Q (snd p))"

lemma next_fault_simps [simp]:
  "tables (snd (next_fault d)) = tables d" "saved (snd (next_fault d)) = saved d"
  "in_tx (snd (next_fault d)) = in_tx d" "aborted (snd (next_fault d)) = aborted d"
  "pending (snd (next_fault d)) = pending d" "fired (snd (next_fault d)) = fired d"
  "tenant (snd (next_fault d)) = tenant d"
  by (auto simp: next_fault_def split: list.splits)

lemma next_fault_frame:
  assumes "next_fault d = (f, d')"
  shows "tables d' = tables d" "saved d' = saved d" "in_tx d' = in_tx d" "aborted d' = aborted d"
    "pending d' = pending d" "fired d' = fired d" "tenant d' = tenant d"
  using next_fault_simps [of d] assms by auto

lemma next_fault_frameD:
  "next_fault d = (f, d') \<Longrightarrow> tables d' = tables d \<and> saved d' = saved d \<and> in_tx d' = in_tx d
     \<and> aborted d' = aborted d \<and> pending d' = pending d \<and> fired d' = fired d \<and> tenant d' = tenant d"
  using next_fault_frame [of d f d'] by blast

lemma next_fault_none [simp]: "faults d = [] \<Longrightarrow> next_fault d = (None, d)"
  by (simp add: next_fault_def)

lemma keeps_stmt [keeps_intros]:
  assumes "\<And>t r a r'. Q r \<Longrightarrow> f t r = Inr (a, r') \<Longrightarrow> Q r'"
  shows "keeps (on_tables Q) (stmt f)"
  unfolding keeps_def
proof (intro allI impI)
  fix d :: "('a, 'c) db"
  assume Q: "on_tables Q d"
  obtain g d' where nf: "next_fault d = (g, d')" by fastforce
  note fr = next_fault_frame [OF nf]
  have "Q r'" if "f (tenant d') (tables d') = Inr (a, r')" for a r'
    using assms that Q fr by (auto simp: on_tables_def)
  with Q fr nf show "on_tables Q (snd (stmt f d))"
    by (auto simp: stmt_def on_tables_def split: option.splits sum.splits)
qed

lemma keeps_SetTenant [keeps_intros]: "keeps (on_tables Q) (SetTenant o1)"
  unfolding keeps_def SetTenant_def on_tables_def
  by (auto split: prod.splits option.splits dest!: next_fault_frameD)

lemma keeps_commit [keeps_intros]: "keeps (on_tables Q) commit"
  unfolding keeps_def commit_def on_tables_def
  by (auto split: prod.splits option.splits dest!: next_fault_frameD)

lemma keeps_AfterCommit [keeps_intros]: "keeps (on_tables Q) (AfterCommit h)"
  unfolding keeps_def AfterCommit_def on_tables_def by auto

lemma keeps_SavePoint [keeps_intros]: "keeps (on_tables Q) (SavePoint n)"
  unfolding SavePoint_def
  by (rule keeps_bindE, rule keeps_stmt) (auto simp: keeps_def on_tables_def)

lemma keeps_RollbackTo [keeps_intros]: "keeps (on_tables Q) (RollbackTo n)"
  unfolding keeps_def RollbackTo_def
  by (auto simp: on_tables_def split: option.splits prod.splits dest!: next_fault_frameD map_of_SomeD)

lemma on_tables_unsaved: "saved d = [] \<Longrightarrow> on_tables Q d = Q (tables d)"
  by (simp add: on_tables_def)

lemma keeps_RunInTx [keeps_intros]:
  assumes fn: "keeps (on_tables Q) fn"
  shows "keeps (on_tables Q) (RunInTx orgID fn)"
  unfolding keeps_def
proof (intro allI impI)
  fix d :: "('a, 'b) db"
  assume Q: "on_tables Q d"
  show "on_tables Q (snd (RunInTx orgID fn d))"
  proof (cases "in_tx d")
    case True
    then show ?thesis using fn Q by (simp add: RunInTx_def keeps_def)
  next
    case False
    obtain f d1 where nf: "next_fault d = (f, d1)" by fastforce
    note fr = next_fault_frame [OF nf]
    let ?body = "bindE (SetTenant orgID) (\<lambda>_. bindE fn (\<lambda>a. bindE commit (\<lambda>_. ret a)))"
    let ?d1 = "d1\<lparr>in_tx := True, aborted := False, saved := [], pending := []\<rparr>"
    have "keeps (on_tables Q) ?body"
      by (intro keeps_bindE keeps_SetTenant fn keeps_commit keeps_ret)
    moreover have "on_tables Q ?d1" using Q fr by (simp add: on_tables_def)
    ultimately have "on_tables Q (snd (?body ?d1))" by (simp add: keeps_def)
    then show ?thesis using Q False nf fr
      by (auto simp: RunInTx_def on_tables_def rollback_def RunAfterCommit_def
          split: option.splits prod.splits sum.splits)
  qed
qed

text \<open>Atomicity: a failed transaction leaves the tables and the fired hooks as they were.\<close>

lemma RunInTx_atomic:
  assumes "\<not> in_tx d" "RunInTx orgID fn d = (Inl e, d')"
  shows "tables d' = tables d" "\<not> in_tx d'"
  using assms by (auto simp: RunInTx_def rollback_def split: option.splits prod.splits sum.splits
      dest!: next_fault_frameD)

text \<open>What a successful statement, and a successful transaction, tell.\<close>

lemma stmt_InrD:
  assumes "stmt f d = (Inr a, d')"
  shows "f (tenant d) (tables d) = Inr (a, tables d')" "in_tx d" "\<not> aborted d"
    "tenant d' = tenant d" "in_tx d'" "\<not> aborted d'" "pending d' = pending d" "fired d' = fired d"
    "saved d' = saved d"
  using assms by (auto simp: stmt_def split: if_splits option.splits prod.splits sum.splits
      dest!: next_fault_frameD)

lemma exec_InrD:
  assumes "exec f d = (Inr a, d')"
  shows "f (tenant d) (tables d) = Inr (a, tables d')" "in_tx d" "\<not> aborted d"
    "tenant d' = tenant d" "in_tx d'" "\<not> aborted d'" "pending d' = pending d" "fired d' = fired d"
    "saved d' = saved d"
  using assms by (auto simp: exec_def split: if_splits option.splits prod.splits sum.splits
      dest!: next_fault_frameD)

lemma exec_aborted [simp]: "in_tx d \<Longrightarrow> aborted d \<Longrightarrow> exec f d = (Inl ErrTxAborted, d)"
  by (simp add: exec_def)

lemma stmt_aborted [simp]: "in_tx d \<Longrightarrow> aborted d \<Longrightarrow> stmt f d = (Inl ErrTxAborted, d)"
  by (simp add: stmt_def)

lemma AfterCommit_tables [simp]: "tables (snd (AfterCommit h d)) = tables d"
  by (simp add: AfterCommit_def)

lemma emit_tables [simp]: "tables (snd (emit h d)) = tables d"
  by (auto simp: emit_def split: prod.splits option.splits dest!: next_fault_frameD)

lemma keeps_exec [keeps_intros]:
  assumes "\<And>t r a r'. Q r \<Longrightarrow> f t r = Inr (a, r') \<Longrightarrow> Q r'"
  shows "keeps (on_tables Q) (exec f)"
  unfolding keeps_def
proof (intro allI impI)
  fix d :: "('a, 'c) db"
  assume Q: "on_tables Q d"
  show "on_tables Q (snd (exec f d))"
  proof (cases "exec f d")
    case (Pair r d')
    show ?thesis
    proof (cases r)
      case (Inr a)
      with Pair exec_InrD [of f d a d'] Q assms [of "tables d" "tenant d" a "tables d'"]
      show ?thesis by (auto simp: on_tables_def)
    next
      case (Inl e)
      with Pair Q show ?thesis
        by (auto simp: exec_def on_tables_def split: if_splits option.splits prod.splits sum.splits
            dest!: next_fault_frameD)
    qed
  qed
qed

lemma keeps_emit [keeps_intros]: "keeps (on_tables Q) (emit h)"
  unfolding keeps_def emit_def on_tables_def
  by (auto split: prod.splits option.splits dest!: next_fault_frameD)

lemma RunInTx_InrD:
  assumes "\<not> in_tx d" "RunInTx orgID fn d = (Inr a, d')"
  obtains d1 d2 where "fn d1 = (Inr a, d2)" "tables d1 = tables d" "tables d' = tables d2"
    "tenant d1 = Some orgID" "in_tx d1" "\<not> aborted d1" "saved d1 = []" "pending d1 = []" "fired d1 = fired d"
    "fired d' = fired d2 @ pending d2" "\<not> in_tx d'" "\<not> aborted d2" "orgID \<noteq> []"
proof -
  obtain d0 where d0: "next_fault d = (None, d0)"
    and r: "bindE (SetTenant orgID) (\<lambda>_. bindE fn (\<lambda>a. bindE commit (\<lambda>_. ret a)))
        (d0\<lparr>in_tx := True, aborted := False, saved := [], pending := []\<rparr>) = (Inr a, d2) \<Longrightarrow>
      d' = (RunAfterCommit d2)\<lparr>tenant := tenant d0, in_tx := False, saved := [], pending := pending d0\<rparr>"
    and ex: "\<exists>d2. bindE (SetTenant orgID) (\<lambda>_. bindE fn (\<lambda>a. bindE commit (\<lambda>_. ret a)))
        (d0\<lparr>in_tx := True, aborted := False, saved := [], pending := []\<rparr>) = (Inr a, d2)" for d2
    using assms by (auto simp: RunInTx_def split: option.splits prod.splits sum.splits)
  note fr = next_fault_frame [OF d0]
  from ex obtain d3 where d3: "bindE (SetTenant orgID) (\<lambda>_. bindE fn (\<lambda>a. bindE commit (\<lambda>_. ret a)))
        (d0\<lparr>in_tx := True, aborted := False, saved := [], pending := []\<rparr>) = (Inr a, d3)" by blast
  then obtain d1 d2 where st: "SetTenant orgID (d0\<lparr>in_tx := True, aborted := False, saved := [], pending := []\<rparr>)
      = (Inr (), d1)" and fn: "fn d1 = (Inr a, d2)" and cm: "commit d2 = (Inr (), d3)"
    by (auto simp: bindE_Inr ret_def)
  have c: "tables d3 = tables d2" "fired d3 = fired d2" "pending d3 = pending d2" "\<not> aborted d2"
    using cm by (auto simp: commit_def split: if_splits prod.splits option.splits dest!: next_fault_frameD)
  have s: "tables d1 = tables d" "tenant d1 = Some orgID" "in_tx d1" "\<not> aborted d1" "saved d1 = []"
    "pending d1 = []" "fired d1 = fired d" "orgID \<noteq> []"
    using st fr by (auto simp: SetTenant_def split: if_splits prod.splits option.splits dest!: next_fault_frameD)
  show ?thesis
    by (rule that [OF fn]) (use c s r [OF d3] in \<open>simp_all add: RunAfterCommit_def\<close>)
qed

lemma RunInTx_run:
  assumes "\<not> in_tx d" "RunInTx orgID fn d = (Inr a, d')"
  obtains d1 d2 where "fn d1 = (Inr a, d2)" "tables d1 = tables d" "tables d' = tables d2"
    "tenant d1 = Some orgID" "in_tx d1" "fired d1 = fired d"
  by (rule RunInTx_InrD [OF assms]) (rule that)

lemma RunInTx_tables:
  assumes "\<not> in_tx d" "Q (tables d)"
    and "\<And>d1 a d2. in_tx d1 \<Longrightarrow> \<not> aborted d1 \<Longrightarrow> tenant d1 = Some orgID \<Longrightarrow> Q (tables d1) \<Longrightarrow>
      fn d1 = (Inr a, d2) \<Longrightarrow> Q (tables d2)"
  shows "Q (tables (snd (RunInTx orgID fn d))) \<and> \<not> in_tx (snd (RunInTx orgID fn d))"
proof (cases "RunInTx orgID fn d")
  case (Pair r d')
  show ?thesis
  proof (cases r)
    case (Inl e)
    with Pair RunInTx_atomic [of d orgID fn e d'] assms show ?thesis by simp
  next
    case (Inr a)
    with Pair have "RunInTx orgID fn d = (Inr a, d')" by simp
    with assms(1) obtain d1 d2 where "fn d1 = (Inr a, d2)" "tables d1 = tables d" "tables d' = tables d2"
      "tenant d1 = Some orgID" "in_tx d1" "\<not> aborted d1" "\<not> in_tx d'"
      by (rule RunInTx_InrD)
    with assms(2) assms(3) [of d1 a d2] Pair show ?thesis by simp
  qed
qed

subsection \<open>Operations that fail cleanly\<close>

text \<open>
  Outside a transaction a service opens its own ones. \<open>pure_op\<close>: the operation does not touch the tables;
  \<open>clean\<close>: if it fails, the tables are as before.
\<close>

definition pure_op :: "(('r, 'h) db, 'a) op \<Rightarrow> bool" where
  "pure_op m \<longleftrightarrow> (\<forall>d r d'. m d = (r, d') \<longrightarrow> tables d' = tables d \<and> in_tx d' = in_tx d)"

definition clean :: "(('r, 'h) db, 'a) op \<Rightarrow> bool" where
  "clean m \<longleftrightarrow> (\<forall>d e d'. \<not> in_tx d \<longrightarrow> m d = (Inl e, d') \<longrightarrow> tables d' = tables d)"

lemma pure_opD: "pure_op m \<Longrightarrow> m d = (r, d') \<Longrightarrow> tables d' = tables d \<and> in_tx d' = in_tx d"
  unfolding pure_op_def by blast

lemma cleanD: "clean m \<Longrightarrow> \<not> in_tx d \<Longrightarrow> m d = (Inl e, d') \<Longrightarrow> tables d' = tables d"
  unfolding clean_def by blast

lemma pure_opI: "(\<And>d r d'. m d = (r, d') \<Longrightarrow> tables d' = tables d \<and> in_tx d' = in_tx d) \<Longrightarrow> pure_op m"
  unfolding pure_op_def by blast

lemma pure_op_ret [clean_intros]: "pure_op (ret a)"
  by (rule pure_opI) (simp add: ret_def)

lemma pure_op_throw [clean_intros]: "pure_op (throw e)"
  by (rule pure_opI) (simp add: throw_def)

lemma pure_op_lift [clean_intros]: "pure_op (lift r)"
  by (rule pure_opI) (simp add: lift_def)

lemma pure_op_fail_if [clean_intros]: "pure_op (fail_if c e)"
  by (cases c) (simp_all add: fail_if_def pure_op_ret pure_op_throw)

lemma pure_op_check [clean_intros]: "pure_op (check x)"
  by (cases x) (simp_all add: check_def pure_op_ret pure_op_throw)

lemma pure_op_emit [clean_intros]: "pure_op (emit h)"
  by (rule pure_opI) (auto simp: emit_def split: prod.splits option.splits dest!: next_fault_frameD)

lemma pure_op_attempt [clean_intros]:
  assumes "pure_op m"
  shows "pure_op (attempt m)"
  unfolding pure_op_def
proof (intro allI impI)
  fix d r d' assume a: "attempt m d = (r, d')"
  obtain q d1 where "m d = (q, d1)" by fastforce
  with a pure_opD [OF assms this] show "tables d' = tables d \<and> in_tx d' = in_tx d" by (simp add: attempt_def)
qed

lemma bindE_cases:
  assumes "bindE m f d = (r, d')"
  obtains (fail) e where "m d = (Inl e, d')" "r = Inl e"
    | (step) a d1 where "m d = (Inr a, d1)" "f a d1 = (r, d')"
  using assms by (auto simp: bindE_def split: prod.splits sum.splits)

lemma pure_op_bindE [clean_intros]:
  assumes "pure_op m" "\<And>a. pure_op (f a)"
  shows "pure_op (bindE m f)"
  unfolding pure_op_def
proof (intro allI impI)
  fix d r d' assume "bindE m f d = (r, d')"
  then show "tables d' = tables d \<and> in_tx d' = in_tx d"
    by (cases rule: bindE_cases) (use pure_opD [OF assms(1)] pure_opD [OF assms(2)] in fastforce)+
qed

lemma clean_pure: "pure_op m \<Longrightarrow> clean m"
  unfolding clean_def by (blast dest: pure_opD)

lemma clean_RunInTx [clean_intros]: "clean (RunInTx orgID fn)"
  unfolding clean_def using RunInTx_atomic(1) by blast

lemma clean_map_error [clean_intros]:
  assumes "clean m"
  shows "clean (map_error f m)"
  unfolding clean_def
proof (intro allI impI)
  fix d e d' assume d: "\<not> in_tx d" "map_error f m d = (Inl e, d')"
  then obtain e2 where "m d = (Inl e2, d')" by (auto simp: map_error_def split: prod.splits sum.splits)
  with cleanD [OF assms d(1)] show "tables d' = tables d" by blast
qed

lemma clean_bind_pure [clean_intros]:
  assumes "pure_op m" "\<And>a. clean (f a)"
  shows "clean (bindE m f)"
  unfolding clean_def
proof (intro allI impI)
  fix d e d' assume d: "\<not> in_tx d" "bindE m f d = (Inl e, d')"
  from d(2) show "tables d' = tables d"
  proof (cases rule: bindE_cases)
    case (step a d1)
    with pure_opD [OF assms(1) step(1)] cleanD [OF assms(2), of d1 a e d'] d show ?thesis by simp
  qed (use pure_opD [OF assms(1)] in blast)
qed

lemma clean_bind_ret [clean_intros]:
  assumes "clean m"
  shows "clean (bindE m (\<lambda>a. ret (g a)))"
  unfolding clean_def
proof (intro allI impI)
  fix d e d' assume d: "\<not> in_tx d" "bindE m (\<lambda>a. ret (g a)) d = (Inl e, d')"
  from d(2) show "tables d' = tables d"
    by (cases rule: bindE_cases) (use cleanD [OF assms d(1)] in \<open>auto simp: ret_def\<close>)
qed

subsection \<open>Property\<close>


definition demo_db :: "(nat, nat) db" where
  "demo_db = \<lparr>tables = 1, tenant = None, in_tx = False, aborted = False, saved = [], faults = [],
     pending = [], fired = []\<rparr>"

definition demo_body :: "error option \<Rightarrow> ((nat, nat) db, unit) op" where
  "demo_body e = bindE (stmt (\<lambda>_ r. Inr ((), r + 1))) (\<lambda>_. bindE (AfterCommit 7)
     (\<lambda>_. case e of None \<Rightarrow> ret () | Some x \<Rightarrow> throw x))"


end
