(* ===== verification/Sql.thy ===== *)
theory Sql
  imports Shared
begin

text \<open>
  The shapes of SQL statement the PostgreSQL repositories (\<open>src/backend/internal/*/infrastructure/persistence\<close>)
  send: a query, a query of one row, an insert, an update by predicate. Each reads and writes the tables under
  the row-level security policy of the tenant in force: the predicate given to the statement includes it.
  \<open>confines\<close> states that an operation leaves everything a tenant cannot see as it was.
\<close>

section \<open>Statements\<close>

text \<open>\<open>errors.Is(err, sql.ErrNoRows)\<close> that no adapter translates.\<close>

definition ErrNoRows :: error where "ErrNoRows = Sentinel ''sql: no rows in result set''"

definition query :: "(uuid option \<Rightarrow> 'r \<Rightarrow> 'a) \<Rightarrow> (('r, 'h) db, 'a) op" where
  "query q = stmt (\<lambda>t r. Inr (q t r, r))"

definition query_row :: "error \<Rightarrow> (uuid option \<Rightarrow> 'r \<Rightarrow> 'a option) \<Rightarrow> (('r, 'h) db, 'a) op" where
  "query_row nf q = stmt (\<lambda>t r. case q t r of None \<Rightarrow> Inl nf | Some x \<Rightarrow> Inr (x, r))"

text \<open>An insert, with the policy or constraint it violates, if any.\<close>

definition insert_row :: "(uuid option \<Rightarrow> 'r \<Rightarrow> error option) \<Rightarrow> ('r \<Rightarrow> 'r) \<Rightarrow> (('r, 'h) db, unit) op" where
  "insert_row violated ins = exec (\<lambda>t r. case violated t r of Some e \<Rightarrow> Inl e | None \<Rightarrow> Inr ((), ins r))"

text \<open>An update: the number of rows affected. \<open>set_rows\<close> replaces the rows of the table.\<close>

definition map_hits :: "('a \<Rightarrow> bool) \<Rightarrow> ('a \<Rightarrow> 'a) \<Rightarrow> 'a list \<Rightarrow> 'a list" where
  "map_hits hit f xs = map (\<lambda>x. if hit x then f x else x) xs"

definition update_rows ::
  "('r \<Rightarrow> 'a list) \<Rightarrow> (('a list \<Rightarrow> 'a list) \<Rightarrow> 'r \<Rightarrow> 'r) \<Rightarrow> (uuid option \<Rightarrow> 'r \<Rightarrow> 'a \<Rightarrow> bool) \<Rightarrow> ('a \<Rightarrow> 'a)
     \<Rightarrow> (('r, 'h) db, nat) op" where
  "update_rows get set_rows hit f = exec (\<lambda>t r.
     Inr (length (filter (hit t r) (get r)), set_rows (map_hits (hit t r) f) r))"

definition delete_rows ::
  "(('a list \<Rightarrow> 'a list) \<Rightarrow> 'r \<Rightarrow> 'r) \<Rightarrow> (uuid option \<Rightarrow> 'r \<Rightarrow> 'a \<Rightarrow> bool) \<Rightarrow> (('r, 'h) db, unit) op" where
  "delete_rows set_rows hit = exec (\<lambda>t r. Inr ((), set_rows (filter (\<lambda>x. \<not> hit t r x)) r))"

definition unit_of :: "('s, 'a) op \<Rightarrow> ('s, unit) op" where
  "unit_of m = bindE m (\<lambda>_. ret ())"

text \<open>\<open>db.WrapError(tx.Exec(...).Error)\<close>: the repository's \<open>ErrNoTx\<close> comes before the statement and is not wrapped.\<close>

definition wrapped :: "(('r, 'h) db, 'a) op \<Rightarrow> (('r, 'h) db, 'a) op" where
  "wrapped m d = (if in_tx d then map_error WrapError m d else m d)"

lemmas sql_defs = query_def query_row_def insert_row_def update_rows_def delete_rows_def unit_of_def

lemma set_map_hits: "set (map_hits hit f xs) = f ` {x \<in> set xs. hit x} \<union> {x \<in> set xs. \<not> hit x}"
  by (auto simp: map_hits_def)

lemma map_hits_id: "(\<And>x. hit x \<Longrightarrow> f x = x) \<Longrightarrow> map_hits hit f xs = xs"
  by (simp add: map_hits_def map_idI)

lemma map_map_hits: "(\<And>x. g (f x) = g x) \<Longrightarrow> map g (map_hits hit f xs) = map g xs"
  by (simp add: map_hits_def)

lemma filter_map_hits:
  assumes "\<And>x. hit x \<Longrightarrow> v x" "\<And>x. hit x \<Longrightarrow> v (f x)"
  shows "filter (\<lambda>x. \<not> v x) (map_hits hit f xs) = filter (\<lambda>x. \<not> v x) xs"
  using assms by (induction xs) (auto simp: map_hits_def)

section \<open>Reading a successful statement backwards\<close>

text \<open>What every successful statement leaves as it was.\<close>

definition ran :: "('r, 'h) db \<Rightarrow> ('r, 'h) db \<Rightarrow> bool" where
  "ran d d' \<longleftrightarrow> in_tx d \<and> \<not> aborted d \<and> tenant d' = tenant d \<and> in_tx d' \<and> \<not> aborted d'
     \<and> pending d' = pending d \<and> fired d' = fired d \<and> saved d' = saved d"

lemma ranD:
  assumes "ran d d'"
  shows "in_tx d" "\<not> aborted d" "tenant d' = tenant d" "in_tx d'" "\<not> aborted d'" "pending d' = pending d"
    "fired d' = fired d" "saved d' = saved d"
  using assms by (simp_all add: ran_def)

lemma ran_trans: "ran d d1 \<Longrightarrow> ran d1 d2 \<Longrightarrow> ran d d2"
  by (simp add: ran_def)

lemma stmt_ran: "stmt f d = (Inr a, d') \<Longrightarrow> ran d d'"
  using stmt_InrD [of f d a d'] by (simp add: ran_def)

lemma exec_ran: "exec f d = (Inr a, d') \<Longrightarrow> ran d d'"
  using exec_InrD [of f d a d'] by (simp add: ran_def)

lemma query_InrE:
  assumes "query q d = (Inr a, d')"
  obtains "a = q (tenant d) (tables d)" "tables d' = tables d" "ran d d'"
proof -
  note x = assms [unfolded query_def]
  show ?thesis by (rule that) (use stmt_InrD(1) [OF x] stmt_ran [OF x] in auto)
qed

lemma query_row_InrE:
  assumes "query_row nf q d = (Inr a, d')"
  obtains "q (tenant d) (tables d) = Some a" "tables d' = tables d" "ran d d'"
proof -
  note x = assms [unfolded query_row_def]
  show ?thesis by (rule that) (use stmt_InrD(1) [OF x] stmt_ran [OF x] in \<open>auto split: option.splits\<close>)
qed

lemma insert_row_InrE:
  assumes "insert_row violated ins d = (Inr a, d')"
  obtains "violated (tenant d) (tables d) = None" "tables d' = ins (tables d)" "ran d d'"
proof -
  note x = assms [unfolded insert_row_def]
  show ?thesis by (rule that) (use exec_InrD(1) [OF x] exec_ran [OF x] in \<open>auto split: option.splits\<close>)
qed

lemma update_rows_InrE:
  assumes "update_rows get set_rows hit f d = (Inr n, d')"
  obtains "n = length (filter (hit (tenant d) (tables d)) (get (tables d)))"
    "tables d' = set_rows (map_hits (hit (tenant d) (tables d)) f) (tables d)" "ran d d'"
proof -
  note x = assms [unfolded update_rows_def]
  show ?thesis by (rule that) (use exec_InrD(1) [OF x] exec_ran [OF x] in auto)
qed

lemma delete_rows_InrE:
  assumes "delete_rows set_rows hit d = (Inr n, d')"
  obtains "tables d' = set_rows (filter (\<lambda>x. \<not> hit (tenant d) (tables d) x)) (tables d)" "ran d d'"
proof -
  note x = assms [unfolded delete_rows_def]
  show ?thesis by (rule that) (use exec_InrD(1) [OF x] exec_ran [OF x] in auto)
qed

lemma unit_of_InrE: "unit_of m d = (Inr u, d') \<Longrightarrow> (\<And>a. m d = (Inr a, d') \<Longrightarrow> P) \<Longrightarrow> P"
  unfolding unit_of_def by (elim op_InrE) auto

lemma wrapped_InrE: "wrapped m d = (Inr a, d') \<Longrightarrow> (m d = (Inr a, d') \<Longrightarrow> P) \<Longrightarrow> P"
  by (auto simp: wrapped_def map_error_Inr split: if_splits)

lemmas sql_InrE = query_InrE query_row_InrE insert_row_InrE update_rows_InrE delete_rows_InrE unit_of_InrE
  wrapped_InrE

section \<open>Invariants of the tables\<close>

lemma keeps_query [keeps_intros]: "keeps (on_tables Q) (query q)"
  unfolding query_def by (rule keeps_stmt) auto

lemma keeps_query_row [keeps_intros]: "keeps (on_tables Q) (query_row nf q)"
  unfolding query_row_def by (rule keeps_stmt) (auto split: option.splits)

lemma keeps_wrapped [keeps_intros]: "keeps P m \<Longrightarrow> keeps P (wrapped m)"
  by (auto simp: keeps_def wrapped_def)

lemma keeps_map_error [keeps_intros]: "keeps P m \<Longrightarrow> keeps P (map_error f m)"
  by (auto simp: keeps_def)

lemma keeps_check [keeps_intros]: "keeps P (check e)"
  by (cases e) (simp_all add: check_def)

lemma keeps_unit_of [keeps_intros]: "keeps P m \<Longrightarrow> keeps P (unit_of m)"
  unfolding unit_of_def by (intro keeps_intros)

lemma keeps_update_rows:
  assumes "\<And>t r. Q r \<Longrightarrow> Q (set_rows (map_hits (hit t r) f) r)"
  shows "keeps (on_tables Q) (update_rows get set_rows hit f)"
  unfolding update_rows_def by (rule keeps_exec) (use assms in auto)

lemma keeps_insert_row:
  assumes "\<And>t r. Q r \<Longrightarrow> violated t r = None \<Longrightarrow> Q (ins r)"
  shows "keeps (on_tables Q) (insert_row violated ins)"
  unfolding insert_row_def by (rule keeps_exec) (use assms in \<open>auto split: option.splits\<close>)

section \<open>Confinement to the tenant\<close>

text \<open>\<open>H t r\<close> is what tenant \<open>t\<close> cannot see of the tables \<open>r\<close>.\<close>

named_theorems confine_intros

definition confines :: "(uuid option \<Rightarrow> 'r \<Rightarrow> 'b) \<Rightarrow> (('r, 'h) db, 'a) op \<Rightarrow> bool" where
  "confines H m \<longleftrightarrow> (\<forall>d r d'. in_tx d \<longrightarrow> m d = (r, d') \<longrightarrow>
     in_tx d' \<and> tenant d' = tenant d \<and> H (tenant d) (tables d') = H (tenant d) (tables d))"

lemma confinesI:
  "(\<And>d r d'. in_tx d \<Longrightarrow> m d = (r, d') \<Longrightarrow>
     in_tx d' \<and> tenant d' = tenant d \<and> H (tenant d) (tables d') = H (tenant d) (tables d)) \<Longrightarrow> confines H m"
  unfolding confines_def by blast

lemma confinesD:
  "confines H m \<Longrightarrow> in_tx d \<Longrightarrow> m d = (r, d') \<Longrightarrow>
     in_tx d' \<and> tenant d' = tenant d \<and> H (tenant d) (tables d') = H (tenant d) (tables d)"
  unfolding confines_def by blast

lemma confines_ret [confine_intros]: "confines H (ret a)"
  by (rule confinesI) (simp add: ret_def)

lemma confines_throw [confine_intros]: "confines H (throw a)"
  by (rule confinesI) (simp add: throw_def)

lemma confines_lift [confine_intros]: "confines H (lift a)"
  by (rule confinesI) (simp add: lift_def)

lemma confines_fail_if [confine_intros]: "confines H (fail_if b e)"
  by (cases b) (simp_all add: fail_if_def confines_ret confines_throw)

lemma confines_check [confine_intros]: "confines H (check e)"
  by (cases e) (simp_all add: check_def confines_ret confines_throw)

lemma confines_bindE [confine_intros]:
  assumes m: "confines H m" and f: "\<And>a. confines H (f a)"
  shows "confines H (bindE m f)"
proof (rule confinesI)
  fix d r d' assume d: "in_tx d" "bindE m f d = (r, d')"
  from d(2) show "in_tx d' \<and> tenant d' = tenant d \<and> H (tenant d) (tables d') = H (tenant d) (tables d)"
  proof (cases rule: bindE_cases)
    case (fail e)
    with confinesD [OF m d(1)] show ?thesis by blast
  next
    case (step a d1)
    note x = confinesD [OF m d(1) step(1)]
    with confinesD [OF f _ step(2)] show ?thesis by simp
  qed
qed

lemma confines_attempt [confine_intros]:
  assumes "confines H m"
  shows "confines H (attempt m)"
proof (rule confinesI)
  fix d r d' assume d: "in_tx d" "attempt m d = (r, d')"
  then obtain q where "m d = (q, d')" by (auto simp: attempt_def split: prod.splits)
  with confinesD [OF assms d(1)] show "in_tx d' \<and> tenant d' = tenant d \<and> H (tenant d) (tables d') = H (tenant d) (tables d)"
    by blast
qed

lemma confines_map_error [confine_intros]:
  assumes "confines H m"
  shows "confines H (map_error g m)"
proof (rule confinesI)
  fix d r d' assume d: "in_tx d" "map_error g m d = (r, d')"
  then obtain q where "m d = (q, d')" by (auto simp: map_error_def split: prod.splits sum.splits)
  with confinesD [OF assms d(1)] show "in_tx d' \<and> tenant d' = tenant d \<and> H (tenant d) (tables d') = H (tenant d) (tables d)"
    by blast
qed

lemma confines_unit_of [confine_intros]: "confines H m \<Longrightarrow> confines H (unit_of m)"
  unfolding unit_of_def by (intro confine_intros)

lemma confines_wrapped [confine_intros]:
  assumes "confines H m"
  shows "confines H (wrapped m)"
  by (rule confinesI) (use confinesD [OF confines_map_error [OF assms]] in \<open>simp add: wrapped_def\<close>)

lemma confines_if [confine_intros]: "confines H m \<Longrightarrow> confines H n \<Longrightarrow> confines H (if b then m else n)"
  by simp

lemma confines_case_option [confine_intros]:
  "confines H m \<Longrightarrow> (\<And>x. confines H (f x)) \<Longrightarrow> confines H (case y of None \<Rightarrow> m | Some x \<Rightarrow> f x)"
  by (cases y) auto

lemma confines_case_sum [confine_intros]:
  "(\<And>e. confines H (g e)) \<Longrightarrow> (\<And>x. confines H (f x)) \<Longrightarrow> confines H (case y of Inl e \<Rightarrow> g e | Inr x \<Rightarrow> f x)"
  by (cases y) auto

lemma confines_case_prod [confine_intros]:
  "(\<And>a b. confines H (f a b)) \<Longrightarrow> confines H (case y of (a, b) \<Rightarrow> f a b)"
  by (cases y) auto

lemma confines_exec:
  assumes "\<And>t r a r'. f t r = Inr (a, r') \<Longrightarrow> H t r' = H t r"
  shows "confines H (exec f)"
proof (rule confinesI)
  fix d r d' assume d: "in_tx d" "exec f d = (r, d')"
  show "in_tx d' \<and> tenant d' = tenant d \<and> H (tenant d) (tables d') = H (tenant d) (tables d)"
  proof (cases r)
    case (Inr a)
    with d(2) exec_InrD [of f d a d'] assms [of "tenant d" "tables d" a "tables d'"] show ?thesis by simp
  next
    case (Inl e)
    with d show ?thesis
      by (auto simp: exec_def split: if_splits option.splits prod.splits sum.splits dest!: next_fault_frameD)
  qed
qed

lemma confines_stmt:
  assumes "\<And>t r a r'. f t r = Inr (a, r') \<Longrightarrow> H t r' = H t r"
  shows "confines H (stmt f)"
proof (rule confinesI)
  fix d r d' assume d: "in_tx d" "stmt f d = (r, d')"
  show "in_tx d' \<and> tenant d' = tenant d \<and> H (tenant d) (tables d') = H (tenant d) (tables d)"
  proof (cases r)
    case (Inr a)
    with d(2) stmt_InrD [of f d a d'] assms [of "tenant d" "tables d" a "tables d'"] show ?thesis by simp
  next
    case (Inl e)
    with d show ?thesis
      by (auto simp: stmt_def split: if_splits option.splits prod.splits sum.splits dest!: next_fault_frameD)
  qed
qed

lemma confines_query [confine_intros]: "confines H (query q)"
  unfolding query_def by (rule confines_stmt) auto

lemma confines_query_row [confine_intros]: "confines H (query_row nf q)"
  unfolding query_row_def by (rule confines_stmt) (auto split: option.splits)

lemma confines_insert_row:
  assumes "\<And>t r. violated t r = None \<Longrightarrow> H t (ins r) = H t r"
  shows "confines H (insert_row violated ins)"
  unfolding insert_row_def by (rule confines_exec) (use assms in \<open>auto split: option.splits\<close>)

lemma confines_update_rows:
  assumes "\<And>t r. H t (set_rows (map_hits (hit t r) f) r) = H t r"
  shows "confines H (update_rows get set_rows hit f)"
  unfolding update_rows_def by (rule confines_exec) (use assms in auto)

lemma confines_delete_rows:
  assumes "\<And>t r. H t (set_rows (filter (\<lambda>x. \<not> hit t r x)) r) = H t r"
  shows "confines H (delete_rows set_rows hit)"
  unfolding delete_rows_def by (rule confines_exec) (use assms in auto)

lemma confines_RunInTx:
  assumes "confines H fn" "\<not> in_tx d"
  shows "H (Some orgID) (tables (snd (RunInTx orgID fn d))) = H (Some orgID) (tables d)"
proof (cases "RunInTx orgID fn d")
  case (Pair r d')
  show ?thesis
  proof (cases r)
    case (Inl e)
    with Pair RunInTx_atomic [of d orgID fn e d'] assms show ?thesis by simp
  next
    case (Inr a)
    with Pair have "RunInTx orgID fn d = (Inr a, d')" by simp
    with assms(2) obtain d1 d2 where "fn d1 = (Inr a, d2)" "tables d1 = tables d" "tables d' = tables d2"
      "tenant d1 = Some orgID" "in_tx d1"
      by (rule RunInTx_InrD)
    with confinesD [OF assms(1), of d1] Pair show ?thesis by fastforce
  qed
qed

section \<open>Operations without effects\<close>

text \<open>An operation of the database alone: it fires no effect and registers none.\<close>

named_theorems quiet_intros

definition quiet :: "(('r, 'h) db, 'a) op \<Rightarrow> bool" where
  "quiet m \<longleftrightarrow> (\<forall>d. fired (snd (m d)) = fired d \<and> pending (snd (m d)) = pending d)"

lemma quietD: "quiet m \<Longrightarrow> m d = (r, d') \<Longrightarrow> fired d' = fired d \<and> pending d' = pending d"
  unfolding quiet_def by (metis snd_conv)

lemma quietI: "(\<And>d r d'. m d = (r, d') \<Longrightarrow> fired d' = fired d \<and> pending d' = pending d) \<Longrightarrow> quiet m"
  unfolding quiet_def by (metis prod.collapse)

lemma quiet_ret [quiet_intros]: "quiet (ret a)" by (simp add: quiet_def ret_def)
lemma quiet_throw [quiet_intros]: "quiet (throw a)" by (simp add: quiet_def throw_def)
lemma quiet_lift [quiet_intros]: "quiet (lift a)" by (simp add: quiet_def lift_def)
lemma quiet_fail_if [quiet_intros]: "quiet (fail_if b e)" by (simp add: quiet_def fail_if_def ret_def throw_def)
lemma quiet_check [quiet_intros]: "quiet (check e)" by (cases e) (simp_all add: check_def quiet_intros)

lemma quiet_bindE [quiet_intros]:
  assumes "quiet m" "\<And>a. quiet (f a)" shows "quiet (bindE m f)"
proof (rule quietI)
  fix d r d' assume "bindE m f d = (r, d')"
  then show "fired d' = fired d \<and> pending d' = pending d"
    by (cases rule: bindE_cases) (use quietD [OF assms(1)] quietD [OF assms(2)] in fastforce)+
qed

lemma quiet_attempt [quiet_intros]: "quiet m \<Longrightarrow> quiet (attempt m)"
  by (rule quietI) (auto simp: attempt_def split: prod.splits dest: quietD)

lemma quiet_map_error [quiet_intros]: "quiet m \<Longrightarrow> quiet (map_error g m)"
  by (auto simp: quiet_def)

lemma quiet_case_prod [quiet_intros]: "(\<And>a b. quiet (f a b)) \<Longrightarrow> quiet (case y of (a, b) \<Rightarrow> f a b)"
  by (cases y) simp

lemma quiet_exec [quiet_intros]: "quiet (exec f)"
  by (rule quietI) (auto simp: exec_def split: if_splits option.splits prod.splits sum.splits dest!: next_fault_frameD)

lemma quiet_stmt [quiet_intros]: "quiet (stmt f)"
  by (rule quietI) (auto simp: stmt_def split: if_splits option.splits prod.splits sum.splits dest!: next_fault_frameD)

lemma quiet_SetTenant [quiet_intros]: "quiet (SetTenant o1)"
  by (rule quietI) (auto simp: SetTenant_def split: if_splits option.splits prod.splits dest!: next_fault_frameD)

lemma quiet_commit [quiet_intros]: "quiet commit"
  by (rule quietI) (auto simp: commit_def split: if_splits option.splits prod.splits dest!: next_fault_frameD)

lemma quiet_RunInTx [quiet_intros]:
  assumes "quiet fn" shows "quiet (RunInTx o1 fn)"
proof (rule quietI)
  fix d r d' assume r: "RunInTx o1 fn d = (r, d')"
  let ?body = "bindE (SetTenant o1) (\<lambda>_. bindE fn (\<lambda>a. bindE commit (\<lambda>_. ret a)))"
  have q: "quiet ?body" by (intro quiet_intros assms)
  show "fired d' = fired d \<and> pending d' = pending d"
    using r quietD [OF assms] quietD [OF q]
    by (auto simp: RunInTx_def rollback_def RunAfterCommit_def split: if_splits option.splits prod.splits sum.splits dest!: next_fault_frameD)
qed

lemma quiet_sql [quiet_intros]: "quiet (query q)" "quiet (query_row nf p)" "quiet (insert_row v i)" "quiet (update_rows g s h f)"
  unfolding query_def query_row_def insert_row_def update_rows_def by (intro quiet_intros)+

lemma quiet_unit_of [quiet_intros]: "quiet m \<Longrightarrow> quiet (unit_of m)"
  unfolding unit_of_def by (intro quiet_intros)

lemma quiet_wrapped [quiet_intros]: "quiet m \<Longrightarrow> quiet (wrapped m)"
  by (auto simp: quiet_def wrapped_def)

lemma quiet_if [quiet_intros]: "quiet m \<Longrightarrow> quiet n \<Longrightarrow> quiet (if b then m else n)"
  by simp

lemma quiet_case_option [quiet_intros]: "quiet m \<Longrightarrow> (\<And>a. quiet (f a)) \<Longrightarrow> quiet (case y of None \<Rightarrow> m | Some a \<Rightarrow> f a)"
  by (cases y) simp_all

lemma quiet_case_sum [quiet_intros]: "(\<And>a. quiet (f a)) \<Longrightarrow> (\<And>a. quiet (g a)) \<Longrightarrow> quiet (case y of Inl a \<Rightarrow> f a | Inr a \<Rightarrow> g a)"
  by (cases y) simp_all

lemma attempt_total: "\<exists>q d1. attempt m d = (Inr q, d1)"
  by (cases "m d") (simp add: attempt_def)

section \<open>Statements outside every transaction\<close>

text \<open>The connection pool runs a statement on its own: it has its effect, or fails and has none.\<close>

definition pool_stmt :: "('r \<Rightarrow> 'a result \<times> 'r) \<Rightarrow> (('r, 'h) db, 'a) op" where
  "pool_stmt f d = (case next_fault d of (Some e, d') \<Rightarrow> (Inl e, d')
     | (None, d') \<Rightarrow> (case f (tables d') of (r, t) \<Rightarrow> (r, d'\<lparr>tables := t\<rparr>)))"

lemma quiet_pool_stmt [quiet_intros]: "quiet (pool_stmt f)"
  by (rule quietI) (auto simp: pool_stmt_def split: option.splits prod.splits dest!: next_fault_frameD)

lemma pool_stmt_run:
  assumes "pool_stmt f d = (r, d')"
  shows "in_tx d' = in_tx d \<and> fired d' = fired d
    \<and> (f (tables d) = (r, tables d') \<or> (\<exists>e. r = Inl e) \<and> tables d' = tables d)"
  using assms by (auto simp: pool_stmt_def split: option.splits prod.splits dest!: next_fault_frameD)

end
