(* ===== verification/Float64.thy ===== *)
theory Float64
  imports Prelude
begin

text \<open>
  Go's \<open>float64\<close> arithmetic, as rationals rounded after every operation: \<open>rnd64\<close> is IEEE-754's round to
  nearest, ties to even, with 53 significant bits and gradual underflow. Infinities and NaN have no
  value here: the source computes with weights, ratios and scores, far from the overflow threshold.
  What the callers need of rounding is the locale \<open>float_rounding\<close>: it is monotone and leaves the
  integers up to \<open>2^53\<close> alone.
\<close>

section \<open>Rounding\<close>

fun bitlen :: "nat \<Rightarrow> nat" where
  "bitlen n = (if n = 0 then 0 else Suc (bitlen (n div 2)))"

declare bitlen.simps [simp del]

definition two_pow :: "int \<Rightarrow> rat" where
  "two_pow k = (if 0 \<le> k then 2 ^ nat k else 1 / 2 ^ nat (- k))"

definition exponent :: "rat \<Rightarrow> int" where
  "exponent m = (case quotient_of m of (n, d) \<Rightarrow>
     let k = int (bitlen (nat n)) - int (bitlen (nat d)) in
     if m < two_pow k then k - 1 else k)"

definition ulp :: "rat \<Rightarrow> rat" where
  "ulp m = two_pow (max (exponent m) (- 1022) - 52)"

definition round_even :: "rat \<Rightarrow> int" where
  "round_even q = (let f = \<lfloor>q\<rfloor>; r = q - of_int f in
     if r < 1 / 2 then f else if 1 / 2 < r then f + 1 else if even f then f else f + 1)"

definition rnd_pos :: "rat \<Rightarrow> rat" where
  "rnd_pos m = of_int (round_even (m / ulp m)) * ulp m"

definition rnd64 :: "rat \<Rightarrow> rat" where
  "rnd64 q = (if q = 0 then 0 else if q < 0 then - rnd_pos (- q) else rnd_pos q)"

definition fadd :: "rat \<Rightarrow> rat \<Rightarrow> rat" where "fadd x y = rnd64 (x + y)"
definition fsub :: "rat \<Rightarrow> rat \<Rightarrow> rat" where "fsub x y = rnd64 (x - y)"
definition fmul :: "rat \<Rightarrow> rat \<Rightarrow> rat" where "fmul x y = rnd64 (x * y)"
definition fdiv :: "rat \<Rightarrow> rat \<Rightarrow> rat" where "fdiv x y = rnd64 (x / y)"

text \<open>Conversion to \<open>int\<close> truncates towards zero.\<close>

definition trunc :: "rat \<Rightarrow> int" where
  "trunc q = (if q < 0 then - \<lfloor>- q\<rfloor> else \<lfloor>q\<rfloor>)"

section \<open>Powers of two and exponents\<close>

lemma two_pow_pos [simp]: "0 < two_pow k"
  by (simp add: two_pow_def)

lemma two_pow_Suc: "two_pow (k + 1) = 2 * two_pow k"
proof (cases "0 \<le> k")
  case True
  then show ?thesis by (simp add: two_pow_def nat_add_distrib)
next
  case False
  then obtain n where "k = - int (Suc n)" by (cases k) auto
  moreover have "nat (int n + 1) = Suc n" by simp
  ultimately show ?thesis by (simp add: two_pow_def)
qed

lemma two_pow_add_nat: "two_pow (k + int n) = 2 ^ n * two_pow k"
proof (induction n)
  case (Suc n)
  have "two_pow (k + int (Suc n)) = 2 * two_pow (k + int n)"
    using two_pow_Suc [of "k + int n"] by (simp add: ac_simps)
  with Suc show ?case by simp
qed simp

lemma two_pow_mono: "j \<le> k \<Longrightarrow> two_pow j \<le> two_pow k"
proof -
  assume "j \<le> k"
  then obtain n where "k = j + int n" by (metis zle_iff_zadd)
  moreover have "1 * two_pow j \<le> 2 ^ n * two_pow j"
    by (rule mult_right_mono) (auto simp: less_imp_le)
  ultimately show ?thesis by (simp add: two_pow_add_nat)
qed

lemma bitlen_bounds: "0 < n \<Longrightarrow> 2 ^ (bitlen n - 1) \<le> n \<and> n < 2 ^ bitlen n"
proof (induction n rule: bitlen.induct)
  case (1 n)
  show ?case
  proof (cases "n div 2 = 0")
    case True
    with 1 have "n = 1" by simp
    then show ?thesis by (simp add: bitlen.simps [of "Suc 0"] bitlen.simps [of 0])
  next
    case False
    with 1 have ih: "2 ^ (bitlen (n div 2) - 1) \<le> n div 2" "n div 2 < 2 ^ bitlen (n div 2)"
      by auto
    from False obtain b where b: "bitlen (n div 2) = Suc b"
      by (metis bitlen.simps)
    have "bitlen n = Suc (Suc b)" using 1(2) b by (simp add: bitlen.simps [of n])
    moreover have "2 * (n div 2) \<le> n" "n < 2 * (n div 2) + 2" by auto
    moreover have "2 ^ b \<le> n div 2" "n div 2 < 2 ^ Suc b" using ih b by simp_all
    ultimately show ?thesis by simp
  qed
qed

lemma bitlen_pos: "0 < n \<Longrightarrow> 0 < bitlen n"
  by (subst bitlen.simps) simp

lemma exponent_bounds:
  assumes "0 < m"
  shows "two_pow (exponent m) \<le> m" "m < two_pow (exponent m + 1)"
proof -
  obtain n d where q: "quotient_of m = (n, d)" by fastforce
  then have d: "0 < d" and m: "m = of_int n / of_int d"
    by (auto intro: quotient_of_denom_pos quotient_of_div)
  with assms have n: "0 < n" by (simp add: zero_less_divide_iff)
  define a b where "a = bitlen (nat n)" and "b = bitlen (nat d)"
  have a: "2 ^ (a - 1) \<le> nat n" "nat n < 2 ^ a" "0 < a"
    using bitlen_bounds [of "nat n"] bitlen_pos [of "nat n"] n by (auto simp: a_def)
  have b: "2 ^ (b - 1) \<le> nat d" "nat d < 2 ^ b" "0 < b"
    using bitlen_bounds [of "nat d"] bitlen_pos [of "nat d"] d by (auto simp: b_def)
  have n1: "(2::rat) ^ (a - 1) \<le> of_int n"
    using a(1) n by (metis of_nat_le_iff of_nat_numeral of_nat_power of_int_of_nat_eq int_nat_eq less_imp_le)
  have n2: "of_int n < (2::rat) ^ a"
    using a(2) n by (metis of_nat_less_iff of_nat_numeral of_nat_power of_int_of_nat_eq int_nat_eq less_imp_le)
  have d1: "(2::rat) ^ (b - 1) \<le> of_int d"
    using b(1) d by (metis of_nat_le_iff of_nat_numeral of_nat_power of_int_of_nat_eq int_nat_eq less_imp_le)
  have d2: "of_int d < (2::rat) ^ b"
    using b(2) d by (metis of_nat_less_iff of_nat_numeral of_nat_power of_int_of_nat_eq int_nat_eq less_imp_le)
  define k where "k = int a - int b"
  have pa: "(2::rat) ^ a = two_pow (int a)" "(2::rat) ^ b = two_pow (int b)"
    by (simp_all add: two_pow_def)
  have kb: "two_pow k * 2 ^ b = 2 ^ a"
    using two_pow_add_nat [of k b] pa by (simp add: k_def mult.commute)
  have up: "m < two_pow (k + 1)"
  proof -
    have "two_pow (k + 1) * 2 ^ (b - 1) = 2 ^ a"
      using kb b(3) by (simp add: two_pow_Suc power_eq_if mult.assoc split: if_splits)
    then have "of_int n < two_pow (k + 1) * 2 ^ (b - 1)" using n2 by simp
    also have "\<dots> \<le> two_pow (k + 1) * of_int d"
      using d1 by (intro mult_left_mono) (auto simp: less_imp_le)
    finally show ?thesis using d m by (simp add: divide_less_eq)
  qed
  have lo: "two_pow (k - 1) \<le> m"
  proof -
    have "two_pow (k - 1) * 2 ^ b = 2 ^ (a - 1)"
      using kb a(3) two_pow_Suc [of "k - 1"] by (simp add: power_eq_if split: if_splits)
    moreover have "two_pow (k - 1) * of_int d \<le> two_pow (k - 1) * 2 ^ b"
      using d2 by (intro mult_left_mono) (auto simp: less_imp_le)
    ultimately have "two_pow (k - 1) * of_int d \<le> of_int n" using n1 by linarith
    then show ?thesis using d m by (simp add: le_divide_eq)
  qed
  have e: "exponent m = (if m < two_pow k then k - 1 else k)"
    by (simp add: exponent_def q k_def a_def b_def Let_def)
  show "two_pow (exponent m) \<le> m" using lo by (auto simp: e)
  show "m < two_pow (exponent m + 1)" using up by (auto simp: e)
qed

lemma exponent_mono: "0 < x \<Longrightarrow> x \<le> y \<Longrightarrow> exponent x \<le> exponent y"
proof (rule ccontr)
  assume a: "0 < x" "x \<le> y" and "\<not> exponent x \<le> exponent y"
  then have "two_pow (exponent y + 1) \<le> two_pow (exponent x)" by (intro two_pow_mono) simp
  with exponent_bounds(2) [of y] exponent_bounds(1) [of x] a show False by linarith
qed

section \<open>Rounding is monotone and exact on small integers\<close>

lemma round_even_int [simp]: "round_even (of_int k) = k"
  by (simp add: round_even_def)

lemma round_even_mono:
  assumes "x \<le> y"
  shows "round_even x \<le> round_even y"
proof (cases "\<lfloor>x\<rfloor> = \<lfloor>y\<rfloor>")
  case True
  then show ?thesis using assms by (auto simp: round_even_def Let_def)
next
  case False
  moreover have "\<lfloor>x\<rfloor> \<le> \<lfloor>y\<rfloor>" using assms by (rule floor_mono)
  ultimately have "\<lfloor>x\<rfloor> + 1 \<le> \<lfloor>y\<rfloor>" by simp
  moreover have "round_even x \<le> \<lfloor>x\<rfloor> + 1" "\<lfloor>y\<rfloor> \<le> round_even y"
    by (auto simp: round_even_def Let_def)
  ultimately show ?thesis by simp
qed

lemma ulp_pos [simp]: "0 < ulp m"
  by (simp add: ulp_def)

lemma rnd_pos_mono:
  assumes "0 < x" "x \<le> y"
  shows "rnd_pos x \<le> rnd_pos y"
proof (cases "max (exponent x) (- 1022) = max (exponent y) (- 1022)")
  case True
  then have u: "ulp x = ulp y" by (simp add: ulp_def)
  have "x / ulp y \<le> y / ulp y" using assms by (simp add: divide_right_mono less_imp_le)
  then have "of_int (round_even (x / ulp y)) \<le> (of_int (round_even (y / ulp y)) :: rat)"
    by (simp add: round_even_mono)
  then show ?thesis unfolding rnd_pos_def u by (intro mult_right_mono) (auto simp: less_imp_le)
next
  case False
  define E where "E = max (exponent x) (- 1022)"
  have le: "exponent x \<le> exponent y" using assms by (rule exponent_mono)
  with False have Ey: "E + 1 \<le> exponent y" "max (exponent y) (- 1022) = exponent y"
    by (auto simp: E_def)
  have ux: "2 ^ 53 * ulp x = two_pow (E + 1)"
    using two_pow_add_nat [of "E - 52" 53] by (simp add: ulp_def E_def ac_simps)
  have uy: "2 ^ 52 * ulp y = two_pow (exponent y)"
    using two_pow_add_nat [of "exponent y - 52" 52] Ey(2) by (simp add: ulp_def)
  have "x < two_pow (exponent x + 1)" using assms exponent_bounds(2) [of x] by simp
  also have "\<dots> \<le> two_pow (E + 1)" by (rule two_pow_mono) (simp add: E_def)
  finally have "x / ulp x \<le> of_int (2 ^ 53)" using ux by (simp add: divide_le_eq)
  then have "round_even (x / ulp x) \<le> 2 ^ 53" using round_even_mono round_even_int by metis
  then have "of_int (round_even (x / ulp x)) \<le> (2 ^ 53 :: rat)"
    by (metis of_int_le_iff of_int_numeral of_int_power)
  then have "rnd_pos x \<le> two_pow (E + 1)"
    unfolding rnd_pos_def ux [symmetric] by (intro mult_right_mono) (auto simp: less_imp_le)
  also have "\<dots> \<le> two_pow (exponent y)" using Ey by (intro two_pow_mono)
  also have "\<dots> \<le> rnd_pos y"
  proof -
    have "two_pow (exponent y) \<le> y" using assms exponent_bounds(1) [of y] by simp
    then have "of_int (2 ^ 52) \<le> y / ulp y" using uy by (simp add: le_divide_eq)
    then have "2 ^ 52 \<le> round_even (y / ulp y)" using round_even_mono round_even_int by metis
    then have "(2 ^ 52 :: rat) \<le> of_int (round_even (y / ulp y))"
      by (metis of_int_le_iff of_int_numeral of_int_power)
    then show ?thesis
      unfolding rnd_pos_def uy [symmetric] by (intro mult_right_mono) (auto simp: less_imp_le)
  qed
  finally show ?thesis .
qed

lemma rnd_pos_nonneg: "0 < x \<Longrightarrow> 0 \<le> rnd_pos x"
proof -
  assume "0 < x"
  then have "of_int 0 \<le> x / ulp x" by (simp add: zero_le_divide_iff less_imp_le)
  then have "0 \<le> round_even (x / ulp x)" using round_even_mono round_even_int by metis
  then show ?thesis by (simp add: rnd_pos_def less_imp_le)
qed

lemma rnd64_mono: "x \<le> y \<Longrightarrow> rnd64 x \<le> rnd64 y"
  using rnd_pos_mono [of x y] rnd_pos_mono [of "- y" "- x"] rnd_pos_nonneg [of y]
    rnd_pos_nonneg [of "- x"]
  by (auto simp: rnd64_def)

lemma rnd_pos_int:
  assumes "0 < k" "k \<le> 2 ^ 53"
  shows "rnd_pos (of_int k) = of_int k"
proof -
  let ?e = "exponent (of_int k)"
  have e1: "two_pow ?e \<le> of_int k" and e2: "of_int k < two_pow (?e + 1)"
    using assms exponent_bounds [of "of_int k"] by auto
  have "0 \<le> ?e"
  proof (rule ccontr)
    assume "\<not> 0 \<le> ?e"
    then have "two_pow (?e + 1) \<le> two_pow 0" by (intro two_pow_mono) simp
    with e2 assms show False by (simp add: two_pow_def)
  qed
  then have u: "ulp (of_int k) = two_pow (?e - 52)" by (simp add: ulp_def max_def)
  show ?thesis
  proof (cases "?e \<le> 52")
    case True
    then have "two_pow (?e - 52) * 2 ^ nat (52 - ?e) = 1"
      using two_pow_add_nat [of "?e - 52" "nat (52 - ?e)"] by (simp add: two_pow_def mult.commute)
    then have "(of_int k :: rat) / two_pow (?e - 52) = of_int (k * 2 ^ nat (52 - ?e))"
      by (simp add: nonzero_divide_eq_eq less_imp_neq [OF two_pow_pos, symmetric] mult.assoc)
        (simp add: mult.commute [of _ "two_pow _"])
    then show ?thesis
      unfolding rnd_pos_def u by (metis nonzero_eq_divide_eq order_less_irrefl round_even_int two_pow_pos)
  next
    case False
    then have "two_pow 53 \<le> two_pow ?e" by (intro two_pow_mono) simp
    then have "2 ^ 53 \<le> (of_int k :: rat)" using e1 by (simp add: two_pow_def)
    with assms(2) have k: "k = 2 ^ 53"
      by (metis antisym of_int_le_iff of_int_numeral of_int_power)
    have "exponent (of_int k) = 53"
    proof -
      have "?e < 54"
      proof (rule ccontr)
        assume "\<not> ?e < 54"
        then have "two_pow 54 \<le> two_pow ?e" by (intro two_pow_mono) simp
        with e1 k show False by (simp add: two_pow_def)
      qed
      with False show ?thesis by simp
    qed
    then have "ulp (of_int k) = 2" by (simp add: ulp_def two_pow_def)
    moreover have "(of_int k :: rat) / 2 = of_int (2 ^ 52)" using k by simp
    ultimately show ?thesis
      unfolding rnd_pos_def by (metis k mult.commute nonzero_mult_div_cancel_left
          times_divide_eq_right round_even_int zero_neq_numeral)
  qed
qed

lemma rnd64_int: "\<bar>k\<bar> \<le> 2 ^ 53 \<Longrightarrow> rnd64 (of_int k) = of_int k"
  using rnd_pos_int [of k] rnd_pos_int [of "- k"] by (auto simp: rnd64_def)

lemma round_even_error: "\<bar>of_int (round_even q) - q\<bar> \<le> 1 / 2"
proof -
  have "of_int \<lfloor>q\<rfloor> \<le> q" "q < of_int \<lfloor>q\<rfloor> + 1" by linarith+
  then show ?thesis by (auto simp: round_even_def Let_def abs_le_iff)
qed

text \<open>Relative error of a result that is not subnormal.\<close>

lemma rnd64_error:
  assumes "1 / 1000 \<le> x"
  shows "\<bar>rnd64 x - x\<bar> \<le> x / 2 ^ 53"
proof -
  let ?e = "exponent x"
  have x: "0 < x" using assms by simp
  have "two_pow (- 10) \<le> x" using assms by (simp add: two_pow_def)
  then have "two_pow (- 10) < two_pow (?e + 1)" using exponent_bounds(2) [OF x] by linarith
  then have "- 1022 \<le> ?e" using two_pow_mono [of "?e + 1" "- 10"] by linarith
  then have u: "ulp x = two_pow (?e - 52)" by (simp add: ulp_def)
  have "two_pow ?e = 2 ^ 52 * two_pow (?e - 52)" using two_pow_add_nat [of "?e - 52" 52] by simp
  then have le: "2 ^ 52 * ulp x \<le> x" using exponent_bounds(1) [OF x] u by simp
  have "\<bar>of_int (round_even (x / ulp x)) - x / ulp x\<bar> * ulp x \<le> 1 / 2 * ulp x"
    by (rule mult_right_mono [OF round_even_error]) (simp add: less_imp_le)
  moreover have "\<bar>of_int (round_even (x / ulp x)) - x / ulp x\<bar> * ulp x = \<bar>rnd_pos x - x\<bar>"
  proof -
    have "\<bar>of_int (round_even (x / ulp x)) - x / ulp x\<bar> * ulp x
        = \<bar>(of_int (round_even (x / ulp x)) - x / ulp x) * ulp x\<bar>"
      by (simp add: abs_mult less_imp_le)
    also have "(of_int (round_even (x / ulp x)) - x / ulp x) * ulp x = rnd_pos x - x"
      using less_imp_neq [OF ulp_pos [of x]] by (simp add: left_diff_distrib rnd_pos_def)
    finally show ?thesis .
  qed
  ultimately have "\<bar>rnd_pos x - x\<bar> \<le> ulp x / 2" by simp
  moreover have "ulp x / 2 \<le> x / 2 ^ 53" using le by simp
  ultimately show ?thesis using x by (simp add: rnd64_def)
qed

lemma rnd64_near:
  assumes "1 / 1000 \<le> x"
  shows "rnd64 x \<le> x * (1 + 1 / 10 ^ 6)" "x * (1 - 1 / 10 ^ 6) \<le> rnd64 x"
proof -
  have "x / 2 ^ 53 \<le> x / 10 ^ 6" using assms by (intro divide_left_mono) auto
  with rnd64_error [OF assms] have "\<bar>rnd64 x - x\<bar> \<le> x / 10 ^ 6" by linarith
  then have "rnd64 x - x \<le> x / 10 ^ 6" "x - rnd64 x \<le> x / 10 ^ 6" by linarith+
  then show "rnd64 x \<le> x * (1 + 1 / 10 ^ 6)" "x * (1 - 1 / 10 ^ 6) \<le> rnd64 x" by (simp_all add: algebra_simps)
qed

section \<open>What callers rely on\<close>

locale float_rounding =
  fixes rnd :: "rat \<Rightarrow> rat"
  assumes mono: "x \<le> y \<Longrightarrow> rnd x \<le> rnd y"
    and exact: "\<bar>k\<bar> \<le> 2 ^ 53 \<Longrightarrow> rnd (of_int k) = of_int k"
begin

lemma at_least: "\<bar>k\<bar> \<le> 2 ^ 53 \<Longrightarrow> of_int k \<le> x \<Longrightarrow> of_int k \<le> rnd x"
  using mono [of "of_int k" x] exact [of k] by simp

lemma at_most: "\<bar>k\<bar> \<le> 2 ^ 53 \<Longrightarrow> x \<le> of_int k \<Longrightarrow> rnd x \<le> of_int k"
  using mono [of x "of_int k"] exact [of k] by simp

lemma nonneg: "0 \<le> x \<Longrightarrow> 0 \<le> rnd x"
  using at_least [of 0 x] by simp

lemma le_numeral: "x \<le> numeral n \<Longrightarrow> (numeral n :: int) \<le> 2 ^ 53 \<Longrightarrow> rnd x \<le> numeral n"
  using at_most [of "numeral n" x] by simp

lemma le_one: "x \<le> 1 \<Longrightarrow> rnd x \<le> 1"
  using at_most [of 1 x] by simp

lemma zero [simp]: "rnd 0 = 0"
  using exact [of 0] by simp

lemma one [simp]: "rnd 1 = 1"
  using exact [of 1] by simp

end

interpretation fl: float_rounding rnd64
  by unfold_locales (rule rnd64_mono, assumption, rule rnd64_int, assumption)

lemma trunc_nonneg: "0 \<le> q \<Longrightarrow> 0 \<le> trunc q"
  by (simp add: trunc_def)

lemma trunc_le: "0 \<le> q \<Longrightarrow> q \<le> of_int k \<Longrightarrow> trunc q \<le> k"
  by (simp add: trunc_def) (metis floor_mono floor_of_int)

section \<open>Time\<close>

text \<open>
  Package \<open>time\<close>: the zero instant is the first of January of year 1; \<open>Sub\<close> saturates at the
  \<open>Duration\<close> range (64 bits of nanoseconds); \<open>Seconds\<close> is a \<open>float64\<close>.
\<close>

definition second :: duration where "second = 1000000000"
definition minute :: duration where "minute = 60 * second"

definition zero_time :: time where "zero_time = - 62135596800 * 1000000000"

definition time_sub :: "time \<Rightarrow> time \<Rightarrow> duration" where
  "time_sub t u = max (- (2 ^ 63)) (min (2 ^ 63 - 1) (t - u))"

definition go_quot :: "int \<Rightarrow> int \<Rightarrow> int" where
  "go_quot a b = (if a < 0 then - ((- a) div b) else a div b)"

definition go_rem :: "int \<Rightarrow> int \<Rightarrow> int" where
  "go_rem a b = a - go_quot a b * b"

definition seconds :: "duration \<Rightarrow> rat" where
  "seconds d = fadd (of_int (go_quot d second)) (fdiv (of_int (go_rem d second)) 1000000000)"

definition int_seconds :: "duration \<Rightarrow> int" where
  "int_seconds d = trunc (seconds d)"

lemma int_seconds_bounds:
  assumes "0 \<le> d" "d < k * second" "k \<le> 2 ^ 53"
  shows "0 \<le> int_seconds d" "int_seconds d \<le> k"
proof -
  let ?s = "d div second" and ?n = "d mod second"
  have q: "go_quot d second = ?s" "go_rem d second = ?n"
    using assms by (auto simp: go_quot_def go_rem_def minus_div_mult_eq_mod)
  have n: "0 \<le> ?n" "?n < second" by (auto simp: second_def)
  have s: "0 \<le> ?s" using assms by (simp add: pos_imp_zdiv_nonneg_iff second_def)
  have "?s * second + ?n = d" by simp
  then have "?s * second < k * second" using n assms by linarith
  then have "?s < k" by (simp add: second_def)
  then have sk: "?s + 1 \<le> k" by simp
  have f: "0 \<le> fdiv (of_int ?n) 1000000000" "fdiv (of_int ?n) 1000000000 \<le> 1"
    using n unfolding fdiv_def by (auto intro!: fl.nonneg fl.le_one simp: second_def)
  have "of_int ?s + fdiv (of_int ?n) 1000000000 \<le> of_int k"
  proof -
    have "of_int (?s + 1) \<le> (of_int k :: rat)" using sk by (simp only: of_int_le_iff)
    then show ?thesis using f(2) by simp
  qed
  then have u: "seconds d \<le> of_int k"
    unfolding seconds_def fadd_def q using assms s sk by (intro fl.at_most) auto
  have l: "0 \<le> seconds d"
    unfolding seconds_def fadd_def q using s f by (intro fl.nonneg) auto
  show "0 \<le> int_seconds d" "int_seconds d \<le> k"
    using u l by (auto simp: int_seconds_def trunc_nonneg intro: trunc_le)
qed

end
