(* ===== verification/Entities.thy ===== *)
theory Entities
  imports Shared Float64
begin

text \<open>
  The other aggregates that several services read: applications
  (\<open>src/backend/internal/screening/domain/application.go\<close>), candidates (\<open>src/backend/internal/cv/domain\<close>),
  jobs and their candidate contexts (\<open>src/backend/internal/job/domain\<close>), company contexts and tenant prompts
  (\<open>src/backend/internal/context/domain\<close>), with their constructors and the checks on their content.
\<close>

section \<open>Applications and candidates\<close>

definition StatusScreening :: string where "StatusScreening = ''screening''"
definition StatusPassed :: string where "StatusPassed = ''passed''"
definition StatusRejected :: string where "StatusRejected = ''rejected''"

record Application =
  app_ID :: uuid
  app_CreatedAt :: time
  app_UpdatedAt :: time
  app_OrgID :: uuid
  app_CandidateID :: uuid
  app_JobID :: uuid
  app_CVScore :: "rat option"
  app_ScoreBreakdown :: string
  app_PassedScreening :: "bool option"
  app_Status :: string
  app_Stage :: "string option"
  app_RecruiterNotes :: "string option"
  app_InterviewScore :: "rat option"

definition NewApplication :: "uuid \<Rightarrow> time \<Rightarrow> uuid \<Rightarrow> uuid \<Rightarrow> uuid \<Rightarrow> Application" where
  "NewApplication newid now orgID candidateID jobID =
     \<lparr>app_ID = newid, app_CreatedAt = now, app_UpdatedAt = now, app_OrgID = orgID,
      app_CandidateID = candidateID, app_JobID = jobID, app_CVScore = None, app_ScoreBreakdown = [],
      app_PassedScreening = None, app_Status = StatusScreening, app_Stage = None,
      app_RecruiterNotes = None, app_InterviewScore = None\<rparr>"

definition cv_StatusNew :: string where "cv_StatusNew = ''new''"
definition cv_StatusParsing :: string where "cv_StatusParsing = ''parsing''"
definition cv_StatusParsed :: string where "cv_StatusParsed = ''parsed''"
definition cv_StatusExtracting :: string where "cv_StatusExtracting = ''extracting''"
definition cv_StatusExtracted :: string where "cv_StatusExtracted = ''extracted''"
definition cv_StatusPendingReview :: string where "cv_StatusPendingReview = ''pending_review''"
definition cv_StatusFailedOCR :: string where "cv_StatusFailedOCR = ''failed_ocr''"
definition cv_StatusFailedExtract :: string where "cv_StatusFailedExtract = ''failed_extract''"

record Candidate =
  cand_ID :: uuid
  cand_CreatedAt :: time
  cand_OrgID :: uuid
  cand_Name :: string
  cand_Email :: string
  cand_CVPath :: string
  cand_CVFormat :: string
  cand_CVRawText :: string
  cand_CVStructured :: string
  cand_CVOCRMethod :: string
  cand_Status :: string
  cand_ErrorMessage :: string
  cand_BatchID :: "uuid option"
  cand_ReviewToken :: "string option"

definition NewCandidate :: "uuid \<Rightarrow> time \<Rightarrow> uuid \<Rightarrow> string \<Rightarrow> string \<Rightarrow> Candidate result" where
  "NewCandidate newid now orgID name email =
     (if name = [] then Inl (DomainError ''CANDIDATE_NAME_REQUIRED'' ''candidate name is required'')
      else Inr \<lparr>cand_ID = newid, cand_CreatedAt = now, cand_OrgID = orgID, cand_Name = name,
        cand_Email = email, cand_CVPath = [], cand_CVFormat = [], cand_CVRawText = [],
        cand_CVStructured = [], cand_CVOCRMethod = [], cand_Status = cv_StatusNew,
        cand_ErrorMessage = [], cand_BatchID = None, cand_ReviewToken = None\<rparr>)"

section \<open>Jobs\<close>

definition job_StatusActive :: string where "job_StatusActive = ''active''"
definition job_StatusArchived :: string where "job_StatusArchived = ''archived''"

record Job =
  job_ID :: uuid
  job_CreatedAt :: time
  job_UpdatedAt :: time
  job_OrgID :: uuid
  job_Title :: string
  job_Description :: string
  job_Location :: string
  job_EmploymentType :: string
  job_SalaryMin :: "int option"
  job_SalaryMax :: "int option"
  job_Currency :: string
  job_RequiredSkills :: "string list"
  job_MinExperience :: int
  job_Responsibilities :: "string list"
  job_Requirements :: "string list"
  job_NiceToHaves :: "string list"
  job_Benefits :: "string list"
  job_ScoringWeights :: "(string \<times> rat) list option"
  job_MinScoreToProceed :: "rat option"
  job_Status :: string
  job_ProctoringMode :: string
  job_IsPublished :: bool
  job_Rubric :: string
  job_QuestionSetError :: string

definition ValidateJobFields :: "string \<Rightarrow> string \<Rightarrow> int \<Rightarrow> string \<Rightarrow> error option" where
  "ValidateJobFields title description minExperience status =
     (if title = [] then Some (DomainError ''JOB_TITLE_REQUIRED'' ''job title is required'')
      else if description = [] then Some (DomainError ''JOB_DESC_REQUIRED'' ''job description is required'')
      else if minExperience < 0
        then Some (DomainError ''JOB_EXP_INVALID'' ''min experience cannot be negative'')
      else if status \<noteq> [] \<and> status \<noteq> job_StatusActive \<and> status \<noteq> job_StatusArchived
        then Some (DomainError ''JOB_STATUS_INVALID'' ''job status must be active or archived'')
      else None)"

definition NewJob :: "uuid \<Rightarrow> time \<Rightarrow> uuid \<Rightarrow> string \<Rightarrow> string \<Rightarrow> string list \<Rightarrow> int \<Rightarrow> Job result" where
  "NewJob newid now orgID title description requiredSkills minExperience =
     (case ValidateJobFields title description minExperience job_StatusActive of
        Some e \<Rightarrow> Inl e
      | None \<Rightarrow> Inr \<lparr>job_ID = newid, job_CreatedAt = now, job_UpdatedAt = now, job_OrgID = orgID,
          job_Title = title, job_Description = description, job_Location = ''Remote'',
          job_EmploymentType = ''Full-time'', job_SalaryMin = None, job_SalaryMax = None,
          job_Currency = ''USD'', job_RequiredSkills = requiredSkills, job_MinExperience = minExperience,
          job_Responsibilities = [], job_Requirements = [], job_NiceToHaves = [], job_Benefits = [],
          job_ScoringWeights = None, job_MinScoreToProceed = None, job_Status = job_StatusActive,
          job_ProctoringMode = [], job_IsPublished = False, job_Rubric = [], job_QuestionSetError = []\<rparr>)"

definition weightDimensions :: "string list" where
  "weightDimensions = [''skills_match'', ''experience_years'', ''semantic_match'', ''education'', ''certifications'']"

definition validWeightName :: "string \<Rightarrow> bool" where
  "validWeightName k \<longleftrightarrow> k \<in> set weightDimensions"

text \<open>\<open>math.Round\<close>: half away from zero.\<close>

definition math_round :: "rat \<Rightarrow> int" where
  "math_round q = (if q < 0 then - \<lfloor>- q + 1 / 2\<rfloor> else \<lfloor>q + 1 / 2\<rfloor>)"

text \<open>
  \<open>Job.SetScoringWeights\<close>: the map is the list of its entries in iteration order, in which the sum is
  accumulated.
\<close>

definition weights_sum :: "(string \<times> rat) list \<Rightarrow> rat" where
  "weights_sum raw = foldl (\<lambda>s (k, v). fadd s v) 0 raw"

definition job_SetScoringWeights :: "(string \<times> rat) list \<Rightarrow> Job \<Rightarrow> Job result" where
  "job_SetScoringWeights raw job =
     (if raw = [] then Inr job
      else case find (\<lambda>(k, v). \<not> validWeightName k) raw of
        Some (k, v) \<Rightarrow> Inl (DomainError ''WEIGHTS_INVALID'' (''invalid scoring weight: '' @ k))
      | None \<Rightarrow>
        if \<not> list_all (\<lambda>dim. dim \<in> fst ` set raw) weightDimensions then
          Inl (DomainError ''WEIGHTS_INCOMPLETE''
            (''scoring_weights must include every dimension: '' @ join_with '', '' weightDimensions))
        else if list_ex (\<lambda>(k, v). v < 0 \<or> 1 < v) raw then
          Inl (DomainError ''WEIGHTS_INVALID'' ''invalid scoring weight: value out of range'')
        else
          (let scaled = math_round (fmul (weights_sum raw) 100) in
           if scaled < 100 - 1 \<or> 100 + 1 < scaled then
             Inl (DomainError ''WEIGHTS_SUM_INVALID'' (''scoring_weights must sum to 1.0 ('' @ [char_of (194::nat), char_of (177::nat)] @ ''0.01)''))
           else Inr (job\<lparr>job_ScoringWeights := Some raw\<rparr>)))"

section \<open>Contexts and prompts\<close>

definition TypeFile :: string where "TypeFile = ''file''"
definition TypeText :: string where "TypeText = ''text''"
definition ctx_ErrNotFound :: error where "ctx_ErrNotFound = Sentinel ''context not found''"

record CompanyContext =
  cc_ID :: uuid
  cc_CreatedAt :: time
  cc_OrgID :: uuid
  cc_Type :: string
  cc_ContentHash :: string
  cc_Version :: int
  cc_StoragePath :: string

definition NewCompanyContext ::
  "uuid \<Rightarrow> time \<Rightarrow> uuid \<Rightarrow> string \<Rightarrow> string \<Rightarrow> string \<Rightarrow> CompanyContext result" where
  "NewCompanyContext newid now orgID contentType contentHash storagePath =
     (if contentType \<noteq> TypeFile \<and> contentType \<noteq> TypeText
        then Inl (DomainError ''CTX_TYPE_INVALID'' ''context type must be file or text'')
      else if contentHash = [] then Inl (DomainError ''CTX_HASH_REQUIRED'' ''content hash is required'')
      else Inr \<lparr>cc_ID = newid, cc_CreatedAt = now, cc_OrgID = orgID, cc_Type = contentType,
        cc_ContentHash = contentHash, cc_Version = 1, cc_StoragePath = storagePath\<rparr>)"

record TenantPrompt =
  tp_OrgID :: uuid
  tp_SystemPrompt :: string
  tp_Version :: int
  tp_CreatedAt :: time

definition MaxPromptLength :: nat where "MaxPromptLength = 4000"

definition forbiddenPromptTokens :: "string list" where
  "forbiddenPromptTokens = [''ignore previous instructions'', ''ignore all instructions'', ''disregard previous'',
     ''disregard all'', ''jailbreak'', ''override your instructions'', ''override instructions'', ''you are now'',
     ''leak your system'', ''reveal your instructions'']"

definition ContainsInjection :: "string \<Rightarrow> bool" where
  "ContainsInjection content = list_ex (\<lambda>tok. contains (to_lower content) tok) forbiddenPromptTokens"

definition ValidatePrompt :: "string \<Rightarrow> error option" where
  "ValidatePrompt prompt =
     (if trim_space prompt = [] then Some (DomainError ''PROMPT_REQUIRED'' ''system prompt is required'')
      else if MaxPromptLength < length prompt
        then Some (DomainError ''PROMPT_TOO_LONG''
          (''system prompt exceeds '' @ itoa (int MaxPromptLength) @ '' characters''))
      else if ContainsInjection prompt
        then Some (DomainError ''PROMPT_INJECTION'' ''system prompt contains forbidden content'')
      else None)"

record CandidateContext =
  cx_JobID :: uuid
  cx_OrgID :: uuid
  cx_Content :: string
  cx_Version :: int
  cx_UpdatedAt :: time

definition MaxCandidateContextLength :: nat where "MaxCandidateContextLength = 4000"

definition ValidateCandidateContext :: "string \<Rightarrow> error option" where
  "ValidateCandidateContext content =
     (if trim_space content = []
        then Some (DomainError ''CANDIDATE_CONTEXT_REQUIRED'' ''candidate context content is required'')
      else if MaxCandidateContextLength < length content
        then Some (DomainError ''CANDIDATE_CONTEXT_TOO_LONG'' ''candidate context exceeds max length'')
      else if ContainsInjection content
        then Some (DomainError ''CANDIDATE_CONTEXT_INJECTION'' ''candidate context contains forbidden content'')
      else None)"

definition NewCandidateContext :: "uuid \<Rightarrow> uuid \<Rightarrow> string \<Rightarrow> time \<Rightarrow> CandidateContext result" where
  "NewCandidateContext orgID jobID content now = (case ValidateCandidateContext content of
     Some e \<Rightarrow> Inl e
   | None \<Rightarrow> Inr \<lparr>cx_JobID = jobID, cx_OrgID = orgID, cx_Content = trim_space content, cx_Version = 1,
       cx_UpdatedAt = now\<rparr>)"

definition job_ErrNotFound :: error where "job_ErrNotFound = Sentinel ''job not found''"
definition app_ErrNotFound :: error where "app_ErrNotFound = Sentinel ''application not found''"
definition cand_ErrNotFound :: error where "cand_ErrNotFound = Sentinel ''candidate not found''"

end
