(* ===== verification/Repositories.thy ===== *)
theory Repositories
  imports Sql Entities
begin

text \<open>
  The tables of jobs, candidates, applications and contexts, and their PostgreSQL repositories:
  \<open>job/infrastructure/persistence/postgres_job_repo.go\<close> and \<open>postgres_candidate_context_repo.go\<close>,
  \<open>cv/infrastructure/persistence/postgres_candidate_repo.go\<close>,
  \<open>screening/infrastructure/persistence/postgres_application_repo.go\<close>,
  \<open>context/infrastructure/persistence/postgres_context_repo.go\<close> (all under \<open>src/backend/internal\<close>), with the
  constraints and row-level security policies of \<open>src/backend/pkg/db/migrations\<close>.

  A row is the aggregate it hydrates; a JSONB column holds the value its encoding round-trips. The column
  \<open>jobs.question_set\<close>, which no aggregate carries, is the association list \<open>t_question_sets\<close>. \<open>dbnow\<close> is the
  value of \<open>NOW()\<close>. The record can be extended: the services that own further tables do.
\<close>

section \<open>Tables\<close>

record core_tables =
  t_jobs :: "Job list"
  t_question_sets :: "(uuid \<times> string) list"
  t_candidates :: "Candidate list"
  t_applications :: "Application list"
  t_contexts :: "CompanyContext list"
  t_prompts :: "TenantPrompt list"
  t_job_contexts :: "CandidateContext list"

type_synonym ('m, 'h) core_db = "('m core_tables_scheme, 'h) db"

text \<open>The tenant policies: \<open>org_id = current_setting('app.org_id')\<close>.\<close>

definition sees_job :: "uuid option \<Rightarrow> Job \<Rightarrow> bool" where "sees_job t x \<longleftrightarrow> t = Some (job_OrgID x)"
definition sees_cand :: "uuid option \<Rightarrow> Candidate \<Rightarrow> bool" where "sees_cand t x \<longleftrightarrow> t = Some (cand_OrgID x)"
definition sees_app :: "uuid option \<Rightarrow> Application \<Rightarrow> bool" where "sees_app t x \<longleftrightarrow> t = Some (app_OrgID x)"
definition sees_ctx :: "uuid option \<Rightarrow> CompanyContext \<Rightarrow> bool" where "sees_ctx t x \<longleftrightarrow> t = Some (cc_OrgID x)"
definition sees_prompt :: "uuid option \<Rightarrow> TenantPrompt \<Rightarrow> bool" where "sees_prompt t x \<longleftrightarrow> t = Some (tp_OrgID x)"
definition sees_jobctx :: "uuid option \<Rightarrow> CandidateContext \<Rightarrow> bool" where "sees_jobctx t x \<longleftrightarrow> t = Some (cx_OrgID x)"

lemmas sees_defs = sees_job_def sees_cand_def sees_app_def sees_ctx_def sees_prompt_def sees_jobctx_def

text \<open>\<open>ORDER BY key DESC\<close> on rows kept in insertion order.\<close>

definition newest_first :: "('a \<Rightarrow> int) \<Rightarrow> 'a list \<Rightarrow> 'a list" where
  "newest_first key xs = sort_key (\<lambda>x. - key x) xs"

definition first_row :: "'a list \<Rightarrow> 'a option" where
  "first_row xs = (case xs of [] \<Rightarrow> None | x # _ \<Rightarrow> Some x)"

section \<open>Jobs\<close>

definition job_Create :: "Job \<Rightarrow> (('m, 'h) core_db, unit) op" where
  "job_Create j = insert_row
     (\<lambda>t r. if \<not> sees_job t j then Some ErrRLS
        else if job_ID j \<in> job_ID ` set (t_jobs r) then Some (unique_violation ''jobs_pkey'') else None)
     (t_jobs_update (\<lambda>xs. xs @ [j\<lparr>job_UpdatedAt := job_CreatedAt j\<rparr>]))"

text \<open>\<open>GetByIDForUpdate\<close> is the same read, which also takes the row lock for the rest of the transaction.\<close>

definition job_GetByID :: "uuid \<Rightarrow> (('m, 'h) core_db, Job) op" where
  "job_GetByID key = query_row job_ErrNotFound (\<lambda>t r. find (\<lambda>x. job_ID x = key \<and> sees_job t x) (t_jobs r))"

definition job_GetByIDForUpdate :: "uuid \<Rightarrow> (('m, 'h) core_db, Job) op" where
  "job_GetByIDForUpdate key = query_row job_ErrNotFound (\<lambda>t r. find (\<lambda>x. job_ID x = key \<and> sees_job t x) (t_jobs r))"

definition job_list :: "uuid \<Rightarrow> (Job \<Rightarrow> bool) \<Rightarrow> (('m, 'h) core_db, Job list) op" where
  "job_list orgID extra = query (\<lambda>t r.
     sort_key job_CreatedAt (filter (\<lambda>x. job_OrgID x = orgID \<and> extra x \<and> sees_job t x) (t_jobs r)))"

definition job_List :: "uuid \<Rightarrow> (('m, 'h) core_db, Job list) op" where
  "job_List orgID = job_list orgID (\<lambda>_. True)"

definition job_ListActive :: "uuid \<Rightarrow> (('m, 'h) core_db, Job list) op" where
  "job_ListActive orgID = job_list orgID (\<lambda>x. job_Status x = job_StatusActive)"

text \<open>
  The columns that \<open>Update\<close> writes; identity, owner, creation time and \<open>question_set_error\<close> stay. The
  statement returns the new \<open>updated_at\<close>, which \<open>Scan\<close> puts on the aggregate: no row is an error.
\<close>

definition job_columns :: "time \<Rightarrow> Job \<Rightarrow> Job \<Rightarrow> Job" where
  "job_columns dbnow j x = x\<lparr>job_UpdatedAt := dbnow, job_Title := job_Title j, job_Description := job_Description j,
     job_Location := job_Location j, job_EmploymentType := job_EmploymentType j, job_SalaryMin := job_SalaryMin j,
     job_SalaryMax := job_SalaryMax j, job_Currency := job_Currency j, job_RequiredSkills := job_RequiredSkills j,
     job_MinExperience := job_MinExperience j, job_Responsibilities := job_Responsibilities j,
     job_Requirements := job_Requirements j, job_NiceToHaves := job_NiceToHaves j, job_Benefits := job_Benefits j,
     job_ScoringWeights := job_ScoringWeights j, job_MinScoreToProceed := job_MinScoreToProceed j,
     job_Status := job_Status j, job_ProctoringMode := job_ProctoringMode j, job_IsPublished := job_IsPublished j,
     job_Rubric := job_Rubric j\<rparr>"

definition job_Update :: "time \<Rightarrow> Job \<Rightarrow> (('m, 'h) core_db, Job) op" where
  "job_Update dbnow j = bindE
     (update_rows t_jobs t_jobs_update (\<lambda>t r x. job_ID x = job_ID j \<and> sees_job t x) (job_columns dbnow j))
     (\<lambda>n. bindE (fail_if (n = 0) ErrNoRows) (\<lambda>_. ret (j\<lparr>job_UpdatedAt := dbnow\<rparr>)))"

definition job_UpdateRubric :: "time \<Rightarrow> uuid \<Rightarrow> string \<Rightarrow> (('m, 'h) core_db, unit) op" where
  "job_UpdateRubric dbnow key rubric = unit_of
     (update_rows t_jobs t_jobs_update (\<lambda>t r x. job_ID x = key \<and> sees_job t x)
        (\<lambda>x. x\<lparr>job_Rubric := rubric, job_UpdatedAt := dbnow\<rparr>))"

text \<open>A map from identities to jobs, as the list of the rows found.\<close>

definition job_ListByIDs :: "uuid \<Rightarrow> uuid list \<Rightarrow> (('m, 'h) core_db, Job list) op" where
  "job_ListByIDs orgID ids = (\<lambda>d. if \<not> in_tx d then (Inl ErrNoTx, d) else if ids = [] then (Inr [], d)
     else query (\<lambda>t r. filter (\<lambda>x. job_OrgID x = orgID \<and> job_ID x \<in> set ids \<and> sees_job t x) (t_jobs r)) d)"

text \<open>\<open>LoadQuestionSet\<close>; a NULL column is the empty payload.\<close>

definition LoadQuestionSet :: "uuid \<Rightarrow> (('m, 'h) core_db, string) op" where
  "LoadQuestionSet key = query_row job_ErrNotFound (\<lambda>t r.
     case find (\<lambda>x. job_ID x = key \<and> sees_job t x) (t_jobs r) of None \<Rightarrow> None
     | Some x \<Rightarrow> Some (case map_of (t_question_sets r) key of None \<Rightarrow> [] | Some raw \<Rightarrow> raw))"

definition LoadQuestionSetError :: "uuid \<Rightarrow> (('m, 'h) core_db, string) op" where
  "LoadQuestionSetError key = query_row job_ErrNotFound (\<lambda>t r.
     case find (\<lambda>x. job_ID x = key \<and> sees_job t x) (t_jobs r) of None \<Rightarrow> None
     | Some x \<Rightarrow> Some (job_QuestionSetError x))"

section \<open>Candidate contexts of jobs\<close>

definition jobctx_Upsert :: "time \<Rightarrow> CandidateContext \<Rightarrow> (('m, 'h) core_db, CandidateContext) op" where
  "jobctx_Upsert dbnow c = exec (\<lambda>t r.
     if \<not> sees_jobctx t c then Inl ErrRLS
     else if cx_JobID c \<notin> job_ID ` set (t_jobs r)
       then Inl (foreign_key_violation ''job_candidate_contexts_job_id_fkey'')
     else (case find (\<lambda>x. cx_JobID x = cx_JobID c) (t_job_contexts r) of
         None \<Rightarrow> (let x = c\<lparr>cx_Version := 1, cx_UpdatedAt := dbnow\<rparr>
           in Inr (x, t_job_contexts_update (\<lambda>xs. xs @ [x]) r))
       | Some old \<Rightarrow>
           if \<not> sees_jobctx t old then Inl ErrRLS
           else (let x = c\<lparr>cx_Version := cx_Version old + 1, cx_UpdatedAt := dbnow\<rparr>
             in Inr (x, t_job_contexts_update (map_hits (\<lambda>y. cx_JobID y = cx_JobID c \<and> sees_jobctx t y) (\<lambda>_. x)) r))))"

definition jobctx_GetByJobID :: "uuid \<Rightarrow> (('m, 'h) core_db, CandidateContext) op" where
  "jobctx_GetByJobID key = query_row job_ErrNotFound
     (\<lambda>t r. find (\<lambda>x. cx_JobID x = key \<and> sees_jobctx t x) (t_job_contexts r))"

section \<open>Candidates\<close>

definition cand_Create :: "Candidate \<Rightarrow> (('m, 'h) core_db, unit) op" where
  "cand_Create c = wrapped (insert_row
     (\<lambda>t r. if \<not> sees_cand t c then Some ErrRLS
        else if cand_ID c \<in> cand_ID ` set (t_candidates r) then Some (unique_violation ''candidates_pkey'')
        else if cand_ReviewToken c \<noteq> None \<and> cand_ReviewToken c \<in> cand_ReviewToken ` set (t_candidates r)
          then Some (unique_violation ''candidates_review_token_key'')
        else None)
     (t_candidates_update (\<lambda>xs. xs @ [c\<lparr>
        cand_CVFormat := (if cand_CVFormat c = [] then ''pdf'' else cand_CVFormat c), cand_CVRawText := [],
        cand_CVStructured := [], cand_CVOCRMethod := [], cand_ErrorMessage := []\<rparr>])))"

definition cand_GetByID :: "uuid \<Rightarrow> (('m, 'h) core_db, Candidate) op" where
  "cand_GetByID key = query_row cand_ErrNotFound
     (\<lambda>t r. find (\<lambda>x. cand_ID x = key \<and> sees_cand t x) (t_candidates r))"

definition cand_List :: "uuid \<Rightarrow> (('m, 'h) core_db, Candidate list) op" where
  "cand_List orgID = query (\<lambda>t r. newest_first cand_CreatedAt
     (filter (\<lambda>x. cand_OrgID x = orgID \<and> sees_cand t x) (t_candidates r)))"

definition cand_columns :: "Candidate \<Rightarrow> Candidate \<Rightarrow> Candidate" where
  "cand_columns c x = x\<lparr>cand_Name := cand_Name c, cand_Email := cand_Email c, cand_CVPath := cand_CVPath c,
     cand_CVFormat := cand_CVFormat c, cand_CVRawText := cand_CVRawText c, cand_CVStructured := cand_CVStructured c,
     cand_CVOCRMethod := cand_CVOCRMethod c, cand_Status := cand_Status c, cand_ErrorMessage := cand_ErrorMessage c,
     cand_BatchID := cand_BatchID c, cand_ReviewToken := cand_ReviewToken c\<rparr>"

definition cand_Update :: "Candidate \<Rightarrow> (('m, 'h) core_db, unit) op" where
  "cand_Update c = wrapped (unit_of
     (update_rows t_candidates t_candidates_update (\<lambda>t r x. cand_ID x = cand_ID c \<and> sees_cand t x) (cand_columns c)))"

text \<open>An application keeps its candidate (the foreign key has no cascade).\<close>

definition cand_Delete :: "uuid \<Rightarrow> (('m, 'h) core_db, unit) op" where
  "cand_Delete key = wrapped (exec (\<lambda>t r.
     if list_ex (\<lambda>x. cand_ID x = key \<and> sees_cand t x) (t_candidates r)
        \<and> list_ex (\<lambda>a. app_CandidateID a = key) (t_applications r)
     then Inl (foreign_key_violation ''applications_candidate_id_fkey'')
     else Inr ((), t_candidates_update (filter (\<lambda>x. \<not> (cand_ID x = key \<and> sees_cand t x))) r)))"

text \<open>The batched fetch hydrates the identity and list columns only.\<close>

definition cand_identity :: "Candidate \<Rightarrow> Candidate" where
  "cand_identity x = x\<lparr>cand_CVFormat := [], cand_CVRawText := [], cand_CVStructured := [], cand_CVOCRMethod := [],
     cand_ErrorMessage := [], cand_BatchID := None, cand_ReviewToken := None\<rparr>"

definition cand_ListByIDs :: "uuid \<Rightarrow> uuid list \<Rightarrow> (('m, 'h) core_db, Candidate list) op" where
  "cand_ListByIDs orgID ids = (\<lambda>d. if \<not> in_tx d then (Inl ErrNoTx, d) else if ids = [] then (Inr [], d)
     else query (\<lambda>t r. map cand_identity
       (filter (\<lambda>x. cand_OrgID x = orgID \<and> cand_ID x \<in> set ids \<and> sees_cand t x) (t_candidates r))) d)"

section \<open>Applications\<close>

definition app_ErrExists :: error where "app_ErrExists = Sentinel ''application already exists''"

definition app_violated :: "Application \<Rightarrow> uuid option \<Rightarrow> 'm core_tables_scheme \<Rightarrow> error option" where
  "app_violated a t r =
     (if \<not> sees_app t a then Some ErrRLS
      else if app_ID a \<in> app_ID ` set (t_applications r) then Some (unique_violation ''applications_pkey'')
      else if app_CandidateID a \<notin> cand_ID ` set (t_candidates r)
        then Some (foreign_key_violation ''applications_candidate_id_fkey'')
      else if app_JobID a \<notin> job_ID ` set (t_jobs r) then Some (foreign_key_violation ''applications_job_id_fkey'')
      else if (app_CandidateID a, app_JobID a) \<in> (\<lambda>x. (app_CandidateID x, app_JobID x)) ` set (t_applications r)
        then Some (unique_violation ''applications_candidate_job_key'')
      else None)"

definition stage_applied :: string where "stage_applied = ''applied''"

definition app_Create :: "Application \<Rightarrow> (('m, 'h) core_db, unit) op" where
  "app_Create a = map_error
     (\<lambda>e. case as_pg e of Some (code, _) \<Rightarrow> if code = ''23505'' then app_ErrExists else e | None \<Rightarrow> e)
     (insert_row (app_violated a) (t_applications_update (\<lambda>xs. xs @ [a\<lparr>app_CVScore := None, app_ScoreBreakdown := [],
        app_PassedScreening := None, app_Stage := Some stage_applied, app_RecruiterNotes := None\<rparr>])))"

definition app_GetByID :: "uuid \<Rightarrow> (('m, 'h) core_db, Application) op" where
  "app_GetByID key = query_row app_ErrNotFound
     (\<lambda>t r. find (\<lambda>x. app_ID x = key \<and> sees_app t x) (t_applications r))"

definition app_GetByCandidateJob :: "uuid \<Rightarrow> uuid \<Rightarrow> uuid \<Rightarrow> (('m, 'h) core_db, Application) op" where
  "app_GetByCandidateJob orgID candidateID jobID = query_row app_ErrNotFound
     (\<lambda>t r. find (\<lambda>x. app_OrgID x = orgID \<and> app_CandidateID x = candidateID \<and> app_JobID x = jobID \<and> sees_app t x)
        (t_applications r))"

definition app_ByCandidate :: "uuid \<Rightarrow> uuid \<Rightarrow> (('m, 'h) core_db, Application list) op" where
  "app_ByCandidate orgID candidateID = query (\<lambda>t r. newest_first app_CreatedAt
     (filter (\<lambda>x. app_OrgID x = orgID \<and> app_CandidateID x = candidateID \<and> sees_app t x) (t_applications r)))"

definition app_columns :: "time \<Rightarrow> Application \<Rightarrow> Application \<Rightarrow> Application" where
  "app_columns dbnow a x = x\<lparr>app_CVScore := app_CVScore a, app_ScoreBreakdown := app_ScoreBreakdown a,
     app_PassedScreening := app_PassedScreening a, app_Status := app_Status a, app_UpdatedAt := dbnow\<rparr>"

definition app_Update :: "time \<Rightarrow> Application \<Rightarrow> (('m, 'h) core_db, unit) op" where
  "app_Update dbnow a = unit_of
     (update_rows t_applications t_applications_update (\<lambda>t r x. app_ID x = app_ID a \<and> sees_app t x)
        (app_columns dbnow a))"

definition coalesce :: "'a option \<Rightarrow> 'a option \<Rightarrow> 'a option" where
  "coalesce new old = (case new of None \<Rightarrow> old | Some x \<Rightarrow> Some x)"

definition app_UpdateDecision ::
  "time \<Rightarrow> uuid \<Rightarrow> uuid \<Rightarrow> string option \<Rightarrow> string option \<Rightarrow> (('m, 'h) core_db, unit) op" where
  "app_UpdateDecision dbnow orgID key stage notes = bindE
     (update_rows t_applications t_applications_update
        (\<lambda>t r x. app_ID x = key \<and> app_OrgID x = orgID \<and> sees_app t x)
        (\<lambda>x. x\<lparr>app_Stage := coalesce stage (app_Stage x), app_RecruiterNotes := coalesce notes (app_RecruiterNotes x),
               app_UpdatedAt := dbnow\<rparr>))
     (\<lambda>n. fail_if (n = 0) app_ErrNotFound)"

definition CountRecentByCandidateEmail :: "uuid \<Rightarrow> string \<Rightarrow> time \<Rightarrow> (('m, 'h) core_db, nat) op" where
  "CountRecentByCandidateEmail orgID email since = query (\<lambda>t r. length (filter
     (\<lambda>a. app_OrgID a = orgID \<and> since < app_CreatedAt a \<and> sees_app t a \<and>
        list_ex (\<lambda>c. cand_ID c = app_CandidateID a \<and> sees_cand t c \<and> to_lower (cand_Email c) = to_lower email)
          (t_candidates r))
     (t_applications r)))"

definition app_ListByIDs :: "uuid \<Rightarrow> uuid list \<Rightarrow> (('m, 'h) core_db, Application list) op" where
  "app_ListByIDs orgID ids = (\<lambda>d. if \<not> in_tx d then (Inl ErrNoTx, d) else if ids = [] then (Inr [], d)
     else query (\<lambda>t r. filter (\<lambda>x. app_OrgID x = orgID \<and> app_ID x \<in> set ids \<and> sees_app t x) (t_applications r)) d)"

text \<open>
  \<open>ApplyWithDedupe\<close>, under the advisory lock of the organization and e-mail. \<open>link\<close> is its upsert of the
  application: the row of the pair (candidate, job) is created once, a later call only touches it.
\<close>

definition link_violated :: "uuid \<Rightarrow> uuid \<Rightarrow> uuid \<Rightarrow> uuid \<Rightarrow> uuid option \<Rightarrow> 'm core_tables_scheme \<Rightarrow> error option" where
  "link_violated newid orgID candID jobID t r =
     (if t \<noteq> Some orgID then Some ErrRLS
      else if newid \<in> app_ID ` set (t_applications r) then Some (unique_violation ''applications_pkey'')
      else if candID \<notin> cand_ID ` set (t_candidates r)
        then Some (foreign_key_violation ''applications_candidate_id_fkey'')
      else if jobID \<notin> job_ID ` set (t_jobs r) then Some (foreign_key_violation ''applications_job_id_fkey'')
      else None)"

definition new_link :: "time \<Rightarrow> uuid \<Rightarrow> uuid \<Rightarrow> uuid \<Rightarrow> uuid \<Rightarrow> Application" where
  "new_link dbnow newid orgID candID jobID =
     (NewApplication newid dbnow orgID candID jobID)\<lparr>app_Stage := Some stage_applied\<rparr>"

definition link :: "time \<Rightarrow> uuid \<Rightarrow> uuid \<Rightarrow> uuid \<Rightarrow> uuid \<Rightarrow> (('m, 'h) core_db, unit) op" where
  "link dbnow newid orgID candID jobID = exec (\<lambda>t r.
     case link_violated newid orgID candID jobID t r of Some e \<Rightarrow> Inl e
     | None \<Rightarrow>
         (let hit = (\<lambda>x. app_CandidateID x = candID \<and> app_JobID x = jobID) in
          if list_ex hit (t_applications r) then
            if list_ex (\<lambda>x. hit x \<and> \<not> sees_app t x) (t_applications r) then Inl ErrRLS
            else Inr ((), t_applications_update (map_hits hit (\<lambda>x. x\<lparr>app_UpdatedAt := dbnow\<rparr>)) r)
          else Inr ((), t_applications_update (\<lambda>xs. xs @ [new_link dbnow newid orgID candID jobID]) r)))"

definition candidate_by_email :: "uuid \<Rightarrow> string \<Rightarrow> uuid option \<Rightarrow> 'm core_tables_scheme \<Rightarrow> Candidate option" where
  "candidate_by_email orgID email t r = first_row (sort_key cand_CreatedAt
     (filter (\<lambda>x. cand_OrgID x = orgID \<and> to_lower (cand_Email x) = email \<and> sees_cand t x) (t_candidates r)))"

definition new_candidate_row :: "time \<Rightarrow> uuid \<Rightarrow> uuid \<Rightarrow> string \<Rightarrow> string \<Rightarrow> Candidate" where
  "new_candidate_row dbnow candID orgID name email =
     \<lparr>cand_ID = candID, cand_CreatedAt = dbnow, cand_OrgID = orgID, cand_Name = name, cand_Email = email,
      cand_CVPath = ''cvs/'' @ orgID @ ''/'' @ candID @ ''.pdf'', cand_CVFormat = ''pdf'', cand_CVRawText = [],
      cand_CVStructured = [], cand_CVOCRMethod = [], cand_Status = cv_StatusParsing, cand_ErrorMessage = [],
      cand_BatchID = None, cand_ReviewToken = None\<rparr>"

definition insert_candidate :: "time \<Rightarrow> uuid \<Rightarrow> uuid \<Rightarrow> string \<Rightarrow> string \<Rightarrow> (('m, 'h) core_db, unit) op" where
  "insert_candidate dbnow newcand orgID name email = insert_row
     (\<lambda>t r. if t \<noteq> Some orgID then Some ErrRLS
        else if newcand \<in> cand_ID ` set (t_candidates r) then Some (unique_violation ''candidates_pkey'')
        else None)
     (t_candidates_update (\<lambda>xs. xs @ [new_candidate_row dbnow newcand orgID name email]))"

definition ApplyWithDedupe ::
  "time \<Rightarrow> uuid \<Rightarrow> uuid \<Rightarrow> uuid \<Rightarrow> uuid \<Rightarrow> string \<Rightarrow> string \<Rightarrow> (('m, 'h) core_db, uuid \<times> bool) op" where
  "ApplyWithDedupe dbnow newcand newapp orgID jobID name email0 =
     (let email = to_lower email0 in
      bindE (query (\<lambda>t r. ())) (\<lambda>_.
      bindE (query (candidate_by_email orgID email)) (\<lambda>found. case found of
        Some c \<Rightarrow> bindE (link dbnow newapp orgID (cand_ID c) jobID) (\<lambda>_. ret (cand_ID c, False))
      | None \<Rightarrow>
          bindE (insert_candidate dbnow newcand orgID name email) (\<lambda>_.
          bindE (link dbnow newapp orgID newcand jobID) (\<lambda>_. ret (newcand, True))))))"

section \<open>Company contexts and tenant prompts\<close>

definition ctx_CreateContext :: "CompanyContext \<Rightarrow> (('m, 'h) core_db, unit) op" where
  "ctx_CreateContext c = insert_row
     (\<lambda>t r. if \<not> sees_ctx t c then Some ErrRLS
        else if cc_ID c \<in> cc_ID ` set (t_contexts r) then Some (unique_violation ''company_contexts_pkey'')
        else if (cc_OrgID c, cc_Version c) \<in> (\<lambda>x. (cc_OrgID x, cc_Version x)) ` set (t_contexts r)
          then Some (unique_violation ''company_contexts_org_id_version_key'')
        else None)
     (t_contexts_update (\<lambda>xs. xs @ [c]))"

definition ctx_GetContextByHash :: "uuid \<Rightarrow> string \<Rightarrow> (('m, 'h) core_db, CompanyContext) op" where
  "ctx_GetContextByHash orgID hash = query_row ctx_ErrNotFound (\<lambda>t r. first_row (newest_first cc_Version
     (filter (\<lambda>x. cc_OrgID x = orgID \<and> cc_ContentHash x = hash \<and> sees_ctx t x) (t_contexts r))))"

definition ctx_GetContextByID :: "uuid \<Rightarrow> (('m, 'h) core_db, CompanyContext) op" where
  "ctx_GetContextByID key = query_row ctx_ErrNotFound
     (\<lambda>t r. find (\<lambda>x. cc_ID x = key \<and> sees_ctx t x) (t_contexts r))"

definition ctx_ListContexts :: "uuid \<Rightarrow> (('m, 'h) core_db, CompanyContext list) op" where
  "ctx_ListContexts orgID = query (\<lambda>t r. newest_first cc_Version
     (filter (\<lambda>x. cc_OrgID x = orgID \<and> sees_ctx t x) (t_contexts r)))"

definition ctx_SetPrompt :: "time \<Rightarrow> TenantPrompt \<Rightarrow> (('m, 'h) core_db, unit) op" where
  "ctx_SetPrompt dbnow p = insert_row
     (\<lambda>t r. if \<not> sees_prompt t p then Some ErrRLS
        else if (tp_OrgID p, tp_Version p) \<in> (\<lambda>x. (tp_OrgID x, tp_Version x)) ` set (t_prompts r)
          then Some (unique_violation ''tenant_prompts_org_id_version_key'')
        else None)
     (t_prompts_update (\<lambda>xs. xs @ [p\<lparr>tp_CreatedAt := dbnow\<rparr>]))"

definition ctx_GetLatestPrompt :: "uuid \<Rightarrow> (('m, 'h) core_db, TenantPrompt) op" where
  "ctx_GetLatestPrompt orgID = query_row ctx_ErrNotFound (\<lambda>t r. first_row (newest_first tp_Version
     (filter (\<lambda>x. tp_OrgID x = orgID \<and> sees_prompt t x) (t_prompts r))))"

definition ctx_DeleteContext :: "uuid \<Rightarrow> uuid \<Rightarrow> (('m, 'h) core_db, unit) op" where
  "ctx_DeleteContext orgID key = delete_rows t_contexts_update
     (\<lambda>t r x. cc_ID x = key \<and> cc_OrgID x = orgID \<and> sees_ctx t x)"

section \<open>Tenant isolation\<close>

text \<open>The rows a tenant cannot see.\<close>

definition hidden_core :: "uuid option \<Rightarrow> 'm core_tables_scheme
    \<Rightarrow> Job list \<times> Candidate list \<times> Application list \<times> CompanyContext list \<times> TenantPrompt list \<times> CandidateContext list" where
  "hidden_core t r = (filter (\<lambda>x. \<not> sees_job t x) (t_jobs r), filter (\<lambda>x. \<not> sees_cand t x) (t_candidates r),
     filter (\<lambda>x. \<not> sees_app t x) (t_applications r), filter (\<lambda>x. \<not> sees_ctx t x) (t_contexts r),
     filter (\<lambda>x. \<not> sees_prompt t x) (t_prompts r), filter (\<lambda>x. \<not> sees_jobctx t x) (t_job_contexts r))"

lemma confines_guarded [confine_intros]:
  "confines H m \<Longrightarrow> confines H (\<lambda>d. if \<not> in_tx d then (Inl e, d) else if c then (Inr a, d) else m d)"
proof (cases c)
  case True
  show ?thesis by (rule confinesI) (simp add: True)
next
  case False
  assume m: "confines H m"
  show ?thesis
  proof (rule confinesI)
    fix d r d' assume d: "in_tx d" "(if \<not> in_tx d then (Inl e, d) else if c then (Inr a, d) else m d) = (r, d')"
    then have "m d = (r, d')" by (simp only: False if_False not_True_eq_False simp_thms)
    from confinesD [OF m d(1) this]
    show "in_tx d' \<and> tenant d' = tenant d \<and> H (tenant d) (tables d') = H (tenant d) (tables d)" .
  qed
qed

lemma job_stamp [simp]: "sees_job t (j\<lparr>job_UpdatedAt := x\<rparr>) = sees_job t j"
  by (simp add: sees_job_def)

lemma confines_job_Create [confine_intros]: "confines hidden_core (job_Create j)"
  unfolding job_Create_def
  by (rule confines_insert_row) (simp add: hidden_core_def split: if_splits)

lemma filter_hits:
  assumes "\<And>x. x \<in> set xs \<Longrightarrow> hit x \<Longrightarrow> v x" "\<And>x. v (f x) = v x"
  shows "filter (\<lambda>x. \<not> v x) (map_hits hit f xs) = filter (\<lambda>x. \<not> v x) xs"
  using assms by (induction xs) (auto simp: map_hits_def)

lemma hidden_hits:
  assumes "\<And>x. job_OrgID (f x) = job_OrgID x"
  shows "hidden_core t (t_jobs_update (map_hits (\<lambda>x. P x \<and> sees_job t x) f) r) = hidden_core t r"
proof -
  have "filter (\<lambda>x. \<not> sees_job t x) (map_hits (\<lambda>x. P x \<and> sees_job t x) f (t_jobs r))
      = filter (\<lambda>x. \<not> sees_job t x) (t_jobs r)"
    by (rule filter_hits) (simp_all add: sees_job_def assms)
  then show ?thesis by (simp add: hidden_core_def)
qed

lemma hidden_hits_cand:
  assumes "\<And>x. cand_OrgID (f x) = cand_OrgID x"
  shows "hidden_core t (t_candidates_update (map_hits (\<lambda>x. P x \<and> sees_cand t x) f) r) = hidden_core t r"
proof -
  have "filter (\<lambda>x. \<not> sees_cand t x) (map_hits (\<lambda>x. P x \<and> sees_cand t x) f (t_candidates r))
      = filter (\<lambda>x. \<not> sees_cand t x) (t_candidates r)"
    by (rule filter_hits) (simp_all add: sees_cand_def assms)
  then show ?thesis by (simp add: hidden_core_def)
qed

lemma hidden_hits_app:
  "(\<And>x. app_OrgID (f x) = app_OrgID x) \<Longrightarrow> (\<And>x. x \<in> set (t_applications r) \<Longrightarrow> P x \<Longrightarrow> sees_app t x) \<Longrightarrow>
   hidden_core t (t_applications_update (map_hits P f) r) = hidden_core t r"
  by (simp add: hidden_core_def filter_hits sees_app_def)

lemma confines_job_Update [confine_intros]: "confines hidden_core (job_Update dbnow j)"
  unfolding job_Update_def
  by (intro confine_intros confines_update_rows hidden_hits) (simp add: job_columns_def)

lemma confines_job_UpdateRubric [confine_intros]: "confines hidden_core (job_UpdateRubric dbnow k rb)"
  unfolding job_UpdateRubric_def
  by (intro confine_intros confines_update_rows hidden_hits) simp

lemma confines_jobctx_Upsert [confine_intros]: "confines hidden_core (jobctx_Upsert dbnow c)"
  unfolding jobctx_Upsert_def
proof (rule confines_exec, goal_cases)
  case (1 t r a r')
  then show ?case
  proof (cases "find (\<lambda>x. cx_JobID x = cx_JobID c) (t_job_contexts r)")
    case None
    with 1 show ?thesis by (auto simp: hidden_core_def sees_jobctx_def Let_def split: if_splits)
  next
    case (Some old)
    with 1 have s: "sees_jobctx t c" and
      r': "r' = t_job_contexts_update (map_hits (\<lambda>y. cx_JobID y = cx_JobID c \<and> sees_jobctx t y)
         (\<lambda>_. c\<lparr>cx_Version := cx_Version old + 1, cx_UpdatedAt := dbnow\<rparr>)) r"
      by (auto simp: Let_def split: if_splits)
    show ?thesis unfolding r' using s
      by (simp add: hidden_core_def) (rule filter_map_hits, simp_all add: sees_jobctx_def)
  qed
qed

lemma confines_cand_Create [confine_intros]: "confines hidden_core (cand_Create c)"
  unfolding cand_Create_def
  by (intro confine_intros confines_insert_row) (simp add: hidden_core_def sees_defs split: if_splits)

lemma confines_cand_Update [confine_intros]: "confines hidden_core (cand_Update c)"
  unfolding cand_Update_def
  by (intro confine_intros confines_update_rows hidden_hits_cand) (simp add: cand_columns_def)

lemma filter_hidden:
  "(\<And>x. \<not> v x \<Longrightarrow> Q x) \<Longrightarrow> filter (\<lambda>x. Q x \<and> \<not> v x) xs = filter (\<lambda>x. \<not> v x) xs"
  by (induction xs) auto

lemma confines_cand_Delete [confine_intros]: "confines hidden_core (cand_Delete k)"
  unfolding cand_Delete_def
proof (intro confine_intros confines_exec)
  fix t r a r'
  assume "(if list_ex (\<lambda>x. cand_ID x = k \<and> sees_cand t x) (t_candidates r) \<and> list_ex (\<lambda>a. app_CandidateID a = k) (t_applications r)
     then Inl (foreign_key_violation ''applications_candidate_id_fkey'')
     else Inr ((), t_candidates_update (filter (\<lambda>x. \<not> (cand_ID x = k \<and> sees_cand t x))) r)) = Inr (a, r')"
  then have "r' = t_candidates_update (filter (\<lambda>x. \<not> (cand_ID x = k \<and> sees_cand t x))) r"
    by (simp split: if_splits)
  then show "hidden_core t r' = hidden_core t (r :: 'c core_tables_scheme)"
    by (simp add: hidden_core_def filter_hidden)
qed

lemma confines_app_Create [confine_intros]: "confines hidden_core (app_Create a)"
  unfolding app_Create_def
  by (intro confine_intros confines_insert_row)
     (simp add: hidden_core_def app_violated_def sees_defs split: if_splits)

lemma confines_app_Update [confine_intros]: "confines hidden_core (app_Update dbnow a)"
  unfolding app_Update_def
  by (intro confine_intros confines_update_rows hidden_hits_app) (simp_all add: app_columns_def)

lemma confines_app_UpdateDecision [confine_intros]: "confines hidden_core (app_UpdateDecision dbnow o1 k s n)"
  unfolding app_UpdateDecision_def
  by (intro confine_intros confines_update_rows hidden_hits_app) simp_all

lemma confines_link [confine_intros]: "confines hidden_core (link dbnow newid o1 c j)"
  unfolding link_def
proof (rule confines_exec, goal_cases)
  case (1 t r a r')
  let ?hit = "\<lambda>x. app_CandidateID x = c \<and> app_JobID x = j"
  from 1 have t: "t = Some o1" by (auto simp: link_violated_def split: option.splits if_splits)
  show ?case
  proof (cases "list_ex ?hit (t_applications r)")
    case True
    with 1 have "r' = t_applications_update (map_hits ?hit (\<lambda>x. x\<lparr>app_UpdatedAt := dbnow\<rparr>)) r"
      "\<And>x. x \<in> set (t_applications r) \<Longrightarrow> ?hit x \<Longrightarrow> sees_app t x"
      by (auto simp: Let_def list_ex_iff split: option.splits if_splits)
    then show ?thesis by (simp add: hidden_hits_app)
  next
    case False
    with 1 t show ?thesis
      by (auto simp: Let_def hidden_core_def sees_app_def new_link_def NewApplication_def split: option.splits if_splits)
  qed
qed

lemma confines_insert_candidate [confine_intros]: "confines hidden_core (insert_candidate dbnow nc o1 nm em)"
  unfolding insert_candidate_def
  by (rule confines_insert_row)
     (simp add: hidden_core_def sees_defs new_candidate_row_def split: if_splits)

lemma confines_ApplyWithDedupe [confine_intros]: "confines hidden_core (ApplyWithDedupe dbnow nc na o1 j nm em)"
  unfolding ApplyWithDedupe_def Let_def by (intro confine_intros)

lemma confines_ctx_CreateContext [confine_intros]: "confines hidden_core (ctx_CreateContext c)"
  unfolding ctx_CreateContext_def
  by (rule confines_insert_row) (simp add: hidden_core_def sees_defs split: if_splits)

lemma confines_ctx_SetPrompt [confine_intros]: "confines hidden_core (ctx_SetPrompt dbnow p)"
  unfolding ctx_SetPrompt_def
  by (rule confines_insert_row) (simp add: hidden_core_def sees_defs split: if_splits)

lemma confines_ctx_DeleteContext [confine_intros]: "confines hidden_core (ctx_DeleteContext o1 k)"
  unfolding ctx_DeleteContext_def
  by (rule confines_delete_rows) (simp add: hidden_core_def filter_hidden)

section \<open>Integrity of the tables\<close>

text \<open>Keys are unique and the foreign keys of applications point to rows that exist.\<close>

definition wf_core :: "'m core_tables_scheme \<Rightarrow> bool" where
  "wf_core r \<longleftrightarrow> distinct (map job_ID (t_jobs r)) \<and> distinct (map cand_ID (t_candidates r))
     \<and> distinct (map app_ID (t_applications r))
     \<and> distinct (map (\<lambda>a. (app_CandidateID a, app_JobID a)) (t_applications r))
     \<and> app_CandidateID ` set (t_applications r) \<subseteq> cand_ID ` set (t_candidates r)
     \<and> app_JobID ` set (t_applications r) \<subseteq> job_ID ` set (t_jobs r)
     \<and> distinct (map cx_JobID (t_job_contexts r))
     \<and> distinct (map (\<lambda>c. (cc_OrgID c, cc_Version c)) (t_contexts r))
     \<and> distinct (map (\<lambda>p. (tp_OrgID p, tp_Version p)) (t_prompts r))"

lemma image_map_hits: "(\<And>x. g (f x) = g x) \<Longrightarrow> g ` set (map_hits hit f xs) = g ` set xs"
  by (metis (no_types, lifting) image_set map_map_hits)

lemma wf_jobs_hits: "(\<And>x. job_ID (f x) = job_ID x) \<Longrightarrow> wf_core r \<Longrightarrow> wf_core (t_jobs_update (map_hits hit f) r)"
  by (simp add: wf_core_def map_map_hits image_map_hits)

lemma wf_cand_hits:
  "(\<And>x. cand_ID (f x) = cand_ID x) \<Longrightarrow> wf_core r \<Longrightarrow> wf_core (t_candidates_update (map_hits hit f) r)"
  by (simp add: wf_core_def map_map_hits image_map_hits)

lemma wf_app_hits:
  "(\<And>x. app_ID (f x) = app_ID x) \<Longrightarrow> (\<And>x. app_CandidateID (f x) = app_CandidateID x) \<Longrightarrow>
   (\<And>x. app_JobID (f x) = app_JobID x) \<Longrightarrow> wf_core r \<Longrightarrow> wf_core (t_applications_update (map_hits hit f) r)"
  by (simp add: wf_core_def map_map_hits image_map_hits)

lemma keeps_job_Create [keeps_intros]: "keeps (on_tables wf_core) (job_Create j)"
  unfolding job_Create_def by (rule keeps_insert_row) (simp add: wf_core_def subset_iff split: if_splits)

lemma keeps_job_Update [keeps_intros]: "keeps (on_tables wf_core) (job_Update dbnow j)"
  unfolding job_Update_def by (intro keeps_intros keeps_update_rows wf_jobs_hits) (simp_all add: job_columns_def)

lemma keeps_job_UpdateRubric [keeps_intros]: "keeps (on_tables wf_core) (job_UpdateRubric dbnow k rb)"
  unfolding job_UpdateRubric_def by (intro keeps_intros keeps_update_rows wf_jobs_hits) simp_all

lemma find_None_image: "find (\<lambda>x. g x = k) xs = None \<Longrightarrow> k \<notin> g ` set xs"
  by (auto simp: find_None_iff)

lemma distinct_snoc: "distinct (map g (xs @ [x])) \<longleftrightarrow> distinct (map g xs) \<and> g x \<notin> g ` set xs"
  by auto

lemma map_hits_key: "(\<And>x. hit x \<Longrightarrow> g (f x) = g x) \<Longrightarrow> map g (map_hits hit f xs) = map g xs"
  by (simp add: map_hits_def)

lemma keeps_jobctx_Upsert [keeps_intros]: "keeps (on_tables wf_core) (jobctx_Upsert dbnow c)"
  unfolding jobctx_Upsert_def
proof (rule keeps_exec, goal_cases)
  case (1 t r a r')
  show ?case
  proof (cases "find (\<lambda>x. cx_JobID x = cx_JobID c) (t_job_contexts r)")
    case None
    with 1(2) have "r' = t_job_contexts_update (\<lambda>xs. xs @ [c\<lparr>cx_Version := 1, cx_UpdatedAt := dbnow\<rparr>]) r"
      by (auto simp: Let_def split: if_splits)
    with 1(1) find_None_image [OF None] show ?thesis by (simp add: wf_core_def)
  next
    case (Some old)
    with 1 have "r' = t_job_contexts_update (map_hits (\<lambda>y. cx_JobID y = cx_JobID c \<and> sees_jobctx t y)
         (\<lambda>_. c\<lparr>cx_Version := cx_Version old + 1, cx_UpdatedAt := dbnow\<rparr>)) r"
      by (auto simp: Let_def split: if_splits)
    moreover have "map cx_JobID (map_hits (\<lambda>y. cx_JobID y = cx_JobID c \<and> sees_jobctx t y)
         (\<lambda>_. c\<lparr>cx_Version := cx_Version old + 1, cx_UpdatedAt := dbnow\<rparr>) xs) = map cx_JobID xs" for xs
      by (rule map_hits_key) simp
    ultimately show ?thesis using 1(1) by (simp add: wf_core_def)
  qed
qed

lemma keeps_cand_Create [keeps_intros]: "keeps (on_tables wf_core) (cand_Create c)"
  unfolding cand_Create_def
  by (intro keeps_intros keeps_insert_row) (simp add: wf_core_def subset_iff split: if_splits)

lemma keeps_cand_Update [keeps_intros]: "keeps (on_tables wf_core) (cand_Update c)"
  unfolding cand_Update_def
  by (intro keeps_intros keeps_update_rows wf_cand_hits) (simp_all add: cand_columns_def)

lemma wf_core_del_candidate:
  assumes "wf_core r" "\<not> (list_ex (\<lambda>x. cand_ID x = k \<and> v x) (t_candidates r) \<and> list_ex (\<lambda>a. app_CandidateID a = k) (t_applications r))"
  shows "wf_core (t_candidates_update (filter (\<lambda>x. \<not> (cand_ID x = k \<and> v x))) r)"
proof -
  have d: "distinct (map cand_ID (t_candidates r))"
    and s: "app_CandidateID ` set (t_applications r) \<subseteq> cand_ID ` set (t_candidates r)"
    using assms(1) by (simp_all add: wf_core_def)
  have "distinct (map cand_ID (filter (\<lambda>x. \<not> (cand_ID x = k \<and> v x)) (t_candidates r)))"
    using d by (rule distinct_map_filter)
  moreover have "app_CandidateID ` set (t_applications r)
      \<subseteq> cand_ID ` set (filter (\<lambda>x. \<not> (cand_ID x = k \<and> v x)) (t_candidates r))"
  proof
    fix i assume "i \<in> app_CandidateID ` set (t_applications r)"
    then obtain a c where a: "a \<in> set (t_applications r)" "i = app_CandidateID a"
      "c \<in> set (t_candidates r)" "i = cand_ID c" using s by blast
    with assms(2) have "\<not> (cand_ID c = k \<and> v c)" by (auto simp: list_ex_iff)
    with a show "i \<in> cand_ID ` set (filter (\<lambda>x. \<not> (cand_ID x = k \<and> v x)) (t_candidates r))"
      by (intro image_eqI [of i cand_ID c]) simp_all
  qed
  ultimately show ?thesis using assms(1) by (simp add: wf_core_def)
qed

lemma keeps_cand_Delete [keeps_intros]: "keeps (on_tables wf_core) (cand_Delete k)"
  unfolding cand_Delete_def
proof (intro keeps_intros keeps_exec, goal_cases)
  case (1 t r a r')
  then show ?case using wf_core_del_candidate [of r k "sees_cand t"] by (simp split: if_splits)
qed

lemma keeps_app_Create [keeps_intros]: "keeps (on_tables wf_core) (app_Create a)"
  unfolding app_Create_def
  by (intro keeps_intros keeps_insert_row) (simp add: wf_core_def app_violated_def split: if_splits)

lemma keeps_app_Update [keeps_intros]: "keeps (on_tables wf_core) (app_Update dbnow a)"
  unfolding app_Update_def
  by (intro keeps_intros keeps_update_rows wf_app_hits) (simp_all add: app_columns_def)

lemma keeps_app_UpdateDecision [keeps_intros]: "keeps (on_tables wf_core) (app_UpdateDecision dbnow o1 k s n)"
  unfolding app_UpdateDecision_def
  by (intro keeps_intros keeps_update_rows wf_app_hits) simp_all

lemma keeps_link [keeps_intros]: "keeps (on_tables wf_core) (link dbnow newid o1 c j)"
  unfolding link_def
proof (rule keeps_exec, goal_cases)
  case (1 t r a r')
  show ?case
  proof (cases "list_ex (\<lambda>x. app_CandidateID x = c \<and> app_JobID x = j) (t_applications r)")
    case True
    with 1 have "r' = t_applications_update (map_hits (\<lambda>x. app_CandidateID x = c \<and> app_JobID x = j)
        (\<lambda>x. x\<lparr>app_UpdatedAt := dbnow\<rparr>)) r"
      by (auto simp: Let_def split: option.splits if_splits)
    with 1(1) show ?thesis by (simp add: wf_app_hits)
  next
    case False
    then have n: "(c, j) \<notin> (\<lambda>a. (app_CandidateID a, app_JobID a)) ` set (t_applications r)"
      by (auto simp: list_ex_iff)
    from 1 False have v: "link_violated newid o1 c j t r = None"
      and r': "r' = t_applications_update (\<lambda>xs. xs @ [new_link dbnow newid o1 c j]) r"
      by (auto simp: Let_def split: option.splits if_splits)
    show ?thesis unfolding r' using 1(1) n v
      by (simp add: wf_core_def new_link_def NewApplication_def link_violated_def split: if_splits)
  qed
qed

lemma keeps_insert_candidate [keeps_intros]: "keeps (on_tables wf_core) (insert_candidate dbnow nc o1 nm em)"
  unfolding insert_candidate_def
  by (rule keeps_insert_row) (simp add: wf_core_def new_candidate_row_def subset_iff split: if_splits)

lemma keeps_ApplyWithDedupe [keeps_intros]: "keeps (on_tables wf_core) (ApplyWithDedupe dbnow nc na o1 j nm em)"
  unfolding ApplyWithDedupe_def Let_def by (intro keeps_intros)

lemma keeps_ctx_CreateContext [keeps_intros]: "keeps (on_tables wf_core) (ctx_CreateContext c)"
  unfolding ctx_CreateContext_def by (rule keeps_insert_row) (simp add: wf_core_def split: if_splits)

lemma keeps_ctx_SetPrompt [keeps_intros]: "keeps (on_tables wf_core) (ctx_SetPrompt dbnow p)"
  unfolding ctx_SetPrompt_def by (rule keeps_insert_row) (simp add: wf_core_def split: if_splits)

lemma keeps_ctx_DeleteContext [keeps_intros]: "keeps (on_tables wf_core) (ctx_DeleteContext o1 k)"
  unfolding ctx_DeleteContext_def delete_rows_def
proof (rule keeps_exec, goal_cases)
  case (1 t r a r')
  then have "r' = t_contexts_update (filter (\<lambda>x. \<not> (cc_ID x = k \<and> cc_OrgID x = o1 \<and> sees_ctx t x))) r" by simp
  with 1(1) show ?case by (simp add: wf_core_def distinct_map_filter)
qed

section \<open>Properties\<close>

text \<open>A call of one of the repositories, with its result dropped.\<close>

datatype core_call =
    JobCreate Job | JobGet uuid | JobGetForUpdate uuid | JobList uuid | JobListActive uuid | JobUpdate time Job
  | JobUpdateRubric time uuid string | JobListByIDs uuid "uuid list" | QuestionSetLoad uuid | QuestionSetErrorLoad uuid
  | JobContextUpsert time CandidateContext | JobContextGet uuid
  | CandCreate Candidate | CandGet uuid | CandList uuid | CandUpdate Candidate | CandDelete uuid
  | CandListByIDs uuid "uuid list"
  | AppCreate Application | AppGet uuid | AppGetByPair uuid uuid uuid | AppByCandidate uuid uuid
  | AppUpdate time Application | AppDecision time uuid uuid "string option" "string option"
  | AppCountRecent uuid string time | AppListByIDs uuid "uuid list" | AppApply time uuid uuid uuid uuid string string
  | CtxCreate CompanyContext | CtxByHash uuid string | CtxByID uuid | CtxList uuid | CtxSetPrompt time TenantPrompt
  | CtxLatestPrompt uuid | CtxDelete uuid uuid

fun core_run :: "core_call \<Rightarrow> (('m, 'h) core_db, unit) op" where
  "core_run (JobCreate j) = job_Create j"
| "core_run (JobGet k) = unit_of (job_GetByID k)"
| "core_run (JobGetForUpdate k) = unit_of (job_GetByIDForUpdate k)"
| "core_run (JobList o1) = unit_of (job_List o1)"
| "core_run (JobListActive o1) = unit_of (job_ListActive o1)"
| "core_run (JobUpdate n j) = unit_of (job_Update n j)"
| "core_run (JobUpdateRubric n k x) = job_UpdateRubric n k x"
| "core_run (JobListByIDs o1 ks) = unit_of (job_ListByIDs o1 ks)"
| "core_run (QuestionSetLoad k) = unit_of (LoadQuestionSet k)"
| "core_run (QuestionSetErrorLoad k) = unit_of (LoadQuestionSetError k)"
| "core_run (JobContextUpsert n c) = unit_of (jobctx_Upsert n c)"
| "core_run (JobContextGet k) = unit_of (jobctx_GetByJobID k)"
| "core_run (CandCreate c) = cand_Create c"
| "core_run (CandGet k) = unit_of (cand_GetByID k)"
| "core_run (CandList o1) = unit_of (cand_List o1)"
| "core_run (CandUpdate c) = cand_Update c"
| "core_run (CandDelete k) = cand_Delete k"
| "core_run (CandListByIDs o1 ks) = unit_of (cand_ListByIDs o1 ks)"
| "core_run (AppCreate a) = app_Create a"
| "core_run (AppGet k) = unit_of (app_GetByID k)"
| "core_run (AppGetByPair o1 c j) = unit_of (app_GetByCandidateJob o1 c j)"
| "core_run (AppByCandidate o1 c) = unit_of (app_ByCandidate o1 c)"
| "core_run (AppUpdate n a) = app_Update n a"
| "core_run (AppDecision n o1 k s x) = app_UpdateDecision n o1 k s x"
| "core_run (AppCountRecent o1 e n) = unit_of (CountRecentByCandidateEmail o1 e n)"
| "core_run (AppListByIDs o1 ks) = unit_of (app_ListByIDs o1 ks)"
| "core_run (AppApply n nc na o1 j nm em) = unit_of (ApplyWithDedupe n nc na o1 j nm em)"
| "core_run (CtxCreate c) = ctx_CreateContext c"
| "core_run (CtxByHash o1 h) = unit_of (ctx_GetContextByHash o1 h)"
| "core_run (CtxByID k) = unit_of (ctx_GetContextByID k)"
| "core_run (CtxList o1) = unit_of (ctx_ListContexts o1)"
| "core_run (CtxSetPrompt n p) = ctx_SetPrompt n p"
| "core_run (CtxLatestPrompt o1) = unit_of (ctx_GetLatestPrompt o1)"
| "core_run (CtxDelete o1 k) = ctx_DeleteContext o1 k"

lemmas core_read_defs = job_GetByID_def job_GetByIDForUpdate_def job_List_def job_ListActive_def job_list_def
  job_ListByIDs_def LoadQuestionSet_def LoadQuestionSetError_def jobctx_GetByJobID_def cand_GetByID_def cand_List_def
  cand_ListByIDs_def app_GetByID_def app_GetByCandidateJob_def app_ByCandidate_def CountRecentByCandidateEmail_def
  app_ListByIDs_def ctx_GetContextByHash_def ctx_GetContextByID_def ctx_ListContexts_def ctx_GetLatestPrompt_def

lemma keeps_guarded [keeps_intros]:
  assumes "keeps P m"
  shows "keeps P (\<lambda>d. if \<not> in_tx d then (Inl e, d) else if c then (Inr a, d) else m d)"
  unfolding keeps_def by (intro allI impI) (use assms in \<open>simp add: keeps_def\<close>)

lemma core_run_keeps: "keeps (on_tables wf_core) (core_run c)"
  by (cases c; simp only: core_run.simps; (unfold core_read_defs)?; intro keeps_intros)

lemma core_run_confines: "confines hidden_core (core_run c)"
  by (cases c; simp only: core_run.simps; (unfold core_read_defs)?; intro confine_intros)

text \<open>
  Property C6. Tenant isolation and integrity of the repositories: whatever a repository call is, whatever it
  answers and whichever statement the database fails, a call made in a transaction of tenant \<open>t\<close> leaves every
  row of every other tenant as it was, in all tables; and it keeps the keys unique and the references of
  applications to candidates and jobs intact.
\<close>

theorem repository_call_isolated:
  assumes "in_tx d" "wf_core (tables d)" "saved d = []"
  shows "hidden_core (tenant d) (tables (snd (core_run c d))) = hidden_core (tenant d) (tables d)
     \<and> wf_core (tables (snd (core_run c d)))"
proof -
  obtain r d' where r: "core_run c d = (r, d')" by fastforce
  have "on_tables wf_core d'"
    by (rule keepsD [OF core_run_keeps r]) (simp add: on_tables_def assms)
  with confinesD [OF core_run_confines assms(1) r] r show ?thesis by (simp add: on_tables_def)
qed

definition demo_core :: core_tables where
  "demo_core = \<lparr>t_jobs = [], t_question_sets = [], t_candidates =
     [new_candidate_row 1 ''c1'' ''o1'' ''Ann'' ''ann@x.io'', new_candidate_row 1 ''c2'' ''o2'' ''Bob'' ''bob@x.io''],
     t_applications = [], t_contexts = [], t_prompts = [], t_job_contexts = []\<rparr>"

definition demo_core_db :: "(core_tables, nat) db" where
  "demo_core_db = \<lparr>tables = demo_core, tenant = Some ''o1'', in_tx = True, aborted = False, saved = [], faults = [],
     pending = [], fired = []\<rparr>"

lemma demo_core_ok: "in_tx demo_core_db" "wf_core (tables demo_core_db)" "saved demo_core_db = []"
  by (simp_all add: demo_core_db_def demo_core_def wf_core_def new_candidate_row_def)

lemma repository_call_isolated_witness:
  "map cand_ID (t_candidates (tables (snd (core_run (CandDelete ''c1'') demo_core_db)))) = [''c2'']
   \<and> map cand_ID (t_candidates (tables (snd (core_run (CandDelete ''c2'') demo_core_db)))) = [''c1'', ''c2'']
   \<and> wf_core (tables (snd (core_run (CandDelete ''c1'') demo_core_db)))"
proof -
  have "map cand_ID (t_candidates (tables (snd (core_run (CandDelete ''c1'') demo_core_db)))) = [''c2'']" by code_simp
  moreover have "map cand_ID (t_candidates (tables (snd (core_run (CandDelete ''c2'') demo_core_db)))) = [''c1'', ''c2'']"
    by code_simp
  ultimately show ?thesis using repository_call_isolated [OF demo_core_ok, of "CandDelete ''c1''"] by blast
qed

text \<open>The public application: what \<open>link\<close> does when it succeeds.\<close>

lemma link_InrE:
  assumes "link dbnow newid o1 c j d = (Inr u, d')"
  obtains "ran d d'" "link_violated newid o1 c j (tenant d) (tables d) = None"
    "tables d' = (if list_ex (\<lambda>x. app_CandidateID x = c \<and> app_JobID x = j) (t_applications (tables d))
       then t_applications_update (map_hits (\<lambda>x. app_CandidateID x = c \<and> app_JobID x = j)
              (\<lambda>x. x\<lparr>app_UpdatedAt := dbnow\<rparr>)) (tables d)
       else t_applications_update (\<lambda>xs. xs @ [new_link dbnow newid o1 c j]) (tables d))"
proof -
  note x = assms [unfolded link_def]
  show ?thesis
    by (rule that [OF exec_ran [OF x]]) (use exec_InrD(1) [OF x] in \<open>simp_all add: Let_def split: option.splits if_splits\<close>)
qed

definition others :: "uuid \<Rightarrow> uuid \<Rightarrow> Application list \<Rightarrow> Application list" where
  "others c j xs = filter (\<lambda>a. \<not> (app_CandidateID a = c \<and> app_JobID a = j)) xs"

lemma others_hits: "others c j (map_hits (\<lambda>x. app_CandidateID x = c \<and> app_JobID x = j) (\<lambda>x. x\<lparr>app_UpdatedAt := n\<rparr>) xs)
    = others c j xs"
  by (induction xs) (simp_all add: others_def map_hits_def)

lemma unique_key: "distinct (map g xs) \<Longrightarrow> length (filter (\<lambda>x. g x = k) xs) \<le> 1"
proof (induction xs)
  case (Cons a xs)
  then show ?case by (cases "g a = k") (auto simp: filter_empty_conv image_iff)
qed simp

lemma unique_pair:
  "distinct (map (\<lambda>a. (app_CandidateID a, app_JobID a)) xs) \<Longrightarrow>
   length (filter (\<lambda>a. app_CandidateID a = c \<and> app_JobID a = j) xs) \<le> 1"
  using unique_key [of "\<lambda>a. (app_CandidateID a, app_JobID a)" xs "(c, j)"] by simp

lemma lower_char_idem [simp]: "lower_char (lower_char c) = lower_char c"
  unfolding lower_char_def by (simp add: Let_def)

lemma to_lower_idem [simp]: "to_lower (to_lower s) = to_lower s"
  by (simp add: to_lower_def)

lemma link_effect:
  assumes "link dbnow newid o1 c j d = (Inr u, d')"
  shows "t_candidates (tables d') = t_candidates (tables d)"
    "others c j (t_applications (tables d')) = others c j (t_applications (tables d))"
    "\<exists>a \<in> set (t_applications (tables d')). app_CandidateID a = c \<and> app_JobID a = j"
    "c \<in> cand_ID ` set (t_candidates (tables d))" "j \<in> job_ID ` set (t_jobs (tables d))"
proof -
  let ?hit = "\<lambda>x. app_CandidateID x = c \<and> app_JobID x = j"
  obtain v: "link_violated newid o1 c j (tenant d) (tables d) = None"
    and t: "tables d' = (if list_ex ?hit (t_applications (tables d))
       then t_applications_update (map_hits ?hit (\<lambda>x. x\<lparr>app_UpdatedAt := dbnow\<rparr>)) (tables d)
       else t_applications_update (\<lambda>xs. xs @ [new_link dbnow newid o1 c j]) (tables d))"
    using assms by (rule link_InrE)
  from v show "c \<in> cand_ID ` set (t_candidates (tables d))" "j \<in> job_ID ` set (t_jobs (tables d))"
    by (simp_all add: link_violated_def split: if_splits)
  show "t_candidates (tables d') = t_candidates (tables d)" by (simp add: t)
  have n: "app_CandidateID (new_link dbnow newid o1 c j) = c" "app_JobID (new_link dbnow newid o1 c j) = j"
    by (simp_all add: new_link_def NewApplication_def)
  show "others c j (t_applications (tables d')) = others c j (t_applications (tables d))"
    by (simp add: t others_hits) (simp add: others_def n)
  show "\<exists>a \<in> set (t_applications (tables d')). ?hit a"
  proof (cases "list_ex ?hit (t_applications (tables d))")
    case True
    then obtain a where "a \<in> set (t_applications (tables d))" "?hit a" by (auto simp: list_ex_iff)
    with True show ?thesis by (intro bexI [of _ "a\<lparr>app_UpdatedAt := dbnow\<rparr>"]) (simp_all add: t map_hits_def image_iff, blast)
  next
    case False
    with n show ?thesis by (intro bexI [of _ "new_link dbnow newid o1 c j"]) (simp_all add: t)
  qed
qed

lemma found_candidate:
  assumes "candidate_by_email o1 em t r = Some c"
  shows "c \<in> set (t_candidates r) \<and> cand_OrgID c = o1 \<and> to_lower (cand_Email c) = em"
proof -
  let ?xs = "filter (\<lambda>x. cand_OrgID x = o1 \<and> to_lower (cand_Email x) = em \<and> sees_cand t x) (t_candidates r)"
  have f: "x \<in> set ys" if "first_row ys = Some x" for x :: Candidate and ys
    using that by (cases ys) (simp_all add: first_row_def)
  have "c \<in> set (sort_key cand_CreatedAt ?xs)"
    by (rule f) (use assms in \<open>simp add: candidate_by_email_def\<close>)
  then show ?thesis by simp
qed


definition demo_apply :: "core_tables" where
  "demo_apply = demo_core\<lparr>t_jobs := [\<lparr>job_ID = ''j1'', job_CreatedAt = 0, job_UpdatedAt = 0, job_OrgID = ''o1'',
     job_Title = ''Dev'', job_Description = ''d'', job_Location = [], job_EmploymentType = [], job_SalaryMin = None,
     job_SalaryMax = None, job_Currency = [], job_RequiredSkills = [], job_MinExperience = 0, job_Responsibilities = [],
     job_Requirements = [], job_NiceToHaves = [], job_Benefits = [], job_ScoringWeights = None,
     job_MinScoreToProceed = None, job_Status = ''active'', job_ProctoringMode = [], job_IsPublished = True,
     job_Rubric = [], job_QuestionSetError = []\<rparr>]\<rparr>"


end
