(* ===== verification/Protocol.thy ===== *)
theory Protocol
  imports Shared
begin

text \<open>
  The WebSocket frames of \<open>src/backend/internal/interview/domain/protocol.go\<close>: the frame types, and
  \<open>ParseClientMessage\<close>, which decodes and checks what a candidate's socket sends.

  The scanner of \<open>encoding/json\<close> (bytes to a JSON value) is the parameter \<open>scan\<close>; how a value fills a
  struct (names matched without regard to case, the last duplicate wins, \<open>null\<close> leaves the zero value,
  a value of the wrong kind is an error) is modelled here. A \<open>float64\<close> that is only stored is kept as the
  literal it was decoded from.
\<close>

section \<open>Frames\<close>

record PacingMetrics =
  TimeToFirstKeystrokeMs :: int
  PacingDurationMs :: int
  TypedChars :: int
  PastedChars :: int
  PastedRatio :: string

record AnswerMessage =
  am_Content :: string
  am_Idx :: int
  am_Action :: string
  am_Pacing :: "PacingMetrics option"

record TelemetryDetails =
  PastedTextLength :: int
  WindowWidth :: int
  WindowHeight :: int
  AudioStatus :: string

record TelemetryMessage =
  tm_EventType :: string
  tm_Timestamp :: string
  tm_QuestionIdx :: int
  tm_Details :: "TelemetryDetails option"

record CodeChangeMessage =
  cc_QuestionIdx :: int
  cc_Language :: string
  cc_Code :: string

record CodeRunTestCase =
  tc_ID :: string
  tc_Input :: string
  tc_ExpectedOutput :: string
  tc_Hidden :: bool

record CodeRunMessage =
  cr_QuestionIdx :: int
  cr_Language :: string
  cr_Code :: string
  cr_Stdin :: string
  cr_TestCases :: "CodeRunTestCase list"

datatype client_message =
    Answer AnswerMessage
  | Interrupt
  | Ping
  | Resume string
  | Telemetry TelemetryMessage
  | CodeChange CodeChangeMessage
  | CodeRun CodeRunMessage
  | CandidateQuestion string

record TestResult =
  tr_ID :: string
  tr_Passed :: bool
  tr_ActualOutput :: string
  tr_ExpectedOutput :: string
  tr_Error :: string

record ExecutionResult =
  er_Stdout :: string
  er_Stderr :: string
  er_ExitCode :: int
  er_DurationMs :: int
  er_AllPassed :: bool
  er_TestResults :: "TestResult list"
  er_Error :: string

record CodeReview =
  review_Score :: string
  review_Strengths :: "string list"
  review_Weaknesses :: "string list"
  review_Recommendations :: "string list"

record CodingSession =
  cs_QuestionIdx :: int
  cs_Language :: string
  cs_Code :: string
  cs_FinalResult :: "ExecutionResult option"
  cs_AICodeReview :: "CodeReview option"
  cs_SubmittedAt :: string

record QuestionMessage =
  qm_Content :: string
  qm_Idx :: nat
  qm_TotalQuestions :: nat
  qm_IsProbe :: bool
  qm_Archetype :: string
  qm_TimeLimitSec :: int
  qm_SessionRemainingSec :: int
  qm_TopicTurn :: nat
  qm_MaxTopicTurns :: nat

record ResponseMessage =
  rm_Content :: string
  rm_IsTopicComplete :: bool
  rm_TopicTurn :: nat
  rm_MaxTopicTurns :: nat

datatype eval_status = EvalComplete | EvalPending

text \<open>Server to client. Scores and the overall score are rationals here, floats on the wire.\<close>

datatype server_message =
    InterviewStart string nat int \<comment> \<open>SessionID, TotalQuestions, SessionBudgetSec\<close>
  | QuestionFrame QuestionMessage
  | Token string
  | Response ResponseMessage
  | Evaluation "(string \<times> rat) list" rat string eval_status
  | ErrorFrame string string \<comment> \<open>Code, Message\<close>
  | Pong
  | CodeResult ExecutionResult
  | QAAnswer string string bool \<comment> \<open>Question, Answer, Refused\<close>

definition ErrCodeTurnInProgress :: string where
  "ErrCodeTurnInProgress = ''turn_in_progress''"

definition NewInterviewStart :: "string \<Rightarrow> nat \<Rightarrow> server_message" where
  "NewInterviewStart sessionID n = InterviewStart sessionID n 0"

definition MaxCandidateQuestionRunes :: nat where "MaxCandidateQuestionRunes = 1000"
definition MaxAnswerRunes :: nat where "MaxAnswerRunes = 4000"

section \<open>Decoding JSON values into structs\<close>

datatype json = JNull | JBool bool | JNum string | JStr string | JArr "json list" | JObj "(string \<times> json) list"

definition type_error :: "string \<Rightarrow> 'a result" where
  "type_error f = Inl (Sentinel (''json: cannot unmarshal value into Go struct field '' @ f))"

text \<open>The members of an object that fill the field \<open>f\<close>, in the order of the text.\<close>

definition members :: "string \<Rightarrow> (string \<times> json) list \<Rightarrow> json list" where
  "members f kvs = map snd (filter (\<lambda>(k, v). to_lower k = to_lower f) kvs)"

fun decode_members :: "('a \<Rightarrow> json \<Rightarrow> 'a result) \<Rightarrow> json list \<Rightarrow> 'a \<Rightarrow> 'a result" where
  "decode_members dec [] x = Inr x"
| "decode_members dec (v # vs) x =
     (case v of JNull \<Rightarrow> decode_members dec vs x
      | _ \<Rightarrow> (case dec x v of Inl e \<Rightarrow> Inl e | Inr y \<Rightarrow> decode_members dec vs y))"

fun dec_string :: "string \<Rightarrow> string \<Rightarrow> json \<Rightarrow> string result" where
  "dec_string f _ (JStr s) = Inr s"
| "dec_string f _ _ = type_error f"

fun dec_bool :: "string \<Rightarrow> bool \<Rightarrow> json \<Rightarrow> bool result" where
  "dec_bool f _ (JBool b) = Inr b"
| "dec_bool f _ _ = type_error f"

fun dec_float :: "string \<Rightarrow> string \<Rightarrow> json \<Rightarrow> string result" where
  "dec_float f _ (JNum n) = Inr n"
| "dec_float f _ _ = type_error f"

definition is_digit :: "char \<Rightarrow> bool" where
  "is_digit c \<longleftrightarrow> 48 \<le> byte c \<and> byte c \<le> 57"

definition digits_value :: "string \<Rightarrow> int" where
  "digits_value s = foldl (\<lambda>n c. 10 * n + (int (byte c) - 48)) 0 s"

text \<open>\<open>strconv.ParseInt(s, 10, 64)\<close> on a number literal.\<close>

definition parse_int :: "string \<Rightarrow> int option" where
  "parse_int s = (let neg = has_prefix s ''-''; ds = (if neg then tl s else s);
      v = (if neg then - digits_value ds else digits_value ds) in
    if ds \<noteq> [] \<and> list_all is_digit ds \<and> - (2 ^ 63) \<le> v \<and> v < 2 ^ 63 then Some v else None)"

fun dec_int :: "string \<Rightarrow> int \<Rightarrow> json \<Rightarrow> int result" where
  "dec_int f _ (JNum n) = (case parse_int n of Some v \<Rightarrow> Inr v | None \<Rightarrow> type_error f)"
| "dec_int f _ _ = type_error f"

definition str_field :: "string \<Rightarrow> (string \<times> json) list \<Rightarrow> string \<Rightarrow> string result" where
  "str_field f kvs z = decode_members (dec_string f) (members f kvs) z"

definition int_field :: "string \<Rightarrow> (string \<times> json) list \<Rightarrow> int \<Rightarrow> int result" where
  "int_field f kvs z = decode_members (dec_int f) (members f kvs) z"

definition bool_field :: "string \<Rightarrow> (string \<times> json) list \<Rightarrow> bool \<Rightarrow> bool result" where
  "bool_field f kvs z = decode_members (dec_bool f) (members f kvs) z"

definition float_field :: "string \<Rightarrow> (string \<times> json) list \<Rightarrow> string \<Rightarrow> string result" where
  "float_field f kvs z = decode_members (dec_float f) (members f kvs) z"

definition and_then :: "'a result \<Rightarrow> ('a \<Rightarrow> 'b result) \<Rightarrow> 'b result" where
  "and_then r f = (case r of Inl e \<Rightarrow> Inl e | Inr a \<Rightarrow> f a)"

lemma and_then_simps [simp]: "and_then (Inl e) f = Inl e" "and_then (Inr a) f = f a"
  by (simp_all add: and_then_def)

lemma and_then_Inl: "and_then r f = Inl e \<longleftrightarrow> r = Inl e \<or> (\<exists>a. r = Inr a \<and> f a = Inl e)"
  by (cases r) auto

lemma and_then_Inr: "and_then r f = Inr b \<longleftrightarrow> (\<exists>a. r = Inr a \<and> f a = Inr b)"
  by (cases r) auto

text \<open>A struct accepts an object, or \<open>null\<close>, which leaves it as it is.\<close>

fun as_object :: "string \<Rightarrow> json \<Rightarrow> (string \<times> json) list result" where
  "as_object f (JObj kvs) = Inr kvs"
| "as_object f JNull = Inr []"
| "as_object f _ = type_error f"

definition dec_pacing :: "PacingMetrics option \<Rightarrow> json \<Rightarrow> PacingMetrics option result" where
  "dec_pacing old v =
     (let z = (case old of Some p \<Rightarrow> p | None \<Rightarrow> PacingMetrics.make 0 0 0 0 ''0'') in
      and_then (as_object ''pacing_telemetry'' v) (\<lambda>o1.
      and_then (int_field ''time_to_first_keystroke_ms'' o1 (TimeToFirstKeystrokeMs z)) (\<lambda>t.
      and_then (int_field ''duration_ms'' o1 (PacingDurationMs z)) (\<lambda>d.
      and_then (int_field ''typed_chars'' o1 (TypedChars z)) (\<lambda>c.
      and_then (int_field ''pasted_chars'' o1 (PastedChars z)) (\<lambda>p.
      and_then (float_field ''pasted_ratio'' o1 (PastedRatio z)) (\<lambda>r.
      Inr (Some (PacingMetrics.make t d c p r)))))))))"

definition dec_details :: "TelemetryDetails option \<Rightarrow> json \<Rightarrow> TelemetryDetails option result" where
  "dec_details old v =
     (let z = (case old of Some p \<Rightarrow> p | None \<Rightarrow> TelemetryDetails.make 0 0 0 []) in
      and_then (as_object ''details'' v) (\<lambda>o1.
      and_then (int_field ''pasted_text_length'' o1 (PastedTextLength z)) (\<lambda>p.
      and_then (int_field ''window_width'' o1 (WindowWidth z)) (\<lambda>w.
      and_then (int_field ''window_height'' o1 (WindowHeight z)) (\<lambda>h.
      and_then (str_field ''audio_status'' o1 (AudioStatus z)) (\<lambda>a.
      Inr (Some (TelemetryDetails.make p w h a))))))))"

definition dec_test_case :: "json \<Rightarrow> CodeRunTestCase result" where
  "dec_test_case v =
     and_then (as_object ''test_cases'' v) (\<lambda>o1.
     and_then (str_field ''id'' o1 []) (\<lambda>i.
     and_then (str_field ''input'' o1 []) (\<lambda>inp.
     and_then (str_field ''expected_output'' o1 []) (\<lambda>x.
     and_then (bool_field ''hidden'' o1 False) (\<lambda>h.
     Inr (CodeRunTestCase.make i inp x h))))))"

fun dec_list :: "('a \<Rightarrow> 'b result) \<Rightarrow> 'a list \<Rightarrow> 'b list result" where
  "dec_list dec [] = Inr []"
| "dec_list dec (v # vs) = and_then (dec v) (\<lambda>x. and_then (dec_list dec vs) (\<lambda>xs. Inr (x # xs)))"

fun dec_test_cases :: "CodeRunTestCase list \<Rightarrow> json \<Rightarrow> CodeRunTestCase list result" where
  "dec_test_cases _ (JArr vs) = dec_list dec_test_case vs"
| "dec_test_cases _ _ = type_error ''test_cases''"

section \<open>ParseClientMessage\<close>

definition parse_answer :: "(string \<times> json) list \<Rightarrow> client_message result" where
  "parse_answer o1 =
     and_then (str_field ''content'' o1 []) (\<lambda>content.
     and_then (int_field ''idx'' o1 0) (\<lambda>idx.
     and_then (str_field ''action'' o1 []) (\<lambda>action.
     and_then (decode_members dec_pacing (members ''pacing_telemetry'' o1) None) (\<lambda>pacing.
     if content = [] then Inl (Sentinel ''answer without content'')
     else if MaxAnswerRunes < rune_count content
       then Inl (Sentinel (''answer exceeds '' @ itoa (int MaxAnswerRunes) @ '' characters''))
     else Inr (Answer (AnswerMessage.make content idx action pacing))))))"

definition parse_telemetry :: "(string \<times> json) list \<Rightarrow> client_message result" where
  "parse_telemetry o1 =
     and_then (str_field ''event_type'' o1 []) (\<lambda>event.
     and_then (str_field ''timestamp'' o1 []) (\<lambda>ts.
     and_then (int_field ''question_idx'' o1 0) (\<lambda>q.
     and_then (decode_members dec_details (members ''details'' o1) None) (\<lambda>details.
     if event = [] then Inl (Sentinel ''telemetry without event_type'')
     else Inr (Telemetry (TelemetryMessage.make event ts q details))))))"

definition parse_code_change :: "(string \<times> json) list \<Rightarrow> client_message result" where
  "parse_code_change o1 =
     and_then (int_field ''question_idx'' o1 0) (\<lambda>q.
     and_then (str_field ''language'' o1 []) (\<lambda>l.
     and_then (str_field ''code'' o1 []) (\<lambda>c. Inr (CodeChange (CodeChangeMessage.make q l c)))))"

definition parse_code_run :: "(string \<times> json) list \<Rightarrow> client_message result" where
  "parse_code_run o1 =
     and_then (int_field ''question_idx'' o1 0) (\<lambda>q.
     and_then (str_field ''language'' o1 []) (\<lambda>l.
     and_then (str_field ''code'' o1 []) (\<lambda>c.
     and_then (str_field ''stdin'' o1 []) (\<lambda>i.
     and_then (decode_members dec_test_cases (members ''test_cases'' o1) []) (\<lambda>ts.
     Inr (CodeRun (CodeRunMessage.make q l c i ts)))))))"

definition parse_candidate_question :: "(string \<times> json) list \<Rightarrow> client_message result" where
  "parse_candidate_question o1 =
     and_then (str_field ''content'' o1 []) (\<lambda>content.
     if content = [] then Inl (Sentinel ''candidate question without content'')
     else if MaxCandidateQuestionRunes < rune_count content
       then Inl (Sentinel (''candidate question exceeds '' @ itoa (int MaxCandidateQuestionRunes) @ '' characters''))
     else Inr (CandidateQuestion content))"

definition ParseClientMessage :: "(string \<Rightarrow> json result) \<Rightarrow> string \<Rightarrow> client_message result" where
  "ParseClientMessage scan raw =
     (case and_then (scan raw) (\<lambda>v. and_then (as_object ''type'' v) (\<lambda>o1.
             and_then (str_field ''type'' o1 []) (\<lambda>t. Inr (t, o1)))) of
        Inl e \<Rightarrow> Inl (Wrapped ''malformed frame'' e)
      | Inr (t, o1) \<Rightarrow>
          if t = ''answer'' then parse_answer o1
          else if t = ''interrupt'' then Inr Interrupt
          else if t = ''ping'' then Inr Ping
          else if t = ''resume'' then
            and_then (str_field ''session_id'' o1 []) (\<lambda>sid. Inr (Resume sid))
          else if t = ''telemetry'' then parse_telemetry o1
          else if t = ''code.change'' then parse_code_change o1
          else if t = ''code.run'' then parse_code_run o1
          else if t = ''candidate_question'' then parse_candidate_question o1
          else Inl (Sentinel (''unknown message type '' @ go_quote t)))"

section \<open>What an accepted frame guarantees\<close>

fun admissible :: "client_message \<Rightarrow> bool" where
  "admissible (Answer m) = (am_Content m \<noteq> [] \<and> rune_count (am_Content m) \<le> MaxAnswerRunes)"
| "admissible (Telemetry m) = (tm_EventType m \<noteq> [])"
| "admissible (CandidateQuestion c) = (c \<noteq> [] \<and> rune_count c \<le> MaxCandidateQuestionRunes)"
| "admissible _ = True"

lemma parse_answer_admissible: "parse_answer o1 = Inr m \<Longrightarrow> admissible m"
  by (auto simp: parse_answer_def and_then_Inr AnswerMessage.make_def split: if_splits)

lemma parse_telemetry_admissible: "parse_telemetry o1 = Inr m \<Longrightarrow> admissible m"
  by (auto simp: parse_telemetry_def and_then_Inr TelemetryMessage.make_def split: if_splits)

lemma parse_candidate_question_admissible: "parse_candidate_question o1 = Inr m \<Longrightarrow> admissible m"
  by (auto simp: parse_candidate_question_def and_then_Inr split: if_splits)

lemma parse_code_admissible:
  "parse_code_change o1 = Inr m \<Longrightarrow> admissible m" "parse_code_run o1 = Inr m \<Longrightarrow> admissible m"
  by (auto simp: parse_code_change_def parse_code_run_def and_then_Inr)

lemma parse_admissible: "ParseClientMessage scan raw = Inr m \<Longrightarrow> admissible m"
  unfolding ParseClientMessage_def
  by (auto simp: and_then_Inr split: sum.splits if_splits
      dest: parse_answer_admissible parse_telemetry_admissible parse_candidate_question_admissible
        parse_code_admissible)

text \<open>
  Property C13. A frame the server accepts from a candidate's socket is admissible: an answer is not
  empty and at most 4000 characters long, a candidate question is not empty and at most 1000 characters
  long, a telemetry event has a type. The JSON scanner may answer anything.
\<close>

theorem accepted_frame_admissible:
  assumes "ParseClientMessage scan raw = Inr m"
  shows "admissible m"
  using assms by (rule parse_admissible)

definition demo_scan :: "string \<Rightarrow> json result" where
  "demo_scan raw = Inr (JObj [(''type'', JStr ''answer''), (''Content'', JStr raw), (''idx'', JNum ''2''),
     (''action'', JStr ''reply'')])"

lemma demo_frame: "ParseClientMessage demo_scan ''Hello'' =
    Inr (Answer \<lparr>am_Content = ''Hello'', am_Idx = 2, am_Action = ''reply'', am_Pacing = None\<rparr>)"
  by code_simp

lemma accepted_frame_admissible_witness: "rune_count ''Hello'' \<le> MaxAnswerRunes"
  using accepted_frame_admissible [OF demo_frame] by simp

end
