(* ===== verification/Proctoring.thy ===== *)
theory Proctoring
  imports Protocol Float64
begin

text \<open>
  The integrity score of \<open>src/backend/internal/interview/domain/proctoring.go\<close>:
  \<open>CalculateProctoringSummary\<close> folds the telemetry events of an interview into counters, a score
  between 0 and 100, a risk tier and audit flags.
\<close>

section \<open>Events and summary\<close>

definition EventTypeTabSwitch :: string where "EventTypeTabSwitch = ''tab_switch''"
definition EventTypeFocusLost :: string where "EventTypeFocusLost = ''focus_lost''"
definition EventTypeFocusRegained :: string where "EventTypeFocusRegained = ''focus_regained''"
definition EventTypePaste :: string where "EventTypePaste = ''clipboard_paste''"
definition EventTypeWindowResize :: string where "EventTypeWindowResize = ''window_resize''"
definition EventTypeAudioAnomaly :: string where "EventTypeAudioAnomaly = ''audio_anomaly''"

lemmas event_types = EventTypeTabSwitch_def EventTypeFocusLost_def EventTypeFocusRegained_def
  EventTypePaste_def EventTypeWindowResize_def EventTypeAudioAnomaly_def

record ProctoringEvent =
  pe_Type :: string
  pe_Timestamp :: time
  pe_QuestionIdx :: int
  pe_Details :: "TelemetryDetails option"

datatype RiskLevel = RiskUnset | RiskLow | RiskMedium | RiskHigh

record ProctoringSummary =
  IntegrityScore :: int
  summary_RiskLevel :: RiskLevel
  TabSwitchCount :: nat
  TotalAwayDurationSec :: int
  PasteEventCount :: nat
  SuspiciousPasteCount :: nat
  AudioAnomalyCount :: nat
  Flags :: "string list"

definition empty_summary :: ProctoringSummary where
  "empty_summary = ProctoringSummary.make 0 RiskUnset 0 0 0 0 0 []"

section \<open>CalculateProctoringSummary\<close>

text \<open>The variables of the loop.\<close>

record proctor_loop =
  pl_summary :: ProctoringSummary
  pl_score :: int
  lastFocusLost :: time
  lastResize :: time

definition resizeDeductionInterval :: duration where
  "resizeDeductionInterval = 30 * second"

definition charCount :: "ProctoringEvent \<Rightarrow> int" where
  "charCount ev = (case pe_Details ev of None \<Rightarrow> 0 | Some d \<Rightarrow> PastedTextLength d)"

definition awaySec :: "proctor_loop \<Rightarrow> ProctoringEvent \<Rightarrow> int" where
  "awaySec st ev = (if lastFocusLost st \<noteq> zero_time \<and> lastFocusLost st < pe_Timestamp ev
     then int_seconds (time_sub (pe_Timestamp ev) (lastFocusLost st)) else 0)"

definition resize_counts :: "proctor_loop \<Rightarrow> ProctoringEvent \<Rightarrow> bool" where
  "resize_counts st ev \<longleftrightarrow> lastResize st = zero_time \<or>
     resizeDeductionInterval \<le> time_sub (pe_Timestamp ev) (lastResize st)"

definition proctor_step :: "ProctoringEvent \<Rightarrow> proctor_loop \<Rightarrow> proctor_loop" where
  "proctor_step ev st = (let sm = pl_summary st; score = pl_score st in
     if pe_Type ev = EventTypeTabSwitch then
       st\<lparr>pl_summary := sm\<lparr>TabSwitchCount := TabSwitchCount sm + 1\<rparr>, pl_score := score - 5\<rparr>
     else if pe_Type ev = EventTypeFocusLost then st\<lparr>lastFocusLost := pe_Timestamp ev\<rparr>
     else if pe_Type ev = EventTypeFocusRegained then
       (let away = awaySec st ev in
        if 0 < away then
          st\<lparr>pl_summary := sm\<lparr>TotalAwayDurationSec := TotalAwayDurationSec sm + away\<rparr>,
             pl_score := (if 10 < away then score - 5 else score)\<rparr>
        else st)
     else if pe_Type ev = EventTypePaste then
       (if 150 < charCount ev then
          st\<lparr>pl_summary := sm\<lparr>PasteEventCount := PasteEventCount sm + 1,
                              SuspiciousPasteCount := SuspiciousPasteCount sm + 1\<rparr>,
             pl_score := score - 15\<rparr>
        else st\<lparr>pl_summary := sm\<lparr>PasteEventCount := PasteEventCount sm + 1\<rparr>,
                pl_score := score - 3\<rparr>)
     else if pe_Type ev = EventTypeAudioAnomaly then
       st\<lparr>pl_summary := sm\<lparr>AudioAnomalyCount := AudioAnomalyCount sm + 1\<rparr>, pl_score := score - 15\<rparr>
     else if pe_Type ev = EventTypeWindowResize \<and> resize_counts st ev then
       st\<lparr>lastResize := pe_Timestamp ev, pl_score := score - 2\<rparr>
     else st)"

definition audit_flags :: "ProctoringSummary \<Rightarrow> string list" where
  "audit_flags sm =
     (if 0 < TabSwitchCount sm then
        [''Candidate switched tabs or blurred browser '' @ itoa (int (TabSwitchCount sm)) @ '' time(s)'']
      else []) @
     (if 5 < TotalAwayDurationSec sm then
        [''Candidate spent '' @ itoa (TotalAwayDurationSec sm) @ '' second(s) away from the interview window'']
      else []) @
     (if 0 < SuspiciousPasteCount sm then
        [''Detected '' @ itoa (int (SuspiciousPasteCount sm)) @ '' large clipboard paste event(s) (>150 characters)'']
      else if 0 < PasteEventCount sm then
        [''Detected '' @ itoa (int (PasteEventCount sm)) @ '' minor clipboard paste event(s)'']
      else []) @
     (if 0 < AudioAnomalyCount sm then
        [''Detected '' @ itoa (int (AudioAnomalyCount sm)) @
         '' background voice or secondary speaker audio anomaly event(s)'']
      else [])"

definition clamp_score :: "int \<Rightarrow> int" where
  "clamp_score s = (if s < 0 then 0 else if 100 < s then 100 else s)"

definition risk_of :: "int \<Rightarrow> RiskLevel" where
  "risk_of s = (if 85 \<le> s then RiskLow else if 60 \<le> s then RiskMedium else RiskHigh)"

definition proctor_init :: proctor_loop where
  "proctor_init = proctor_loop.make empty_summary 100 zero_time zero_time"

definition proctor_run :: "ProctoringEvent list \<Rightarrow> proctor_loop" where
  "proctor_run evs = fold proctor_step evs proctor_init"

definition CalculateProctoringSummary :: "ProctoringEvent list \<Rightarrow> ProctoringSummary" where
  "CalculateProctoringSummary evs = (if evs = [] then empty_summary else
     (let st = proctor_run evs; sm = pl_summary st; score = clamp_score (pl_score st) in
      sm\<lparr>Flags := audit_flags sm, IntegrityScore := score, summary_RiskLevel := risk_of score\<rparr>))"

section \<open>The step, one event at a time\<close>

lemma proctor_run_simps [simp]:
  "proctor_run [] = proctor_init"
  "proctor_run (evs @ [ev]) = proctor_step ev (proctor_run evs)"
  by (simp_all add: proctor_run_def)

lemma score_step:
  "pl_score (proctor_step ev st) \<le> pl_score st"
  "pl_score st - 15 \<le> pl_score (proctor_step ev st)"
  by (auto simp: proctor_step_def Let_def)

lemma count_step:
  "TabSwitchCount (pl_summary (proctor_step ev st)) =
     TabSwitchCount (pl_summary st) + (if pe_Type ev = EventTypeTabSwitch then 1 else 0)"
  "PasteEventCount (pl_summary (proctor_step ev st)) =
     PasteEventCount (pl_summary st) + (if pe_Type ev = EventTypePaste then 1 else 0)"
  "AudioAnomalyCount (pl_summary (proctor_step ev st)) =
     AudioAnomalyCount (pl_summary st) + (if pe_Type ev = EventTypeAudioAnomaly then 1 else 0)"
  "SuspiciousPasteCount (pl_summary (proctor_step ev st)) =
     SuspiciousPasteCount (pl_summary st) + (if pe_Type ev = EventTypePaste \<and> 150 < charCount ev then 1 else 0)"
  by (auto simp: proctor_step_def Let_def event_types)

lemma step_resize:
  "pe_Type ev = EventTypeWindowResize \<Longrightarrow> proctor_step ev st =
     (if resize_counts st ev then st\<lparr>lastResize := pe_Timestamp ev, pl_score := pl_score st - 2\<rparr> else st)"
  by (simp add: proctor_step_def event_types Let_def)

lemma proctor_counts:
  "TabSwitchCount (pl_summary (proctor_run evs)) = length (filter (\<lambda>e. pe_Type e = EventTypeTabSwitch) evs)"
  "PasteEventCount (pl_summary (proctor_run evs)) = length (filter (\<lambda>e. pe_Type e = EventTypePaste) evs)"
  "AudioAnomalyCount (pl_summary (proctor_run evs)) = length (filter (\<lambda>e. pe_Type e = EventTypeAudioAnomaly) evs)"
  by (induction evs rule: rev_induct)
    (auto simp: count_step proctor_init_def empty_summary_def proctor_loop.make_def ProctoringSummary.make_def)

lemma proctor_score_antitone: "pl_score (proctor_run (evs @ evs2)) \<le> pl_score (proctor_run evs)"
proof (induction evs2 rule: rev_induct)
  case (snoc ev evs2)
  then show ?case
    using score_step(1) [of ev "proctor_run (evs @ evs2)"]
    by (simp flip: append_assoc)
qed simp

lemma clamp_score_mono: "a \<le> b \<Longrightarrow> clamp_score a \<le> clamp_score b"
  by (simp add: clamp_score_def)

lemma clamp_score_bounds: "0 \<le> clamp_score s" "clamp_score s \<le> 100"
  by (auto simp: clamp_score_def)

section \<open>Resize floods\<close>

text \<open>
  Within a window of \<open>k\<close> intervals at most \<open>k\<close> resize events lower the score: every event that counts
  moves \<open>lastResize\<close> by a full interval.
\<close>

lemma resize_flood:
  assumes "\<forall>e \<in> set evs. pe_Type e = EventTypeWindowResize \<and> pe_Timestamp e \<noteq> zero_time
      \<and> t0 \<le> pe_Timestamp e \<and> pe_Timestamp e < t0 + int k * resizeDeductionInterval"
    and "int k * resizeDeductionInterval < 2 ^ 63"
  shows "100 - 2 * int k \<le> pl_score (proctor_run evs)"
proof -
  let ?I = resizeDeductionInterval
  have I: "0 < ?I" by (simp add: resizeDeductionInterval_def second_def)
  have "\<exists>n. pl_score (proctor_run evs) = 100 - 2 * int n \<and>
      (if n = 0 then lastResize (proctor_run evs) = zero_time
       else lastResize (proctor_run evs) \<noteq> zero_time \<and>
            t0 + int (n - 1) * ?I \<le> lastResize (proctor_run evs)
            \<and> lastResize (proctor_run evs) < t0 + int k * ?I)"
    using assms(1)
  proof (induction evs rule: rev_induct)
    case Nil
    show ?case
      by (rule exI [of _ 0]) (simp add: proctor_init_def proctor_loop.make_def)
  next
    case (snoc ev evs)
    let ?st = "proctor_run evs"
    from snoc obtain n where n: "pl_score ?st = 100 - 2 * int n"
      "if n = 0 then lastResize ?st = zero_time
       else lastResize ?st \<noteq> zero_time \<and> t0 + int (n - 1) * ?I \<le> lastResize ?st
         \<and> lastResize ?st < t0 + int k * ?I"
      by auto
    from snoc.prems have ev: "pe_Type ev = EventTypeWindowResize" "pe_Timestamp ev \<noteq> zero_time"
      "t0 \<le> pe_Timestamp ev" "pe_Timestamp ev < t0 + int k * ?I" by auto
    show ?case
    proof (cases "resize_counts ?st ev")
      case False
      then show ?thesis using n ev by (auto simp: step_resize)
    next
      case True
      have "t0 + int n * ?I \<le> pe_Timestamp ev"
      proof (cases "n = 0")
        case False
        with True n have "?I \<le> time_sub (pe_Timestamp ev) (lastResize ?st)"
          by (auto simp: resize_counts_def)
        then have "?I \<le> pe_Timestamp ev - lastResize ?st"
          using I by (auto simp: time_sub_def max_def min_def split: if_splits)
        moreover have "int n * ?I = int (n - 1) * ?I + ?I" using False by (cases n) (auto simp: algebra_simps)
        ultimately show ?thesis using n False by auto
      qed (use ev in simp)
      with True n ev show ?thesis by (intro exI [of _ "Suc n"]) (auto simp: step_resize)
    qed
  qed
  then obtain n where n: "pl_score (proctor_run evs) = 100 - 2 * int n"
    and l: "n = 0 \<or> t0 + int (n - 1) * ?I < t0 + int k * ?I" by (auto split: if_splits)
  have "n \<le> k"
  proof (cases "n = 0")
    case False
    with l have "int (n - 1) * ?I < int k * ?I" by simp
    then have "int (n - 1) < int k" using I by (simp add: mult_less_cancel_right)
    then show ?thesis by simp
  qed simp
  with n show ?thesis by simp
qed

section \<open>Properties\<close>


definition demo_event :: "string \<Rightarrow> time \<Rightarrow> ProctoringEvent" where
  "demo_event typ t = \<lparr>pe_Type = typ, pe_Timestamp = t, pe_QuestionIdx = 1, pe_Details = None\<rparr>"


text \<open>
  A flood of window resizes cannot floor the score: if all events are resizes within \<open>k\<close>
  intervals of 30 seconds, at most two points are lost for each interval.
\<close>

lemma resize_flood_rate_limited:
  assumes "evs \<noteq> []"
    and "\<forall>e \<in> set evs. pe_Type e = EventTypeWindowResize \<and> pe_Timestamp e \<noteq> zero_time
      \<and> t0 \<le> pe_Timestamp e \<and> pe_Timestamp e < t0 + int k * resizeDeductionInterval"
    and "int k * resizeDeductionInterval < 2 ^ 63"
  shows "100 - 2 * int k \<le> IntegrityScore (CalculateProctoringSummary evs)"
proof -
  have "100 - 2 * int k \<le> pl_score (proctor_run evs)" using assms(2,3) by (rule resize_flood)
  with assms(1) show ?thesis by (simp add: CalculateProctoringSummary_def Let_def clamp_score_def)
qed

lemma resize_flood_rate_limited_witness:
  "98 \<le> IntegrityScore (CalculateProctoringSummary (replicate 50 (demo_event EventTypeWindowResize 7)))"
  using resize_flood_rate_limited [of "replicate 50 (demo_event EventTypeWindowResize 7)" 0 1]
  by (simp add: demo_event_def zero_time_def resizeDeductionInterval_def second_def)

text \<open>
  Absence is counted once for every regained focus: a second \<open>focus_regained\<close> after one
  \<open>focus_lost\<close> adds the time since the loss again, since the loop never clears \<open>lastFocusLost\<close>.
\<close>

theorem focus_regained_counts_again:
  "let evs = [demo_event EventTypeFocusLost 0, demo_event EventTypeFocusRegained (20 * second)] in
     TotalAwayDurationSec (CalculateProctoringSummary evs) = 20
   \<and> TotalAwayDurationSec (CalculateProctoringSummary
        (evs @ [demo_event EventTypeFocusRegained (30 * second)])) = 50"
  by code_simp

end
