(* ===== verification/Interview_Domain.thy ===== *)
theory Interview_Domain
  imports Proctoring
begin

text \<open>
  The interview aggregate of \<open>src/backend/internal/interview/domain\<close> (\<open>interview.go\<close>, \<open>transcript.go\<close>,
  \<open>errors.go\<close>): the question list, the multi-turn dialogue on each question, the probe insertion, the
  status machine and its clock. A method of the Go receiver is a function from the aggregate to its
  new value; \<open>now\<close> is what the injected clock answers.

  \<open>wf_interview\<close> is the invariant of the aggregate and \<open>iv_step\<close> the step relation of all operations.
\<close>

section \<open>Data\<close>

datatype Status = Pending | InProgress | Completed | Expired

fun status_text :: "Status \<Rightarrow> string" where
  "status_text Pending = ''pending''"
| "status_text InProgress = ''in_progress''"
| "status_text Completed = ''completed''"
| "status_text Expired = ''expired''"

definition MaxInterviewDuration :: duration where "MaxInterviewDuration = 30 * minute"
definition PerQuestionTimeout :: duration where "PerQuestionTimeout = 3 * minute"
definition MaxTurnsPerTopic :: nat where "MaxTurnsPerTopic = 3"

definition ErrNotFound :: error where "ErrNotFound = Sentinel ''interview not found''"
definition ErrEvaluationExists :: error where "ErrEvaluationExists = Sentinel ''evaluation already exists''"
definition ErrQAActive :: error where "ErrQAActive = Sentinel ''interview is not active for QA append''"

record Question =
  q_Idx :: nat
  q_Content :: string
  q_Category :: string
  q_Skill :: string
  q_IsProbe :: bool
  q_Context :: string
  q_Expectation :: string

record QAPair =
  qa_Question :: string
  qa_Answer :: string
  qa_CreatedAt :: time

record Answer =
  a_Idx :: nat
  a_Content :: string
  a_AnsweredAt :: time
  a_Pacing :: "PacingMetrics option"
  a_Action :: string
  a_Turn :: nat

record Interview =
  iv_ID :: uuid
  iv_CreatedAt :: time
  iv_UpdatedAt :: time
  iv_OrgID :: uuid
  iv_ApplicationID :: uuid
  iv_Status :: Status
  Questions :: "Question list"
  Answers :: "Answer list"
  QAPairs :: "QAPair list"
  LastQuestionIdx :: nat
  ContextVersion :: int
  iv_Evaluation :: "string option"
  ConsentGiven :: bool
  HumanRequested :: bool
  ProctoringEvents :: "ProctoringEvent list"
  iv_Summary :: ProctoringSummary
  CodingSessions :: "CodingSession list"
  StartedAt :: "time option"
  CompletedAt :: "time option"
  ExpiresAt :: "time option"
  lastActivity :: time

section \<open>Question archetypes\<close>

definition ArchetypeConversational :: string where "ArchetypeConversational = ''conversational''"
definition ArchetypeSystemDesign :: string where "ArchetypeSystemDesign = ''system_design''"
definition ArchetypeCoding :: string where "ArchetypeCoding = ''coding''"

definition DetermineQuestionArchetype :: "Question \<Rightarrow> string \<times> int" where
  "DetermineQuestionArchetype q =
     (let cat = to_lower (q_Category q); content = to_lower (q_Content q) in
      if cat = ''coding'' \<or> contains content ''write a function'' \<or> contains content ''implement a function''
         \<or> contains content ''write code'' \<or> contains content ''sandbox'' \<or> contains content ''leetcode''
      then (ArchetypeCoding, 600)
      else if cat = ''system_design'' \<or> cat = ''architecture'' \<or> contains content ''architecture''
         \<or> contains content ''system design'' \<or> contains content ''distributed system''
         \<or> contains content ''scalability'' \<or> contains content ''high throughput''
      then (ArchetypeSystemDesign, 300)
      else (ArchetypeConversational, 120))"

section \<open>Construction and the status machine\<close>

definition NewInterview ::
  "uuid \<Rightarrow> time \<Rightarrow> uuid \<Rightarrow> uuid \<Rightarrow> Question list \<Rightarrow> time \<Rightarrow> Interview result" where
  "NewInterview newid now orgID applicationID questions expiresAt =
     (if questions = [] then
        Inl (DomainError ''INTERVIEW_NO_QUESTIONS'' ''interview requires at least one question'')
      else Inr \<lparr>iv_ID = newid, iv_CreatedAt = now, iv_UpdatedAt = zero_time, iv_OrgID = orgID, iv_ApplicationID = applicationID,
        iv_Status = Pending, Questions = questions, Answers = [], QAPairs = [], LastQuestionIdx = 0,
        ContextVersion = 0, iv_Evaluation = None, ConsentGiven = False, HumanRequested = False,
        ProctoringEvents = [], iv_Summary = empty_summary, CodingSessions = [], StartedAt = None,
        CompletedAt = None, ExpiresAt = Some expiresAt, lastActivity = now\<rparr>)"

definition Start :: "time \<Rightarrow> Interview \<Rightarrow> Interview result" where
  "Start now iv = (case iv_Status iv of
     Pending \<Rightarrow> Inr (iv\<lparr>iv_Status := InProgress, StartedAt := Some now, lastActivity := now\<rparr>)
   | InProgress \<Rightarrow> Inr iv
   | _ \<Rightarrow> Inl (DomainError ''INTERVIEW_NOT_STARTABLE''
           (''interview cannot start from '' @ status_text (iv_Status iv))))"

definition Complete :: "time \<Rightarrow> Interview \<Rightarrow> Interview result" where
  "Complete now iv =
     (if iv_Status iv = Expired \<or> iv_Status iv = Completed then
        Inl (DomainError ''INTERVIEW_NOT_COMPLETABLE''
          (''interview cannot be completed from status '' @ status_text (iv_Status iv)))
      else if iv_Status iv \<noteq> InProgress then
        Inl (DomainError ''INTERVIEW_NOT_IN_PROGRESS'' ''interview is not in progress'')
      else Inr (iv\<lparr>iv_Status := Completed, CompletedAt := Some now\<rparr>))"

definition past_deadline :: "time \<Rightarrow> Interview \<Rightarrow> bool" where
  "past_deadline now iv = (case ExpiresAt iv of None \<Rightarrow> False | Some e \<Rightarrow> e < now)"

definition past_cap :: "time \<Rightarrow> Interview \<Rightarrow> bool" where
  "past_cap now iv = (case StartedAt iv of None \<Rightarrow> False
     | Some s \<Rightarrow> MaxInterviewDuration \<le> time_sub now s)"

definition ExpireIfNeeded :: "time \<Rightarrow> Interview \<Rightarrow> Interview" where
  "ExpireIfNeeded now iv =
     (if iv_Status iv \<noteq> Completed \<and> iv_Status iv \<noteq> Expired then
        (if past_deadline now iv then iv\<lparr>iv_Status := Expired\<rparr>
         else if past_cap now iv then iv\<lparr>iv_Status := Expired\<rparr> else iv)
      else iv)"

definition IsIdle :: "time \<Rightarrow> duration \<Rightarrow> Interview \<Rightarrow> bool" where
  "IsIdle now timeout iv \<longleftrightarrow> iv_Status iv = InProgress \<and> timeout \<le> time_sub now (lastActivity iv)"

definition Touch :: "time \<Rightarrow> Interview \<Rightarrow> Interview" where
  "Touch now iv = iv\<lparr>lastActivity := now\<rparr>"

definition SessionRemaining :: "time \<Rightarrow> Interview \<Rightarrow> int" where
  "SessionRemaining now iv = (case StartedAt iv of
     None \<Rightarrow> int_seconds MaxInterviewDuration
   | Some s \<Rightarrow> (let remaining = MaxInterviewDuration - time_sub now s in
       if remaining \<le> 0 then 0 else int_seconds remaining))"

section \<open>The dialogue\<close>

definition topic :: "nat \<Rightarrow> Answer list \<Rightarrow> Answer list" where
  "topic k ans = filter (\<lambda>a. a_Idx a = k) ans"

definition TopicTurnCount :: "nat \<Rightarrow> Interview \<Rightarrow> nat" where
  "TopicTurnCount idx iv = length (topic idx (Answers iv))"

definition CurrentTopicIdx :: "Interview \<Rightarrow> nat" where
  "CurrentTopicIdx iv = (if length (Questions iv) \<le> LastQuestionIdx iv then length (Questions iv)
     else LastQuestionIdx iv + 1)"

definition ResumeIdx :: "Interview \<Rightarrow> nat" where
  "ResumeIdx iv = LastQuestionIdx iv + 1"

definition NextQuestion :: "Interview \<Rightarrow> Question option" where
  "NextQuestion iv = (if iv_Status iv \<noteq> InProgress then None
     else if length (Questions iv) \<le> LastQuestionIdx iv then None
     else Some (Questions iv ! LastQuestionIdx iv))"

definition reply :: string where "reply = ''reply''"
definition advance :: string where "advance = ''advance''"

text \<open>On success: the aggregate, the question to ask next, whether the topic closed, the turn, the maximum.\<close>

definition ProcessTopicDialogue ::
  "time \<Rightarrow> string \<Rightarrow> string \<Rightarrow> PacingMetrics option \<Rightarrow> Interview
     \<Rightarrow> (Interview \<times> Question option \<times> bool \<times> nat \<times> nat) result" where
  "ProcessTopicDialogue now content action pacing iv =
     (if iv_Status iv \<noteq> InProgress then
        Inl (DomainError ''INTERVIEW_NOT_IN_PROGRESS'' ''interview is not in progress'')
      else if trim_space content = [] then Inl (DomainError ''ANSWER_EMPTY'' ''answer is empty'')
      else if length (Questions iv) \<le> LastQuestionIdx iv then
        Inl (DomainError ''NO_ACTIVE_QUESTION'' ''all interview questions completed'')
      else
        (let currentIdx = LastQuestionIdx iv + 1;
             turn = TopicTurnCount currentIdx iv + 1;
             action = (if action \<noteq> reply then advance else action);
             iv = iv\<lparr>Answers := Answers iv @ [\<lparr>a_Idx = currentIdx, a_Content = content,
                        a_AnsweredAt = now, a_Pacing = pacing, a_Action = action, a_Turn = turn\<rparr>],
                     lastActivity := now\<rparr>
         in if action = advance \<or> MaxTurnsPerTopic \<le> turn then
              (let iv = iv\<lparr>LastQuestionIdx := currentIdx\<rparr> in
               Inr (iv, NextQuestion iv, True, turn, MaxTurnsPerTopic))
            else Inr (iv, NextQuestion iv, False, turn, MaxTurnsPerTopic)))"

definition AnswerWithPacing ::
  "time \<Rightarrow> string \<Rightarrow> PacingMetrics option \<Rightarrow> Interview \<Rightarrow> Interview result" where
  "AnswerWithPacing now content pacing iv =
     and_then (ProcessTopicDialogue now content advance pacing iv) (\<lambda>r. Inr (fst r))"

definition renumber :: "nat \<Rightarrow> Question list \<Rightarrow> Question list" where
  "renumber from qs = map (\<lambda>(i, q). if from \<le> i then q\<lparr>q_Idx := i + 1\<rparr> else q) (enumerate 0 qs)"

definition InsertProbeAfter ::
  "int \<Rightarrow> string \<Rightarrow> string \<Rightarrow> string \<Rightarrow> Interview \<Rightarrow> (Interview \<times> Question) result" where
  "InsertProbeAfter currentIdx content category skill iv =
     (if iv_Status iv \<noteq> InProgress then
        Inl (DomainError ''INTERVIEW_NOT_IN_PROGRESS'' ''interview is not in progress'')
      else if currentIdx < 0 \<or> int (length (Questions iv)) < currentIdx then
        Inl (DomainError ''INTERVIEW_PROBE_INDEX'' ''invalid probe position'')
      else
        (let insertAt = nat currentIdx;
             q = \<lparr>q_Idx = insertAt + 1, q_Content = content, q_Category = category, q_Skill = skill,
                  q_IsProbe = True, q_Context = [], q_Expectation = []\<rparr>
         in Inr (iv\<lparr>Questions := renumber (insertAt + 1)
                       (take insertAt (Questions iv) @ q # drop insertAt (Questions iv))\<rparr>, q)))"

section \<open>Telemetry\<close>

definition RecordProctoringEvent :: "time \<Rightarrow> ProctoringEvent \<Rightarrow> Interview \<Rightarrow> Interview" where
  "RecordProctoringEvent now ev iv =
     (let ev = (if pe_Timestamp ev = zero_time then ev\<lparr>pe_Timestamp := now\<rparr> else ev);
          evs = ProctoringEvents iv @ [ev]
      in Touch now (iv\<lparr>ProctoringEvents := evs, iv_Summary := CalculateProctoringSummary evs\<rparr>))"

text \<open>\<open>Format(time.RFC3339)\<close> of a UTC instant (nanoseconds since 1970): the civil date of a day number.\<close>

definition pad :: "nat \<Rightarrow> int \<Rightarrow> string" where
  "pad n i = (let s = itoa i in replicate (n - length s) CHR ''0'' @ s)"

definition civil_date :: "int \<Rightarrow> int \<times> int \<times> int" where
  "civil_date days =
     (let z = days + 719468; era = z div 146097; doe = z mod 146097;
          yoe = (doe - doe div 1460 + doe div 36524 - doe div 146096) div 365;
          doy = doe - (365 * yoe + yoe div 4 - yoe div 100);
          mp = (5 * doy + 2) div 153; d = doy - (153 * mp + 2) div 5 + 1;
          m = (if mp < 10 then mp + 3 else mp - 9)
      in (yoe + era * 400 + (if m \<le> 2 then 1 else 0), m, d))"

definition RFC3339 :: "time \<Rightarrow> string" where
  "RFC3339 t = (let s = t div second; (y, m, d) = civil_date (s div 86400); r = s mod 86400 in
     pad 4 y @ ''-'' @ pad 2 m @ ''-'' @ pad 2 d @ ''T'' @ pad 2 (r div 3600) @ '':''
       @ pad 2 (r mod 3600 div 60) @ '':'' @ pad 2 (r mod 60) @ ''Z'')"

definition RecordCodingSession :: "time \<Rightarrow> CodingSession \<Rightarrow> Interview \<Rightarrow> Interview" where
  "RecordCodingSession now cs iv =
     (let cs = (if cs_SubmittedAt cs = [] then cs\<lparr>cs_SubmittedAt := RFC3339 now\<rparr> else cs)
      in Touch now (iv\<lparr>CodingSessions := CodingSessions iv @ [cs]\<rparr>))"

definition CandidateQACount :: "Interview \<Rightarrow> nat" where
  "CandidateQACount iv = length (QAPairs iv)"

section \<open>The transcript\<close>

record TranscriptPair =
  tp_Idx :: nat
  tp_Category :: string
  tp_Question :: string
  tp_Answer :: string

definition turn_line :: "nat \<Rightarrow> Answer \<Rightarrow> string" where
  "turn_line i a =
     (let turnNum = (if a_Turn a = 0 then i + 1 else a_Turn a);
          act = (if a_Action a = [] then reply else a_Action a)
      in ''[Candidate Turn '' @ itoa (int turnNum) @ '' ('' @ act @ '')]: '' @ a_Content a)"

definition separator :: string where
  "separator = CHR 0x0A # ''---'' @ [CHR 0x0A]"

definition pair_answer :: "Answer list \<Rightarrow> string" where
  "pair_answer ans =
     (if length ans = 1 \<and> a_Turn (hd ans) \<le> 1 \<and> (a_Action (hd ans) = [] \<or> a_Action (hd ans) = advance)
      then a_Content (hd ans)
      else join_with separator (map (\<lambda>(i, a). turn_line i a) (enumerate 0 ans)))"

definition TranscriptPairs :: "Interview \<Rightarrow> TranscriptPair list" where
  "TranscriptPairs iv =
     (let ansByQ = (\<lambda>k. topic k (filter (\<lambda>a. 1 \<le> a_Idx a \<and> a_Idx a \<le> length (Questions iv)) (Answers iv)))
      in map (\<lambda>q. \<lparr>tp_Idx = q_Idx q, tp_Category = q_Category q, tp_Question = q_Content q,
                   tp_Answer = pair_answer (ansByQ (q_Idx q))\<rparr>)
             (filter (\<lambda>q. ansByQ (q_Idx q) \<noteq> []) (Questions iv)))"

end
