(* ===== verification/Interview_Dialogue.thy ===== *)
theory Interview_Dialogue
  imports Interview_Domain
begin

text \<open>
  The interview aggregate as a state machine: its invariant, the step relation of its operations, and
  what every reachable interview satisfies. Service code changes an interview only by these steps
  (\<open>Interview_Service\<close> rests on the lemmas below).
\<close>

section \<open>The invariant\<close>

definition numbered :: "Answer list \<Rightarrow> bool" where
  "numbered ts \<longleftrightarrow> map a_Turn ts = [1..<Suc (length ts)]"

text \<open>A topic still under discussion holds fewer than three turns, all of them replies.\<close>

definition open_topic :: "Answer list \<Rightarrow> bool" where
  "open_topic ts \<longleftrightarrow> length ts < MaxTurnsPerTopic \<and> list_all (\<lambda>a. a_Action a = reply) ts \<and> numbered ts"

text \<open>A closed one was closed by its last turn: an advance, or the third reply.\<close>

definition closed_topic :: "Answer list \<Rightarrow> bool" where
  "closed_topic ts \<longleftrightarrow> ts \<noteq> [] \<and> open_topic (butlast ts) \<and> numbered ts
     \<and> (a_Action (last ts) = advance \<or> length ts = MaxTurnsPerTopic)"

definition wf_dialogue :: "nat \<Rightarrow> nat \<Rightarrow> Answer list \<Rightarrow> bool" where
  "wf_dialogue n cur ans \<longleftrightarrow> cur \<le> n \<and> sorted (map a_Idx ans)
     \<and> list_all (\<lambda>a. 1 \<le> a_Idx a \<and> a_Idx a \<le> cur + 1) ans
     \<and> (\<forall>k \<in> {1..cur}. closed_topic (topic k ans))
     \<and> open_topic (topic (cur + 1) ans) \<and> (cur = n \<longrightarrow> topic (cur + 1) ans = [])"

definition wf_questions :: "Question list \<Rightarrow> bool" where
  "wf_questions qs \<longleftrightarrow> qs \<noteq> [] \<and> map q_Idx qs = [1..<Suc (length qs)]"

definition wf_status :: "Interview \<Rightarrow> bool" where
  "wf_status iv = (case iv_Status iv of
     Pending \<Rightarrow> StartedAt iv = None \<and> CompletedAt iv = None \<and> Answers iv = [] \<and> LastQuestionIdx iv = 0
   | InProgress \<Rightarrow> StartedAt iv \<noteq> None \<and> CompletedAt iv = None
   | Completed \<Rightarrow> StartedAt iv \<noteq> None \<and> CompletedAt iv \<noteq> None
   | Expired \<Rightarrow> CompletedAt iv = None)"

definition wf_interview :: "Interview \<Rightarrow> bool" where
  "wf_interview iv \<longleftrightarrow> wf_questions (Questions iv) \<and> wf_status iv
     \<and> wf_dialogue (length (Questions iv)) (LastQuestionIdx iv) (Answers iv)"

lemmas wf_defs = wf_interview_def wf_status_def wf_questions_def

section \<open>Topics\<close>

lemma topic_append [simp]: "topic k (xs @ ys) = topic k xs @ topic k ys"
  by (simp add: topic_def)

lemma topic_Nil [simp]: "topic k [] = []"
  by (simp add: topic_def)

lemma topic_single: "topic k [a] = (if a_Idx a = k then [a] else [])"
  by (simp add: topic_def)

lemma topic_idx: "a \<in> set (topic k ans) \<Longrightarrow> a_Idx a = k \<and> a \<in> set ans"
  by (simp add: topic_def)

lemma topic_self: "a \<in> set ans \<Longrightarrow> a \<in> set (topic (a_Idx a) ans)"
  by (simp add: topic_def)

lemma topic_beyond: "list_all (\<lambda>a. a_Idx a \<le> n) ans \<Longrightarrow> n < k \<Longrightarrow> topic k ans = []"
  by (induction ans) (auto simp: topic_def)

lemma topic_filter_range:
  "topic k (filter (\<lambda>a. 1 \<le> a_Idx a \<and> a_Idx a \<le> n) ans) = (if 1 \<le> k \<and> k \<le> n then topic k ans else [])"
  by (induction ans) (auto simp: topic_def)

lemma length_topics:
  "finite K \<Longrightarrow> list_all (\<lambda>a. a_Idx a \<in> K) ans \<Longrightarrow> length ans = (\<Sum>k\<in>K. length (topic k ans))"
proof (induction ans)
  case (Cons a ans)
  have "(\<Sum>k\<in>K. length (topic k (a # ans))) = (\<Sum>k\<in>K. (if a_Idx a = k then 1 else 0) + length (topic k ans))"
    by (rule sum.cong) (auto simp: topic_def)
  with Cons show ?case by (simp add: sum.distrib sum.delta)
qed (simp add: topic_def)

lemma numbered_snoc: "numbered ts \<Longrightarrow> a_Turn a = length ts + 1 \<Longrightarrow> numbered (ts @ [a])"
  by (simp add: numbered_def)

lemma open_topic_Nil [simp]: "open_topic []"
  by (simp add: open_topic_def numbered_def MaxTurnsPerTopic_def)

lemma closed_topic_length: "closed_topic ts \<Longrightarrow> length ts \<le> MaxTurnsPerTopic"
  by (cases ts rule: rev_cases) (auto simp: closed_topic_def open_topic_def)

section \<open>Operations keep the invariant\<close>

lemma wf_dialogue_length:
  assumes "wf_dialogue n cur ans"
  shows "length ans \<le> MaxTurnsPerTopic * n"
proof -
  let ?K = "{1..cur + 1}"
  from assms have idx: "list_all (\<lambda>a. a_Idx a \<in> ?K) ans"
    by (auto simp: wf_dialogue_def list_all_iff)
  have closed: "length (topic k ans) \<le> MaxTurnsPerTopic" if "k \<in> {1..cur}" for k
    using assms that by (intro closed_topic_length) (auto simp: wf_dialogue_def list_all_iff)
  have "length ans = (\<Sum>k\<in>?K. length (topic k ans))"
    using idx by (intro length_topics) auto
  also have "\<dots> = (\<Sum>k\<in>{1..cur}. length (topic k ans)) + length (topic (cur + 1) ans)"
    by (simp add: sum.atLeast_Suc_atMost sum.nat_ivl_Suc' atLeastAtMostSuc_conv)
  also have "\<dots> \<le> (\<Sum>k\<in>{1..cur}. MaxTurnsPerTopic) + length (topic (cur + 1) ans)"
    by (intro add_right_mono sum_mono closed)
  also have "\<dots> = cur * MaxTurnsPerTopic + length (topic (cur + 1) ans)" by simp
  also have "\<dots> \<le> MaxTurnsPerTopic * n"
  proof (cases "cur = n")
    case False
    with assms have "Suc cur \<le> n" "length (topic (cur + 1) ans) \<le> MaxTurnsPerTopic"
      by (auto simp: wf_dialogue_def open_topic_def)
    then show ?thesis
      by (metis add.commute add_le_mono le_refl mult.commute mult_Suc mult_le_mono2 order_trans
          add_le_cancel_right)
  qed (use assms in \<open>simp add: wf_dialogue_def\<close>)
  finally show ?thesis .
qed

text \<open>One more turn on the open topic: it stays open, or closes and the cursor moves.\<close>

lemma wf_dialogue_turn:
  assumes wf: "wf_dialogue n cur ans" and lt: "cur < n"
    and a: "a_Idx a = cur + 1" "a_Turn a = length (topic (cur + 1) ans) + 1"
      "a_Action a = reply \<or> a_Action a = advance"
  shows "(a_Action a = advance \<or> MaxTurnsPerTopic \<le> a_Turn a) \<Longrightarrow> wf_dialogue n (cur + 1) (ans @ [a])"
    and "\<not> (a_Action a = advance \<or> MaxTurnsPerTopic \<le> a_Turn a) \<Longrightarrow> wf_dialogue n cur (ans @ [a])"
proof -
  let ?t = "topic (cur + 1) ans"
  from wf have idx: "list_all (\<lambda>a. a_Idx a \<le> cur + 1) ans" and o1: "open_topic ?t"
    and sorted: "sorted (map a_Idx ans)"
    by (auto simp: wf_dialogue_def list_all_iff)
  have num: "numbered (?t @ [a])" using o1 a by (auto simp: open_topic_def intro: numbered_snoc)
  have srt: "sorted (map a_Idx (ans @ [a]))"
    using sorted idx a by (auto simp: sorted_append list_all_iff)
  have tops: "topic k (ans @ [a]) = (if k = cur + 1 then ?t @ [a] else topic k ans)" for k
    using a by (auto simp: topic_single)
  show "wf_dialogue n (cur + 1) (ans @ [a])" if c: "a_Action a = advance \<or> MaxTurnsPerTopic \<le> a_Turn a"
  proof -
    have cl: "closed_topic (?t @ [a])"
      using c o1 num a by (auto simp: closed_topic_def open_topic_def)
    have "topic (cur + 2) ans = []" using topic_beyond [OF idx] by simp
    then show ?thesis
      using wf lt srt cl a unfolding wf_dialogue_def by (auto simp: tops list_all_iff topic_single)
  qed
  show "wf_dialogue n cur (ans @ [a])" if c: "\<not> (a_Action a = advance \<or> MaxTurnsPerTopic \<le> a_Turn a)"
  proof -
    have "open_topic (?t @ [a])" using c o1 num a by (auto simp: open_topic_def)
    then show ?thesis
      using wf lt srt a unfolding wf_dialogue_def by (auto simp: tops list_all_iff topic_single)
  qed
qed

lemma ProcessTopicDialogue_cases:
  assumes "ProcessTopicDialogue now content action pacing iv = Inr (iv', nxt, isDone, turn, mx)"
  obtains a where "iv_Status iv = InProgress" "trim_space content \<noteq> []"
    "LastQuestionIdx iv < length (Questions iv)" "a_Idx a = LastQuestionIdx iv + 1" "a_Content a = content"
    "a_Turn a = length (topic (LastQuestionIdx iv + 1) (Answers iv)) + 1"
    "a_Action a = (if action = reply then reply else advance)"
    "isDone \<longleftrightarrow> a_Action a = advance \<or> MaxTurnsPerTopic \<le> a_Turn a" "turn = a_Turn a" "mx = MaxTurnsPerTopic"
    "iv' = iv\<lparr>Answers := Answers iv @ [a], lastActivity := now,
        LastQuestionIdx := (if isDone then LastQuestionIdx iv + 1 else LastQuestionIdx iv)\<rparr>"
    "nxt = NextQuestion iv'"
proof -
  let ?c = "LastQuestionIdx iv + 1"
  let ?a = "\<lparr>a_Idx = ?c, a_Content = content, a_AnsweredAt = now, a_Pacing = pacing,
      a_Action = (if action \<noteq> reply then advance else action),
      a_Turn = length (topic ?c (Answers iv)) + 1\<rparr>"
  have g: "iv_Status iv = InProgress" "trim_space content \<noteq> []" "LastQuestionIdx iv < length (Questions iv)"
    using assms by (auto simp: ProcessTopicDialogue_def split: if_splits)
  then have r: "ProcessTopicDialogue now content action pacing iv =
     (let iv1 = iv\<lparr>Answers := Answers iv @ [?a], lastActivity := now\<rparr> in
      if a_Action ?a = advance \<or> MaxTurnsPerTopic \<le> a_Turn ?a
      then Inr (iv1\<lparr>LastQuestionIdx := ?c\<rparr>, NextQuestion (iv1\<lparr>LastQuestionIdx := ?c\<rparr>), True,
        a_Turn ?a, MaxTurnsPerTopic)
      else Inr (iv1, NextQuestion iv1, False, a_Turn ?a, MaxTurnsPerTopic))"
    by (simp add: ProcessTopicDialogue_def Let_def TopicTurnCount_def)
  show ?thesis
    by (rule that [of ?a]) (use g assms in \<open>simp_all add: r Let_def split: if_splits\<close>)
qed

lemma ProcessTopicDialogue_wf:
  assumes "ProcessTopicDialogue now content action pacing iv = Inr (iv', nxt, isDone, turn, mx)"
    and "wf_interview iv"
  shows "wf_interview iv'"
  using assms(1)
proof (rule ProcessTopicDialogue_cases)
  fix a
  assume *: "iv_Status iv = InProgress"
    "LastQuestionIdx iv < length (Questions iv)" "a_Idx a = LastQuestionIdx iv + 1"
    "a_Turn a = length (topic (LastQuestionIdx iv + 1) (Answers iv)) + 1"
    "a_Action a = (if action = reply then reply else advance)"
    "isDone \<longleftrightarrow> a_Action a = advance \<or> MaxTurnsPerTopic \<le> a_Turn a"
    "iv' = iv\<lparr>Answers := Answers iv @ [a], lastActivity := now,
        LastQuestionIdx := (if isDone then LastQuestionIdx iv + 1 else LastQuestionIdx iv)\<rparr>"
  from assms(2) have wf: "wf_dialogue (length (Questions iv)) (LastQuestionIdx iv) (Answers iv)"
    by (simp add: wf_interview_def)
  have act: "a_Action a = reply \<or> a_Action a = advance" using *(5) by simp
  note turn = wf_dialogue_turn [OF wf *(2-4) act]
  show ?thesis
    using turn * assms(2) by (cases isDone) (simp_all add: wf_interview_def wf_status_def)
qed

lemma length_renumber [simp]: "length (renumber k qs) = length qs"
  by (simp add: renumber_def)

lemma renumber_nth: "i < length qs \<Longrightarrow>
    renumber k qs ! i = (if k \<le> i then (qs ! i)\<lparr>q_Idx := i + 1\<rparr> else qs ! i)"
  by (simp add: renumber_def nth_enumerate_eq)

lemma renumber_Nil [simp]: "renumber k qs = [] \<longleftrightarrow> qs = []"
  by (metis length_0_conv length_renumber)

lemma wf_questions_nth:
  "wf_questions qs \<longleftrightarrow> qs \<noteq> [] \<and> (\<forall>i < length qs. q_Idx (qs ! i) = i + 1)"
  by (simp add: wf_questions_def list_eq_iff_nth_eq [of "map q_Idx qs"] del: upt_Suc)

text \<open>The probe keeps the numbering; the questions before it and the order of the others stay.\<close>

lemma InsertProbeAfter_cases:
  assumes "InsertProbeAfter i content category skill iv = Inr (iv', q)"
  shows "iv_Status iv = InProgress" "0 \<le> i" "i \<le> int (length (Questions iv))"
    "iv' = iv\<lparr>Questions := Questions iv'\<rparr>"
    "length (Questions iv') = length (Questions iv) + 1"
    "take (nat i) (Questions iv') = take (nat i) (Questions iv)"
    "Questions iv' ! nat i = q"
    "map (\<lambda>q. q\<lparr>q_Idx := 0\<rparr>) (drop (nat i + 1) (Questions iv')) =
       map (\<lambda>q. q\<lparr>q_Idx := 0\<rparr>) (drop (nat i) (Questions iv))"
    "q_Idx q = nat i + 1" "q_Content q = content" "q_IsProbe q"
proof -
  let ?n = "nat i" and ?qs = "Questions iv"
  from assms show "iv_Status iv = InProgress" "0 \<le> i" and le: "i \<le> int (length ?qs)"
    and "iv' = iv\<lparr>Questions := Questions iv'\<rparr>"
    and "q_Idx q = ?n + 1" "q_Content q = content" "q_IsProbe q"
    by (auto simp: InsertProbeAfter_def Let_def split: if_splits)
  from assms have Q: "Questions iv' = renumber (?n + 1) (take ?n ?qs @ q # drop ?n ?qs)"
    by (auto simp: InsertProbeAfter_def Let_def split: if_splits)
  from le show "length (Questions iv') = length ?qs + 1" by (auto simp: Q)
  from le have n: "?n \<le> length ?qs" by simp
  then show "take ?n (Questions iv') = take ?n ?qs" "Questions iv' ! ?n = q"
    by (auto simp: Q list_eq_iff_nth_eq renumber_nth nth_append)
  show "map (\<lambda>q. q\<lparr>q_Idx := 0\<rparr>) (drop (?n + 1) (Questions iv')) =
       map (\<lambda>q. q\<lparr>q_Idx := 0\<rparr>) (drop ?n ?qs)"
    using n by (auto simp: Q list_eq_iff_nth_eq renumber_nth nth_append)
qed

lemma InsertProbeAfter_questions:
  assumes "InsertProbeAfter i content category skill iv = Inr (iv', q)" "wf_questions (Questions iv)"
  shows "wf_questions (Questions iv')"
proof -
  from assms(1) have Q: "Questions iv' = renumber (nat i + 1)
      (take (nat i) (Questions iv) @ q # drop (nat i) (Questions iv))" and n: "nat i \<le> length (Questions iv)"
    by (auto simp: InsertProbeAfter_def Let_def split: if_splits)
  have "q_Idx q = nat i + 1" using InsertProbeAfter_cases(9) [OF assms(1)] .
  then show ?thesis
    using assms(2) n by (auto simp: wf_questions_nth Q renumber_nth nth_append nth_Cons')
qed

lemma wf_dialogue_more: "wf_dialogue n cur ans \<Longrightarrow> topic (cur + 1) ans = [] \<Longrightarrow> n \<le> m \<Longrightarrow> wf_dialogue m cur ans"
  by (auto simp: wf_dialogue_def)

lemma InsertProbeAfter_wf:
  assumes "InsertProbeAfter i content category skill iv = Inr (iv', q)" "wf_interview iv"
    and "topic (LastQuestionIdx iv + 1) (Answers iv) = []"
  shows "wf_interview iv'"
proof -
  note c = InsertProbeAfter_cases [OF assms(1)]
  obtain qs where "iv' = iv\<lparr>Questions := qs\<rparr>" using c(4) by blast
  then have eq: "iv_Status iv' = iv_Status iv" "Answers iv' = Answers iv"
    "LastQuestionIdx iv' = LastQuestionIdx iv" "StartedAt iv' = StartedAt iv"
    "CompletedAt iv' = CompletedAt iv"
    by simp_all
  from assms(2) have wd: "wf_dialogue (length (Questions iv)) (LastQuestionIdx iv) (Answers iv)"
    and wq: "wf_questions (Questions iv)" and ws: "wf_status iv"
    by (simp_all only: wf_interview_def)
  have "wf_dialogue (length (Questions iv')) (LastQuestionIdx iv) (Answers iv)"
    by (rule wf_dialogue_more [OF wd assms(3)]) (simp only: c(5) le_add1)
  moreover have "wf_questions (Questions iv')"
    using assms(1) wq by (rule InsertProbeAfter_questions)
  ultimately show ?thesis using ws by (simp add: wf_interview_def wf_status_def eq cong: Status.case_cong)
qed

section \<open>The step relation\<close>

text \<open>
  The service inserts a probe only when a topic has just closed: at the cursor, with no answer yet on
  the next topic.
\<close>

inductive iv_step :: "Interview \<Rightarrow> Interview \<Rightarrow> bool" where
  start: "Start now iv = Inr iv' \<Longrightarrow> iv_step iv iv'"
| dialogue: "ProcessTopicDialogue now content action pacing iv = Inr (iv', nxt, isDone, turn, mx)
    \<Longrightarrow> iv_step iv iv'"
| probe: "InsertProbeAfter (int (LastQuestionIdx iv)) content category skill iv = Inr (iv', q)
    \<Longrightarrow> topic (LastQuestionIdx iv + 1) (Answers iv) = [] \<Longrightarrow> iv_step iv iv'"
| complete: "Complete now iv = Inr iv' \<Longrightarrow> iv_step iv iv'"
| expire: "iv_step iv (ExpireIfNeeded now iv)"
| touch: "iv_step iv (Touch now iv)"
| proctoring: "iv_step iv (RecordProctoringEvent now ev iv)"
| coding: "iv_step iv (RecordCodingSession now cs iv)"

inductive iv_reachable :: "Interview \<Rightarrow> bool" where
  new: "NewInterview newid now orgID applicationID questions expiresAt = Inr iv \<Longrightarrow>
    map q_Idx questions = [1..<Suc (length questions)] \<Longrightarrow> iv_reachable iv"
| step: "iv_reachable iv \<Longrightarrow> iv_step iv iv' \<Longrightarrow> iv_reachable iv'"

lemma NewInterview_wf:
  assumes "NewInterview newid now orgID applicationID questions expiresAt = Inr iv"
    "map q_Idx questions = [1..<Suc (length questions)]"
  shows "wf_interview iv"
  using assms by (auto simp: NewInterview_def wf_defs wf_dialogue_def split: if_splits)

lemma Start_wf: "Start now iv = Inr iv' \<Longrightarrow> wf_interview iv \<Longrightarrow> wf_interview iv'"
  by (auto simp: Start_def wf_interview_def wf_status_def split: Status.splits)

lemma Complete_wf: "Complete now iv = Inr iv' \<Longrightarrow> wf_interview iv \<Longrightarrow> wf_interview iv'"
  by (auto simp: Complete_def wf_interview_def wf_status_def split: if_splits Status.splits)

lemma ExpireIfNeeded_wf: "wf_interview iv \<Longrightarrow> wf_interview (ExpireIfNeeded now iv)"
  by (auto simp: ExpireIfNeeded_def wf_interview_def wf_status_def split: if_splits Status.splits)

lemma telemetry_wf:
  "wf_interview iv \<Longrightarrow> wf_interview (Touch now iv)"
  "wf_interview iv \<Longrightarrow> wf_interview (RecordProctoringEvent now ev iv)"
  "wf_interview iv \<Longrightarrow> wf_interview (RecordCodingSession now cs iv)"
  by (simp_all add: Touch_def RecordProctoringEvent_def RecordCodingSession_def Let_def
      wf_interview_def wf_status_def cong: Status.case_cong)

lemma iv_step_wf: "iv_step iv iv' \<Longrightarrow> wf_interview iv \<Longrightarrow> wf_interview iv'"
  by (induction rule: iv_step.induct)
    (blast intro: Start_wf ProcessTopicDialogue_wf InsertProbeAfter_wf Complete_wf ExpireIfNeeded_wf
      telemetry_wf)+

text \<open>Statuses only move forward, and nothing leaves a terminal one.\<close>

fun rank :: "Status \<Rightarrow> nat" where
  "rank Pending = 0" | "rank InProgress = 1" | "rank Completed = 2" | "rank Expired = 2"

lemma terminal_rank: "2 \<le> rank s \<longleftrightarrow> s = Completed \<or> s = Expired"
  by (cases s) auto

lemma iv_step_status:
  "iv_step iv iv' \<Longrightarrow> iv_Status iv' = iv_Status iv \<or> rank (iv_Status iv) < rank (iv_Status iv')"
proof (induction rule: iv_step.induct)
  case (dialogue now content action pacing iv iv')
  then show ?case by (elim ProcessTopicDialogue_cases) auto
next
  case (probe iv content category skill iv')
  obtain qs where "iv' = iv\<lparr>Questions := qs\<rparr>" using InsertProbeAfter_cases(4) [OF probe(1)] by blast
  then show ?case by simp
qed (auto simp: Start_def Complete_def ExpireIfNeeded_def Touch_def RecordProctoringEvent_def
    RecordCodingSession_def Let_def not_le not_less terminal_rank split: Status.splits if_splits)

lemma rank_le: "rank s \<le> 2"
  by (cases s) auto

inductive_cases iv_stepE: "iv_step iv iv'"

section \<open>The transcript\<close>

lemma TranscriptPairs_wf:
  assumes "wf_questions (Questions iv)"
  shows "TranscriptPairs iv = map (\<lambda>q. \<lparr>tp_Idx = q_Idx q, tp_Category = q_Category q,
      tp_Question = q_Content q, tp_Answer = pair_answer (topic (q_Idx q) (Answers iv))\<rparr>)
    (filter (\<lambda>q. topic (q_Idx q) (Answers iv) \<noteq> []) (Questions iv))"
proof -
  have r: "1 \<le> q_Idx q \<and> q_Idx q \<le> length (Questions iv)" if "q \<in> set (Questions iv)" for q
    using assms that by (auto simp: wf_questions_nth in_set_conv_nth)
  show ?thesis
    unfolding TranscriptPairs_def Let_def topic_filter_range
    using r by (auto cong: filter_cong)
qed

lemma TranscriptPairs_idx:
  assumes "wf_questions (Questions iv)"
  shows "map tp_Idx (TranscriptPairs iv) =
    filter (\<lambda>k. topic k (Answers iv) \<noteq> []) [1..<Suc (length (Questions iv))]"
proof -
  have "map tp_Idx (TranscriptPairs iv) =
      filter (\<lambda>k. topic k (Answers iv) \<noteq> []) (map q_Idx (Questions iv))"
    by (simp add: TranscriptPairs_wf [OF assms] filter_map o_def)
  then show ?thesis using assms by (simp add: wf_questions_def)
qed

lemma wf_topic_nonempty:
  assumes "wf_dialogue n cur ans" "1 \<le> k"
  shows "topic k ans \<noteq> [] \<longleftrightarrow> k \<le> cur \<or> k = cur + 1 \<and> topic (cur + 1) ans \<noteq> []"
proof -
  have "topic k ans = []" if "cur + 1 < k"
    using assms that by (intro topic_beyond [of "cur + 1"]) (auto simp: wf_dialogue_def list_all_iff)
  moreover have "topic k ans \<noteq> []" if "k \<le> cur"
    using assms that by (auto simp: wf_dialogue_def closed_topic_def)
  ultimately show ?thesis by (metis le_neq_implies_less not_le_imp_less Suc_eq_plus1 le_Suc_eq)
qed

lemma filter_upto: "m \<le> n \<Longrightarrow> filter (\<lambda>k. k \<le> m) [1..<Suc n] = [1..<Suc m]"
  by (induction n) (auto simp: le_Suc_eq filter_empty_conv)

text \<open>Topics answered so far: the closed ones, and the open one once it holds a turn.\<close>

definition answered :: "Interview \<Rightarrow> nat" where
  "answered iv = LastQuestionIdx iv + (if topic (LastQuestionIdx iv + 1) (Answers iv) = [] then 0 else 1)"

lemma wf_transcript_idx:
  assumes "wf_interview iv"
  shows "map tp_Idx (TranscriptPairs iv) = [1..<Suc (answered iv)]"
proof -
  from assms have q: "wf_questions (Questions iv)"
    and d: "wf_dialogue (length (Questions iv)) (LastQuestionIdx iv) (Answers iv)"
    by (simp_all add: wf_interview_def)
  have le: "answered iv \<le> length (Questions iv)"
    using d by (cases "LastQuestionIdx iv = length (Questions iv)") (auto simp: answered_def wf_dialogue_def)
  have "filter (\<lambda>k. topic k (Answers iv) \<noteq> []) [1..<Suc (length (Questions iv))]
      = filter (\<lambda>k. k \<le> answered iv) [1..<Suc (length (Questions iv))]"
    by (rule filter_cong) (use wf_topic_nonempty [OF d] in \<open>auto simp: answered_def le_Suc_eq\<close>)
  with TranscriptPairs_idx [OF q] filter_upto [OF le] show ?thesis by simp
qed

lemma answered_le:
  "wf_dialogue (length (Questions iv)) (LastQuestionIdx iv) (Answers iv) \<Longrightarrow> topic k (Answers iv) \<noteq> [] \<Longrightarrow>
    1 \<le> k \<Longrightarrow> k \<le> length (Questions iv)"
  using wf_topic_nonempty [of "length (Questions iv)" "LastQuestionIdx iv" "Answers iv" k]
  by (cases "LastQuestionIdx iv = length (Questions iv)") (auto simp: wf_dialogue_def)

lemma pair_answer_contains:
  assumes "a \<in> set ts"
  shows "contains (pair_answer ts) (a_Content a)"
proof (cases "pair_answer ts = a_Content (hd ts) \<and> length ts = 1")
  case True
  with assms have "a = hd ts" by (cases ts) auto
  with True show ?thesis by simp
next
  case False
  then have p: "pair_answer ts = join_with separator (map (\<lambda>(i, a). turn_line i a) (enumerate 0 ts))"
    by (auto simp: pair_answer_def)
  from assms obtain i where "i < length ts" "ts ! i = a" by (auto simp: in_set_conv_nth)
  then have i: "(i, a) \<in> set (enumerate 0 ts)"
    by (metis add_0 length_enumerate nth_enumerate_eq nth_mem)
  then have "turn_line i a \<in> set (map (\<lambda>(i, a). turn_line i a) (enumerate 0 ts))" by force
  then have "contains (pair_answer ts) (turn_line i a)" unfolding p by (rule join_with_contains)
  moreover have "contains (turn_line i a) (a_Content a)"
    unfolding turn_line_def Let_def by (intro contains_append_right contains_refl)
  ultimately show ?thesis by (rule contains_trans)
qed

lemma transcript_complete:
  assumes "wf_interview iv" "a \<in> set (Answers iv)"
  shows "\<exists>p \<in> set (TranscriptPairs iv). tp_Idx p = a_Idx a \<and> contains (tp_Answer p) (a_Content a)"
proof -
  from assms have q: "wf_questions (Questions iv)"
    and d: "wf_dialogue (length (Questions iv)) (LastQuestionIdx iv) (Answers iv)"
    by (simp_all add: wf_interview_def)
  have a: "a \<in> set (topic (a_Idx a) (Answers iv))" using assms by (simp add: topic_self)
  then have "topic (a_Idx a) (Answers iv) \<noteq> []" by auto
  moreover have "1 \<le> a_Idx a" using d assms by (auto simp: wf_dialogue_def list_all_iff)
  ultimately have r: "1 \<le> a_Idx a" "a_Idx a \<le> length (Questions iv)"
    using answered_le [OF d] by blast+
  let ?q = "Questions iv ! (a_Idx a - 1)"
  have "?q \<in> set (Questions iv)" "q_Idx ?q = a_Idx a"
    using r q by (auto simp: wf_questions_nth)
  with a show ?thesis
    unfolding TranscriptPairs_wf [OF q]
    by (intro bexI [of _ "\<lparr>tp_Idx = q_Idx ?q, tp_Category = q_Category ?q, tp_Question = q_Content ?q,
          tp_Answer = pair_answer (topic (q_Idx ?q) (Answers iv))\<rparr>"])
      (auto intro: pair_answer_contains intro!: image_eqI [of _ _ ?q])
qed

section \<open>Properties\<close>

definition demo_questions :: "Question list" where
  "demo_questions = map (\<lambda>k. \<lparr>q_Idx = k, q_Content = ''Why Go?'', q_Category = ''technical'',
     q_Skill = ''go'', q_IsProbe = False, q_Context = [], q_Expectation = []\<rparr>) [1, 2]"

definition demo_new :: Interview where
  "demo_new = projr (NewInterview ''iv'' 0 ''org'' ''app'' demo_questions 1000)"

definition demo_started :: Interview where
  "demo_started = projr (Start 10 demo_new)"

definition demo_replied :: Interview where
  "demo_replied = fst (projr (ProcessTopicDialogue 20 ''because'' reply None demo_started))"

definition demo_advanced :: Interview where
  "demo_advanced = fst (projr (ProcessTopicDialogue 30 ''and so on'' advance None demo_replied))"

lemma trim_demo [simp]: "trim_space ''because'' \<noteq> []" "trim_space ''and so on'' \<noteq> []"
  by code_simp+

lemmas demo_defs = demo_questions_def demo_new_def demo_started_def demo_replied_def demo_advanced_def
  NewInterview_def Start_def ProcessTopicDialogue_def Let_def TopicTurnCount_def topic_def reply_def
  advance_def MaxTurnsPerTopic_def

lemma demo_reachable: "iv_reachable demo_new" "iv_reachable demo_started" "iv_reachable demo_replied"
    "iv_reachable demo_advanced"
proof -
  show n: "iv_reachable demo_new"
    by (rule iv_reachable.new [of "''iv''" 0 "''org''" "''app''" demo_questions 1000])
      (simp_all add: demo_new_def NewInterview_def demo_questions_def)
  have "iv_step demo_new demo_started"
    by (rule iv_step.start [of 10]) (simp add: demo_defs)
  with n show s: "iv_reachable demo_started" by (rule iv_reachable.step)
  have "\<exists>r. ProcessTopicDialogue 20 ''because'' reply None demo_started = Inr (demo_replied, r)"
    by (auto simp: demo_defs)
  then have "iv_step demo_started demo_replied" by (metis iv_step.dialogue surj_pair)
  with s show r: "iv_reachable demo_replied" by (rule iv_reachable.step)
  have "\<exists>r. ProcessTopicDialogue 30 ''and so on'' advance None demo_replied = Inr (demo_advanced, r)"
    by (auto simp: demo_defs)
  then have "iv_step demo_replied demo_advanced" by (metis iv_step.dialogue surj_pair)
  with r show "iv_reachable demo_advanced" by (rule iv_reachable.step)
qed

lemma iv_reachable_wf: "iv_reachable iv \<Longrightarrow> wf_interview iv"
  by (induction rule: iv_reachable.induct) (blast intro: NewInterview_wf iv_step_wf)+

text \<open>
  Property C8. Every reachable interview is well formed: questions are numbered from 1, the cursor is
  within them, every question before the cursor was closed by an advance or by its third turn, the
  question at the cursor has fewer than three turns (replies all), turns are numbered from 1, no later
  question has an answer, and the timestamps agree with the status. So the dialogue is bounded: there
  are never more than three answers per question.
\<close>

theorem reachable_interview_wf:
  assumes "iv_reachable iv"
  shows "wf_interview iv \<and> length (Answers iv) \<le> MaxTurnsPerTopic * length (Questions iv)"
proof -
  from assms have wf: "wf_interview iv" by (rule iv_reachable_wf)
  then have "wf_dialogue (length (Questions iv)) (LastQuestionIdx iv) (Answers iv)"
    by (simp add: wf_interview_def)
  with wf show ?thesis by (simp add: wf_dialogue_length)
qed

lemma reachable_interview_wf_witness:
  "wf_interview demo_advanced \<and> length (Answers demo_advanced) = 2"
  using reachable_interview_wf [OF demo_reachable(4)] by (simp add: demo_defs)

text \<open>
  The status only moves forward (pending, in progress, then completed or expired); no
  operation leaves a completed or expired interview.
\<close>

theorem interview_status_monotone:
  assumes "iv_step iv iv'"
  shows "(iv_Status iv' = iv_Status iv \<or> rank (iv_Status iv) < rank (iv_Status iv'))
    \<and> (iv_Status iv \<in> {Completed, Expired} \<longrightarrow> iv_Status iv' = iv_Status iv)"
  using iv_step_status [OF assms] rank_le [of "iv_Status iv'"] terminal_rank [of "iv_Status iv"]
  by (auto simp: not_less)

lemma interview_status_monotone_witness:
  "iv_Status (ExpireIfNeeded 2000 demo_started) = Expired
   \<and> iv_Status (Touch 3000 (ExpireIfNeeded 2000 demo_started)) = Expired"
  using interview_status_monotone [OF iv_step.touch [of "ExpireIfNeeded 2000 demo_started" 3000]]
  by (simp add: demo_defs ExpireIfNeeded_def past_deadline_def)



text \<open>
  Property C11. Inserting a probe puts it at the given position, leaves the questions before it alone,
  shifts the others by one keeping their content and order, and keeps the numbering 1, 2, 3, ...
\<close>

theorem InsertProbeAfter_correct:
  assumes "InsertProbeAfter i content category skill iv = Inr (iv', q)"
  shows "take (nat i) (Questions iv') = take (nat i) (Questions iv) \<and> Questions iv' ! nat i = q
    \<and> map q_Content (drop (nat i + 1) (Questions iv')) = map q_Content (drop (nat i) (Questions iv))
    \<and> q_Content q = content \<and> q_IsProbe q
    \<and> (wf_questions (Questions iv) \<longrightarrow> wf_questions (Questions iv'))"
proof -
  note c = InsertProbeAfter_cases [OF assms]
  have "map q_Content (map (\<lambda>q. q\<lparr>q_Idx := 0\<rparr>) qs) = map q_Content qs" for qs :: "Question list"
    by simp
  then have "map q_Content (drop (nat i + 1) (Questions iv')) = map q_Content (drop (nat i) (Questions iv))"
    using c(8) by metis
  with c(6,7,10,11) InsertProbeAfter_questions [OF assms] show ?thesis by blast
qed

definition demo_probed :: "Interview \<times> Question" where
  "demo_probed = projr (InsertProbeAfter 1 ''And why?'' ''probe'' ''go'' demo_advanced)"

lemma InsertProbeAfter_correct_witness:
  "Questions (fst demo_probed) ! 1 = snd demo_probed \<and> wf_questions (Questions (fst demo_probed))"
proof -
  have "InsertProbeAfter 1 ''And why?'' ''probe'' ''go'' demo_advanced = Inr (fst demo_probed, snd demo_probed)"
    by (simp add: demo_probed_def InsertProbeAfter_def demo_defs)
  from InsertProbeAfter_correct [OF this] show ?thesis
    by (simp add: demo_defs wf_questions_def)
qed

text \<open>
  Property C10. The transcript handed to the evaluator has one pair for every question answered so far,
  in the order of the questions, and no answer is lost: each one's text occurs in the pair of its
  question.
\<close>

theorem TranscriptPairs_correct:
  assumes "iv_reachable iv"
  shows "map tp_Idx (TranscriptPairs iv) = [1..<Suc (answered iv)]
    \<and> list_all (\<lambda>a. list_ex (\<lambda>p. tp_Idx p = a_Idx a \<and> contains (tp_Answer p) (a_Content a))
         (TranscriptPairs iv)) (Answers iv)"
  using wf_transcript_idx [OF iv_reachable_wf [OF assms]] transcript_complete [OF iv_reachable_wf [OF assms]]
  by (auto simp: list_all_iff list_ex_iff)

lemma TranscriptPairs_correct_witness: "map tp_Idx (TranscriptPairs demo_advanced) = [1]"
  using TranscriptPairs_correct [OF demo_reachable(4)] by (simp add: demo_defs answered_def)

end
