(* ===== verification/IAM.thy ===== *)
theory IAM
  imports Shared
begin

text \<open>
  Identity and access: \<open>src/backend/internal/iam\<close>. Roles, users and organizations (\<open>domain\<close>), the use
  cases \<open>RegisterOrg\<close>, \<open>CreateUser\<close>, \<open>Authenticate\<close> and \<open>Authorize\<close> (\<open>application\<close>), the PostgreSQL repository
  with its row-level security and unique constraints, the bearer-token middleware and the middleware
  that runs a request in one tenant transaction.

  The password hasher and the token provider (bcrypt and the JWT library) are parameters.
\<close>

section \<open>Domain\<close>

definition RoleAdmin :: string where "RoleAdmin = ''admin''"
definition RoleRecruiter :: string where "RoleRecruiter = ''recruiter''"
definition RoleInterviewer :: string where "RoleInterviewer = ''interviewer''"
definition RoleMember :: string where "RoleMember = ''member''"

lemmas role_defs = RoleAdmin_def RoleRecruiter_def RoleInterviewer_def RoleMember_def

definition role_Valid :: "string \<Rightarrow> bool" where
  "role_Valid r \<longleftrightarrow> r = RoleAdmin \<or> r = RoleRecruiter \<or> r = RoleInterviewer \<or> r = RoleMember"

record User =
  u_ID :: uuid
  u_CreatedAt :: time
  u_OrgID :: uuid
  u_Email :: string
  u_Role :: string
  u_PasswordHash :: string
  u_AuthProvider :: string

record Org =
  org_ID :: uuid
  org_CreatedAt :: time
  org_Name :: string
  org_Slug :: string
  org_Plan :: string
  org_ScoringWeights :: "(string \<times> rat) list option"
  org_MinScoreToProceed :: "rat option"
  org_CandidateQALimit :: "int option"

definition NewUser ::
  "uuid \<Rightarrow> time \<Rightarrow> uuid \<Rightarrow> string \<Rightarrow> string \<Rightarrow> string \<Rightarrow> string \<Rightarrow> User result" where
  "NewUser newid now orgID email role passwordHash authProvider =
     (if email = [] then Inl (DomainError ''USER_EMAIL_REQUIRED'' ''email is required'')
      else if \<not> role_Valid role then Inl (DomainError ''INVALID_ROLE'' (''invalid role: '' @ role))
      else Inr \<lparr>u_ID = newid, u_CreatedAt = now, u_OrgID = orgID, u_Email = email, u_Role = role,
        u_PasswordHash = passwordHash,
        u_AuthProvider = (if authProvider = [] then ''password'' else authProvider)\<rparr>)"

definition HasRole :: "User \<Rightarrow> string list \<Rightarrow> bool" where
  "HasRole u roles = list_ex (\<lambda>r. u_Role u = r) roles"

definition NewOrg :: "uuid \<Rightarrow> time \<Rightarrow> string \<Rightarrow> string \<Rightarrow> Org result" where
  "NewOrg newid now name slug =
     (if name = [] then Inl (DomainError ''ORG_NAME_REQUIRED'' ''org name is required'')
      else if slug = [] then Inl (DomainError ''ORG_SLUG_REQUIRED'' ''org slug is required'')
      else Inr \<lparr>org_ID = newid, org_CreatedAt = now, org_Name = name, org_Slug = slug, org_Plan = ''free'',
        org_ScoringWeights = None, org_MinScoreToProceed = None, org_CandidateQALimit = None\<rparr>)"

definition validWeight :: "rat \<Rightarrow> bool" where
  "validWeight v \<longleftrightarrow> 0 \<le> v \<and> v \<le> 1"

text \<open>A Go map is the list of its entries, in the order the iteration happens to take.\<close>

definition org_SetScoringWeights :: "(string \<times> rat) list option \<Rightarrow> Org \<Rightarrow> Org result" where
  "org_SetScoringWeights raw org1 = (case raw of None \<Rightarrow> Inr org1
   | Some ws \<Rightarrow> (case find (\<lambda>(k, v). \<not> validWeight v) ws of
       Some (k, v) \<Rightarrow> Inl (DomainError ''INVALID_WEIGHT''
         (''invalid scoring weight for '' @ k @ '': must be 0..1''))
     | None \<Rightarrow> Inr (org1\<lparr>org_ScoringWeights := Some ws\<rparr>)))"

section \<open>The repository\<close>

definition iam_ErrNotFound :: error where "iam_ErrNotFound = Sentinel ''not found''"
definition ErrDuplicateSlug :: error where "ErrDuplicateSlug = Sentinel ''org slug already taken''"
definition ErrDuplicateEmail :: error where "ErrDuplicateEmail = Sentinel ''email already exists in org''"

definition mapDuplicate :: "string \<Rightarrow> error \<Rightarrow> error \<Rightarrow> error" where
  "mapDuplicate constraint target e = (if as_pg e = Some (''23505'', constraint) then target else e)"

record iam_tables =
  orgs :: "Org list"
  users :: "User list"

type_synonym 'h iam_db = "(iam_tables, 'h) db"

definition CreateOrg :: "Org \<Rightarrow> ('h iam_db, unit) op" where
  "CreateOrg org1 = map_error (mapDuplicate ''orgs_slug_key'' ErrDuplicateSlug) (exec (\<lambda>t r.
     if t \<noteq> Some (org_ID org1) then Inl ErrRLS
     else if org_ID org1 \<in> org_ID ` set (orgs r) then Inl (unique_violation ''orgs_pkey'')
     else if org_Slug org1 \<in> org_Slug ` set (orgs r) then Inl (unique_violation ''orgs_slug_key'')
     else Inr ((), r\<lparr>orgs := orgs r @ [org1]\<rparr>)))"

definition GetOrg :: "uuid \<Rightarrow> ('h iam_db, Org) op" where
  "GetOrg key = stmt (\<lambda>t r. case find (\<lambda>x. org_ID x = key \<and> t = Some (org_ID x)) (orgs r) of
     None \<Rightarrow> Inl iam_ErrNotFound | Some x \<Rightarrow> Inr (x, r))"

definition GetOrgBySlug :: "string \<Rightarrow> ('h iam_db, Org) op" where
  "GetOrgBySlug slug = stmt (\<lambda>t r. case find (\<lambda>x. org_Slug x = slug \<and> t = Some (org_ID x)) (orgs r) of
     None \<Rightarrow> Inl iam_ErrNotFound | Some x \<Rightarrow> Inr (x, r))"

definition UpdateOrgCandidateQALimit :: "uuid \<Rightarrow> int \<Rightarrow> ('h iam_db, unit) op" where
  "UpdateOrgCandidateQALimit orgID limit = bindE (exec (\<lambda>t r.
       let hit = (\<lambda>x. org_ID x = orgID \<and> t = Some (org_ID x)) in
       Inr (length (filter hit (orgs r)),
            r\<lparr>orgs := map (\<lambda>x. if hit x then x\<lparr>org_CandidateQALimit := Some limit\<rparr> else x) (orgs r)\<rparr>)))
     (\<lambda>affected. fail_if (affected = 0) iam_ErrNotFound)"

definition repo_CreateUser :: "User \<Rightarrow> ('h iam_db, unit) op" where
  "repo_CreateUser u = map_error (mapDuplicate ''users_org_id_email_key'' ErrDuplicateEmail) (exec (\<lambda>t r.
     if t \<noteq> Some (u_OrgID u) then Inl ErrRLS
     else if u_OrgID u \<notin> org_ID ` set (orgs r) then Inl (foreign_key_violation ''users_org_id_fkey'')
     else if u_ID u \<in> u_ID ` set (users r) then Inl (unique_violation ''users_pkey'')
     else if (u_OrgID u, u_Email u) \<in> (\<lambda>x. (u_OrgID x, u_Email x)) ` set (users r)
       then Inl (unique_violation ''users_org_id_email_key'')
     else Inr ((), r\<lparr>users := users r @ [u]\<rparr>)))"

definition GetUserByID :: "uuid \<Rightarrow> ('h iam_db, User) op" where
  "GetUserByID key = stmt (\<lambda>t r. case find (\<lambda>x. u_ID x = key \<and> t = Some (u_OrgID x)) (users r) of
     None \<Rightarrow> Inl iam_ErrNotFound | Some x \<Rightarrow> Inr (x, r))"

definition GetUserByEmail :: "uuid \<Rightarrow> string \<Rightarrow> ('h iam_db, User) op" where
  "GetUserByEmail orgID email = stmt (\<lambda>t r.
     case find (\<lambda>x. u_OrgID x = orgID \<and> u_Email x = email \<and> t = Some (u_OrgID x)) (users r) of
       None \<Rightarrow> Inl iam_ErrNotFound | Some x \<Rightarrow> Inr (x, r))"

definition ListUsers :: "uuid \<Rightarrow> ('h iam_db, User list) op" where
  "ListUsers orgID = stmt (\<lambda>t r. Inr (sort_key u_CreatedAt
     (filter (\<lambda>x. u_OrgID x = orgID \<and> t = Some (u_OrgID x)) (users r)), r))"

text \<open>
  \<open>login_lookup\<close> runs with the rights of its owner, outside any tenant: the join of users and
  organizations by slug and lower-cased email.
\<close>

definition FindLoginIdentity :: "string \<Rightarrow> string \<Rightarrow> iam_tables \<Rightarrow> User result" where
  "FindLoginIdentity slug email r =
     (case find (\<lambda>u. to_lower (u_Email u) = to_lower email \<and>
               list_ex (\<lambda>x. org_ID x = u_OrgID u \<and> org_Slug x = slug) (orgs r)) (users r) of
        None \<Rightarrow> Inl iam_ErrNotFound | Some u \<Rightarrow> Inr u)"

section \<open>Use cases\<close>

record AuthContext =
  ac_UserID :: uuid
  ac_OrgID :: uuid
  ac_Role :: string

definition Authorize :: "AuthContext \<Rightarrow> string list \<Rightarrow> error option" where
  "Authorize actor required =
     (if list_ex (\<lambda>r. ac_Role actor = r) required then None
      else Some (DomainError ''FORBIDDEN'' ''insufficient role''))"

definition roleRank :: "string \<Rightarrow> nat" where
  "roleRank r = (if r = RoleAdmin then 3 else if r = RoleRecruiter then 2
     else if r = RoleInterviewer then 1 else 0)"

definition canCreateRole :: "AuthContext \<Rightarrow> string \<Rightarrow> bool" where
  "canCreateRole actor target \<longleftrightarrow>
     (if ac_Role actor = RoleAdmin then True else roleRank target < roleRank (ac_Role actor))"

record CreateUserCommand =
  cu_OrgID :: uuid
  cu_Email :: string
  cu_Role :: string
  cu_Password :: string

definition CreateUser ::
  "(string \<Rightarrow> string result) \<Rightarrow> uuid \<Rightarrow> time \<Rightarrow> AuthContext \<Rightarrow> CreateUserCommand \<Rightarrow> ('h iam_db, uuid \<times> string) op" where
  "CreateUser Hash newid now actor cmd =
     bindE (check (Authorize actor [RoleAdmin, RoleRecruiter])) (\<lambda>_.
     bindE (fail_if (length (cu_Password cmd) < 8)
       (DomainError ''WEAK_PASSWORD'' ''password must be at least 8 characters'')) (\<lambda>_.
     let role = (if cu_Role cmd = [] then RoleMember else cu_Role cmd) in
     bindE (fail_if (\<not> role_Valid role) (DomainError ''INVALID_ROLE'' (''invalid role: '' @ cu_Role cmd))) (\<lambda>_.
     bindE (fail_if (\<not> canCreateRole actor role)
       (DomainError ''FORBIDDEN'' (''cannot create a user with role '' @ role))) (\<lambda>_.
     bindE (lift (Hash (cu_Password cmd))) (\<lambda>h.
     bindE (lift (NewUser newid now (cu_OrgID cmd) (to_lower (trim_space (cu_Email cmd))) role h ''password'')) (\<lambda>u.
     bindE (map_error (\<lambda>e. if e = ErrDuplicateEmail
              then DomainError ''EMAIL_TAKEN'' ''email already registered in this org'' else e)
         (repo_CreateUser u)) (\<lambda>_.
     ret (u_ID u, u_Role u))))))))"

record RegisterOrgCommand =
  ro_Name :: string
  ro_Slug :: string
  ro_AdminEmail :: string
  ro_AdminPassword :: string

definition RegisterOrg ::
  "(string \<Rightarrow> string result) \<Rightarrow> uuid \<Rightarrow> uuid \<Rightarrow> time \<Rightarrow> RegisterOrgCommand \<Rightarrow> ('h iam_db, uuid \<times> uuid \<times> string \<times> string) op" where
  "RegisterOrg Hash neworg newuser now cmd =
     (let name = trim_space (ro_Name cmd); slug = to_lower (trim_space (ro_Slug cmd));
          email = to_lower (trim_space (ro_AdminEmail cmd)) in
     bindE (fail_if (length (ro_AdminPassword cmd) < 8)
       (DomainError ''WEAK_PASSWORD'' ''password must be at least 8 characters'')) (\<lambda>_.
     bindE (lift (NewOrg neworg now name slug)) (\<lambda>org1.
     bindE (lift (Hash (ro_AdminPassword cmd))) (\<lambda>h.
     bindE (lift (NewUser newuser now (org_ID org1) email RoleAdmin h ''password'')) (\<lambda>admin.
     bindE (map_error (\<lambda>e.
              if e = ErrDuplicateSlug then DomainError ''ORG_SLUG_TAKEN'' ''org slug already taken''
              else if e = ErrDuplicateEmail
                then DomainError ''EMAIL_TAKEN'' ''email already registered in this org'' else e)
         (RunInTx (org_ID org1) (bindE (CreateOrg org1) (\<lambda>_. repo_CreateUser admin)))) (\<lambda>_.
     ret (org_ID org1, u_ID admin, org_Slug org1, org_Plan org1)))))))"

record Claims =
  cl_Subject :: uuid
  cl_OrgID :: uuid
  cl_Role :: string
  cl_Type :: string
  cl_SessionID :: string
  cl_InterviewID :: string

definition TokenTypeAuth :: string where "TokenTypeAuth = ''auth''"
definition TokenTypeCandidate :: string where "TokenTypeCandidate = ''candidate''"
definition TokenTypeWSTicket :: string where "TokenTypeWSTicket = ''ws_ticket''"

definition Authenticate ::
  "(string \<Rightarrow> string \<Rightarrow> bool) \<Rightarrow> (Claims \<Rightarrow> string result) \<Rightarrow> string \<Rightarrow> string \<Rightarrow> string \<Rightarrow> iam_tables
     \<Rightarrow> (string \<times> AuthContext) result" where
  "Authenticate Verify Issue slug email password r =
     (let failed = Inl (DomainError ''AUTH_FAILED'' ''invalid credentials'') in
      case FindLoginIdentity slug email r of Inl e \<Rightarrow> failed
      | Inr u \<Rightarrow>
         if u_PasswordHash u = [] \<or> \<not> Verify (u_PasswordHash u) password then failed
         else (case Issue \<lparr>cl_Subject = u_ID u, cl_OrgID = u_OrgID u, cl_Role = u_Role u,
                 cl_Type = TokenTypeAuth, cl_SessionID = [], cl_InterviewID = []\<rparr> of
              Inl e \<Rightarrow> Inl e
            | Inr token \<Rightarrow> Inr (token, \<lparr>ac_UserID = u_ID u, ac_OrgID = u_OrgID u, ac_Role = u_Role u\<rparr>)))"

section \<open>Middleware\<close>

definition bearer :: string where "bearer = ''Bearer ''"

definition AuthMiddleware :: "(string \<Rightarrow> Claims result) \<Rightarrow> string \<Rightarrow> AuthContext result" where
  "AuthMiddleware Parse header =
     (if \<not> has_prefix header bearer then Inl (DomainError ''UNAUTHORIZED'' ''missing bearer token'')
      else (case Parse (drop (length bearer) header) of
          Inl e \<Rightarrow> Inl (DomainError ''UNAUTHORIZED'' ''invalid or expired token'')
        | Inr c \<Rightarrow>
            if cl_Type c \<noteq> TokenTypeAuth then Inl (DomainError ''UNAUTHORIZED'' ''invalid token type'')
            else Inr \<lparr>ac_UserID = cl_Subject c, ac_OrgID = cl_OrgID c, ac_Role = cl_Role c\<rparr>))"

definition OptionalAuthMiddleware :: "(string \<Rightarrow> Claims result) \<Rightarrow> string \<Rightarrow> AuthContext option" where
  "OptionalAuthMiddleware Parse header =
     (if has_prefix header bearer then
        (case Parse (drop (length bearer) header) of
           Inr c \<Rightarrow> if cl_Type c = TokenTypeAuth
             then Some \<lparr>ac_UserID = cl_Subject c, ac_OrgID = cl_OrgID c, ac_Role = cl_Role c\<rparr> else None
         | Inl e \<Rightarrow> None)
      else None)"

text \<open>
  \<open>TenantTxMiddleware\<close> for an authenticated actor. The handler answers an HTTP status; a status of 400 or
  more is a response that was written already, and the transaction is rolled back.
\<close>

definition StatusUnauthorized :: nat where "StatusUnauthorized = 401"
definition StatusBadRequest :: nat where "StatusBadRequest = 400"

definition TenantTxMiddleware ::
  "(uuid \<Rightarrow> 'r \<Rightarrow> bool) \<Rightarrow> AuthContext \<Rightarrow> (('r, 'h) db, nat) op \<Rightarrow> (('r, 'h) db, nat) op" where
  "TenantTxMiddleware org_exists actor handler d =
     (case next_fault d of
        (Some e, d0) \<Rightarrow> (Inl e, d0)
      | (None, d0) \<Rightarrow>
         (case SetTenant (ac_OrgID actor) (d0\<lparr>in_tx := True, aborted := False, saved := [], pending := []\<rparr>) of
            (Inl e, d1) \<Rightarrow> (Inl e, rollback d0 d1)
          | (Inr _, d1) \<Rightarrow>
             (case stmt (\<lambda>_ r. Inr (org_exists (ac_OrgID actor) r, r)) d1 of
                (Inr True, d2) \<Rightarrow>
                  (case handler d2 of
                     (Inl e, d3) \<Rightarrow> (Inl e, rollback d0 d3)
                   | (Inr status, d3) \<Rightarrow>
                       if StatusBadRequest \<le> status then (Inr status, rollback d0 d3)
                       else (case commit d3 of
                           (Inl e, d4) \<Rightarrow> (Inl e, rollback d0 d4)
                         | (Inr _, d4) \<Rightarrow> (Inr status, (RunAfterCommit d4)\<lparr>tenant := tenant d0,
                             in_tx := False, saved := [], pending := pending d0\<rparr>)))
              | (_, d2) \<Rightarrow> (Inr StatusUnauthorized, rollback d0 d2))))"

section \<open>Properties\<close>

definition demo_org :: Org where
  "demo_org = \<lparr>org_ID = ''o1'', org_CreatedAt = 0, org_Name = ''Acme'', org_Slug = ''acme'', org_Plan = ''free'',
     org_ScoringWeights = None, org_MinScoreToProceed = None, org_CandidateQALimit = None\<rparr>"

definition demo_iam :: "nat iam_db" where
  "demo_iam = \<lparr>tables = \<lparr>orgs = [demo_org], users = []\<rparr>, tenant = Some ''o1'', in_tx = True, aborted = False,
     saved = [], faults = [], pending = [], fired = []\<rparr>"

definition demo_user_cmd :: CreateUserCommand where
  "demo_user_cmd = \<lparr>cu_OrgID = ''o1'', cu_Email = '' A@acme.io'', cu_Role = ''interviewer'', cu_Password = ''12345678''\<rparr>"

definition demo_recruiter :: AuthContext where
  "demo_recruiter = \<lparr>ac_UserID = ''u1'', ac_OrgID = ''o1'', ac_Role = ''recruiter''\<rparr>"

text \<open>
  Property C16. Creating a user never escalates privileges: when the use case succeeds, exactly one user was
  added, in the tenant of the transaction and with a valid role; the actor is an administrator, or a
  recruiter who made an interviewer or a member; the email is the trimmed, lower-cased one and was not
  taken in that organization.
\<close>

theorem CreateUser_no_escalation:
  assumes "CreateUser Hash newid now actor cmd d = (Inr (uid, role), d')"
  shows "\<exists>u. tables d' = (tables d)\<lparr>users := users (tables d) @ [u]\<rparr> \<and> u_ID u = uid \<and> u_Role u = role
    \<and> tenant d = Some (u_OrgID u) \<and> u_OrgID u = cu_OrgID cmd \<and> role_Valid role
    \<and> u_Email u = to_lower (trim_space (cu_Email cmd)) \<and> Inr (u_PasswordHash u) = Hash (cu_Password cmd)
    \<and> 8 \<le> length (cu_Password cmd)
    \<and> (u_OrgID u, u_Email u) \<notin> (\<lambda>x. (u_OrgID x, u_Email x)) ` set (users (tables d))
    \<and> (ac_Role actor = RoleAdmin \<or>
       ac_Role actor = RoleRecruiter \<and> (role = RoleInterviewer \<or> role = RoleMember))"
proof -
  define r where "r = (if cu_Role cmd = [] then RoleMember else cu_Role cmd)"
  from assms obtain h u where *: "Authorize actor [RoleAdmin, RoleRecruiter] = None"
    "8 \<le> length (cu_Password cmd)" "role_Valid r" "canCreateRole actor r" "Hash (cu_Password cmd) = Inr h"
    and u: "NewUser newid now (cu_OrgID cmd) (to_lower (trim_space (cu_Email cmd))) r h ''password'' = Inr u"
    and c: "repo_CreateUser u d = (Inr (), d')" "uid = u_ID u" "role = u_Role u"
    by (auto simp: CreateUser_def Let_def op_Inr r_def not_less)
  have ins: "tenant d = Some (u_OrgID u)" "tables d' = (tables d)\<lparr>users := users (tables d) @ [u]\<rparr>"
    "(u_OrgID u, u_Email u) \<notin> (\<lambda>x. (u_OrgID x, u_Email x)) ` set (users (tables d))"
    using exec_InrD(1) [OF c(1) [unfolded repo_CreateUser_def map_error_Inr]] by (auto split: if_splits)
  have fields: "u_OrgID u = cu_OrgID cmd" "u_Role u = r" "u_Email u = to_lower (trim_space (cu_Email cmd))"
    "u_PasswordHash u = h"
    using u by (auto simp: NewUser_def split: if_splits)
  have "ac_Role actor = RoleAdmin \<or> ac_Role actor = RoleRecruiter" using *(1)
    by (auto simp: Authorize_def split: if_splits)
  then have "ac_Role actor = RoleAdmin \<or>
       ac_Role actor = RoleRecruiter \<and> (r = RoleInterviewer \<or> r = RoleMember)"
    using *(3,4) by (auto simp: canCreateRole_def roleRank_def role_Valid_def role_defs split: if_splits)
  with * ins fields c show ?thesis by (intro exI [of _ u]) auto
qed

lemma CreateUser_no_escalation_witness:
  "\<exists>d'. CreateUser (\<lambda>p. Inr (''h'' @ p)) ''u2'' 5 demo_recruiter demo_user_cmd demo_iam =
      (Inr (''u2'', ''interviewer''), d') \<and> length (users (tables d')) = 1"
proof -
  have "\<exists>d'. CreateUser (\<lambda>p. Inr (''h'' @ p)) ''u2'' 5 demo_recruiter demo_user_cmd demo_iam =
      (Inr (''u2'', ''interviewer''), d')"
    by (rule exI [of _ "snd (CreateUser (\<lambda>p. Inr (''h'' @ p)) ''u2'' 5 demo_recruiter demo_user_cmd demo_iam)"])
      code_simp
  then obtain d' where r: "CreateUser (\<lambda>p. Inr (''h'' @ p)) ''u2'' 5 demo_recruiter demo_user_cmd demo_iam =
      (Inr (''u2'', ''interviewer''), d')" by blast
  then show ?thesis using CreateUser_no_escalation [OF r] by (auto simp: demo_iam_def)
qed

text \<open>
  Property C17. Registering an organization is all or nothing: on success the organization and its single
  administrator are there, under a fresh slug; on failure neither is.
\<close>

theorem RegisterOrg_atomic:
  assumes "\<not> in_tx d"
  shows "case RegisterOrg Hash neworg newuser now cmd d of
     (Inl e, d') \<Rightarrow> tables d' = tables d
   | (Inr (oid, uid, slug, plan), d') \<Rightarrow> (\<exists>o1 u. tables d' = \<lparr>orgs = orgs (tables d) @ [o1], users = users (tables d) @ [u]\<rparr>
        \<and> org_ID o1 = oid \<and> oid = neworg \<and> org_Slug o1 = slug \<and> plan = ''free'' \<and> u_OrgID u = oid \<and> u_ID u = uid
        \<and> u_Role u = RoleAdmin \<and> slug \<notin> org_Slug ` set (orgs (tables d)))"
proof (cases "RegisterOrg Hash neworg newuser now cmd d")
  case (Pair r d')
  define slug where "slug = to_lower (trim_space (ro_Slug cmd))"
  show ?thesis
  proof (cases r)
    case (Inl e)
    have "clean (RegisterOrg Hash neworg newuser now cmd :: ('a iam_db, _) op)"
      unfolding RegisterOrg_def Let_def by (intro clean_intros)
    from cleanD [OF this assms, of e d'] Pair Inl have "tables d' = tables d" by simp
    with Pair Inl show ?thesis by simp
  next
    case (Inr q)
    obtain oid uid sl plan where q: "q = (oid, uid, sl, plan)" by (cases q) auto
    with Pair Inr have "RegisterOrg Hash neworg newuser now cmd d = (Inr (oid, uid, sl, plan), d')" by simp
    then obtain o1 h u where o1: "NewOrg neworg now (trim_space (ro_Name cmd)) slug = Inr o1"
      and u: "NewUser newuser now (org_ID o1) (to_lower (trim_space (ro_AdminEmail cmd))) RoleAdmin h ''password'' = Inr u"
      and tx: "RunInTx (org_ID o1) (bindE (CreateOrg o1) (\<lambda>_. repo_CreateUser u)) d = (Inr (), d')"
      and res: "oid = org_ID o1" "uid = u_ID u" "sl = org_Slug o1" "plan = org_Plan o1"
      unfolding RegisterOrg_def Let_def slug_def [symmetric] by (elim op_InrE) auto
    from assms tx obtain d1 d2 where b: "bindE (CreateOrg o1) (\<lambda>_. repo_CreateUser u) d1 = (Inr (), d2)"
      and t: "tables d1 = tables d" "tables d' = tables d2" and "tenant d1 = Some (org_ID o1)" "in_tx d1"
        "fired d1 = fired d"
      by (rule RunInTx_run)
    from b obtain d3 where c: "CreateOrg o1 d1 = (Inr (), d3)" "repo_CreateUser u d3 = (Inr (), d2)"
      by (auto simp: bindE_Inr)
    have "tables d3 = (tables d)\<lparr>orgs := orgs (tables d) @ [o1]\<rparr>" "org_Slug o1 \<notin> org_Slug ` set (orgs (tables d))"
      using exec_InrD(1) [OF c(1) [unfolded CreateOrg_def map_error_Inr]] t by (auto split: if_splits)
    moreover have "tables d2 = (tables d3)\<lparr>users := users (tables d3) @ [u]\<rparr>"
      using exec_InrD(1) [OF c(2) [unfolded repo_CreateUser_def map_error_Inr]] by (auto split: if_splits)
    ultimately have "tables d' = \<lparr>orgs = orgs (tables d) @ [o1], users = users (tables d) @ [u]\<rparr>"
      "sl \<notin> org_Slug ` set (orgs (tables d))"
      using t res by simp_all
    then show ?thesis using Pair Inr q res o1 u
      by (auto simp: NewOrg_def NewUser_def split: if_splits)
  qed
qed

lemma RegisterOrg_demo:
  "\<exists>d'. RegisterOrg (\<lambda>p. Inr p) ''o2'' ''u2'' 5 \<lparr>ro_Name = ''B'', ro_Slug = '' BB '', ro_AdminEmail = ''x@y'',
      ro_AdminPassword = ''12345678''\<rparr> (demo_iam\<lparr>in_tx := False, tenant := None\<rparr>) = (Inr (''o2'', ''u2'', ''bb'', ''free''), d')"
  by (rule exI [of _ "snd (RegisterOrg (\<lambda>p. Inr p) ''o2'' ''u2'' 5 \<lparr>ro_Name = ''B'', ro_Slug = '' BB '',
      ro_AdminEmail = ''x@y'', ro_AdminPassword = ''12345678''\<rparr> (demo_iam\<lparr>in_tx := False, tenant := None\<rparr>))"])
    code_simp

lemma RegisterOrg_atomic_witness:
  "\<exists>d'. RegisterOrg (\<lambda>p. Inr p) ''o2'' ''u2'' 5 \<lparr>ro_Name = ''B'', ro_Slug = '' BB '', ro_AdminEmail = ''x@y'',
      ro_AdminPassword = ''12345678''\<rparr> (demo_iam\<lparr>in_tx := False, tenant := None\<rparr>) = (Inr (''o2'', ''u2'', ''bb'', ''free''), d')
     \<and> length (orgs (tables d')) = 2"
proof -
  obtain d' where r: "RegisterOrg (\<lambda>p. Inr p) ''o2'' ''u2'' 5 \<lparr>ro_Name = ''B'', ro_Slug = '' BB '',
      ro_AdminEmail = ''x@y'', ro_AdminPassword = ''12345678''\<rparr> (demo_iam\<lparr>in_tx := False, tenant := None\<rparr>)
    = (Inr (''o2'', ''u2'', ''bb'', ''free''), d')"
    using RegisterOrg_demo by blast
  have "\<not> in_tx (demo_iam\<lparr>in_tx := False, tenant := None\<rparr>)" by simp
  from RegisterOrg_atomic [OF this, where Hash = "\<lambda>p. Inr p" and neworg = "''o2''" and newuser = "''u2''"
      and now = 5 and cmd = "\<lparr>ro_Name = ''B'', ro_Slug = '' BB '', ro_AdminEmail = ''x@y'',
      ro_AdminPassword = ''12345678''\<rparr>"] r
  show ?thesis by (auto simp: demo_iam_def)
qed

text \<open>
  Property C18. The request transaction: an error, a response of status 400 or more, or a commit that fails
  leaves the tables as they were and drops the after-commit hooks of the handler; otherwise the handler's
  tables stand and its hooks have fired, in order.
\<close>

theorem TenantTxMiddleware_atomic:
  "case TenantTxMiddleware org_exists actor handler d of
     (Inl e, d') \<Rightarrow> tables d' = tables d \<and> pending d' = pending d
   | (Inr status, d') \<Rightarrow>
       if StatusBadRequest \<le> status then tables d' = tables d \<and> pending d' = pending d
       else (\<exists>d1 d2. handler d1 = (Inr status, d2) \<and> tenant d1 = Some (ac_OrgID actor) \<and> in_tx d1
          \<and> tables d1 = tables d \<and> pending d1 = [] \<and> org_exists (ac_OrgID actor) (tables d)
          \<and> \<not> aborted d2 \<and> tables d' = tables d2 \<and> fired d' = fired d2 @ pending d2)"
proof (cases "TenantTxMiddleware org_exists actor handler d")
  case (Pair r d')
  obtain f d0 where nf: "next_fault d = (f, d0)" by fastforce
  note fr = next_fault_frame [OF nf]
  let ?d0 = "d0\<lparr>in_tx := True, aborted := False, saved := [], pending := []\<rparr>"
  obtain q1 d1 where st: "SetTenant (ac_OrgID actor) ?d0 = (q1, d1)" by fastforce
  obtain q2 d2 where ex: "stmt (\<lambda>_ r. Inr (org_exists (ac_OrgID actor) r, r)) d1 = (q2, d2)" by fastforce
  obtain q3 d3 where h: "handler d2 = (q3, d3)" by fastforce
  obtain q4 d4 where c: "commit d3 = (q4, d4)" by fastforce
  have rb: "tables (rollback d0 x) = tables d" "pending (rollback d0 x) = pending d" for x
    using fr by (simp_all add: rollback_def)
  show ?thesis
  proof (cases "\<exists>s. f = None \<and> q1 = Inr () \<and> q2 = Inr True \<and> q3 = Inr s \<and> s < StatusBadRequest \<and> q4 = Inr ()")
    case False
    then show ?thesis
      using Pair nf st ex h c rb fr
      by (auto simp: TenantTxMiddleware_def StatusUnauthorized_def StatusBadRequest_def not_le
          split: option.splits sum.splits if_splits bool.splits)
  next
    case True
    then obtain s where s: "f = None" "q1 = Inr ()" "q2 = Inr True" "q3 = Inr s" "s < StatusBadRequest" "q4 = Inr ()"
      by blast
    have d1: "tenant d1 = Some (ac_OrgID actor)" "in_tx d1" "tables d1 = tables d" "pending d1 = []"
      using st s fr by (auto simp: SetTenant_def split: if_splits prod.splits option.splits dest!: next_fault_frameD)
    note x = stmt_InrD [OF ex [unfolded s]]
    have d2: "tenant d2 = Some (ac_OrgID actor)" "in_tx d2" "tables d2 = tables d" "pending d2 = []"
      "org_exists (ac_OrgID actor) (tables d)"
      using d1 x by auto
    have d4: "tables d4 = tables d3" "fired d4 = fired d3" "pending d4 = pending d3" "\<not> aborted d3"
      using c s by (auto simp: commit_def split: if_splits prod.splits option.splits dest!: next_fault_frameD)
    have "(r, d') = (Inr s, (RunAfterCommit d4)\<lparr>tenant := tenant d0, in_tx := False, saved := [], pending := pending d0\<rparr>)"
      using Pair nf st ex h c s by (simp add: TenantTxMiddleware_def not_le)
    then show ?thesis unfolding Pair using h s d2 d4 by (auto simp: RunAfterCommit_def not_le)
  qed
qed

end
