(* ===== verification/Interview_Store.thy ===== *)
theory Interview_Store
  imports Repositories Interview_Dialogue IAM
begin

text \<open>
  The interview tables and their repositories: \<open>postgres_interview_repo.go\<close>, \<open>postgres_token_repo.go\<close> and
  \<open>postgres_question_bank.go\<close> of \<open>src/backend/internal/interview/infrastructure/persistence\<close>, with the
  security-definer function \<open>validate_interview_token\<close> of \<open>src/backend/pkg/db/migrations/001_init.up.sql\<close>.

  A row of \<open>interviews\<close> is the aggregate without the fields that are not columns (\<open>OrgID\<close>, which \<open>GetByID\<close>
  hydrates through the join with \<open>applications\<close>, and the in-memory activity marker). Updates are
  column-scoped: each writes the columns its statement names and no other. \<open>now\<close> is the process clock,
  \<open>dbnow\<close> the value of \<open>NOW()\<close>.
\<close>

section \<open>Tables\<close>

record InvitationToken =
  it_ID :: uuid
  it_OrgID :: uuid
  it_InterviewID :: uuid
  it_Token :: string
  it_ExpiresAt :: time
  it_UsedAt :: "time option"
  it_RevokedAt :: "time option"
  it_CreatedAt :: time

record bank_row =
  bk_OrgID :: uuid
  bk_Category :: string
  bk_Body :: string
  bk_Skills :: "string list"
  bk_CreatedAt :: time

record iv_tables = core_tables +
  t_interviews :: "Interview list"
  t_tokens :: "InvitationToken list"
  t_bank :: "bank_row list"
  t_users :: "User list"

type_synonym ('m, 'h) iv_db = "('m iv_tables_scheme, 'h) db"

text \<open>The policy of \<open>interviews\<close>: an application the tenant sees, of a job the tenant sees.\<close>

definition sees_iv :: "uuid option \<Rightarrow> 'm core_tables_scheme \<Rightarrow> Interview \<Rightarrow> bool" where
  "sees_iv t r iv = list_ex (\<lambda>a. app_ID a = iv_ApplicationID iv \<and> sees_app t a \<and>
     list_ex (\<lambda>j. job_ID j = app_JobID a \<and> sees_job t j) (t_jobs r)) (t_applications r)"

definition sees_token :: "uuid option \<Rightarrow> InvitationToken \<Rightarrow> bool" where "sees_token t x \<longleftrightarrow> t = Some (it_OrgID x)"

section \<open>Interviews\<close>

text \<open>\<open>Create\<close> leaves \<open>evaluation\<close>, \<open>consent_given\<close> and \<open>human_requested\<close> to the defaults of their columns.\<close>

definition iv_row :: "Interview \<Rightarrow> Interview" where
  "iv_row iv = iv\<lparr>iv_UpdatedAt := zero_time, iv_OrgID := [], iv_Evaluation := None, ConsentGiven := False,
     HumanRequested := False, lastActivity := zero_time\<rparr>"

definition iv_Create :: "Interview \<Rightarrow> (('m, 'h) iv_db, unit) op" where
  "iv_Create iv = wrapped (insert_row
     (\<lambda>t r. if iv_ApplicationID iv \<notin> app_ID ` set (t_applications r)
          then Some (foreign_key_violation ''interviews_application_id_fkey'')
        else if \<not> sees_iv t r iv then Some ErrRLS
        else if iv_ID iv \<in> iv_ID ` set (t_interviews r) then Some (unique_violation ''interviews_pkey'')
        else None)
     (t_interviews_update (\<lambda>xs. xs @ [iv_row iv])))"

definition hydrate :: "uuid \<Rightarrow> Interview \<Rightarrow> Interview" where
  "hydrate orgID x = x\<lparr>iv_OrgID := orgID, iv_UpdatedAt := zero_time, lastActivity := zero_time\<rparr>"

definition iv_find :: "uuid \<Rightarrow> uuid option \<Rightarrow> 'm iv_tables_scheme \<Rightarrow> Interview option" where
  "iv_find key t r = find (\<lambda>x. iv_ID x = key \<and> sees_iv t r x) (t_interviews r)"

definition iv_GetByID :: "uuid \<Rightarrow> (('m, 'h) iv_db, Interview) op" where
  "iv_GetByID key = query_row ErrNotFound (\<lambda>t r. case iv_find key t r of None \<Rightarrow> None
     | Some x \<Rightarrow> (case find (\<lambda>a. app_ID a = iv_ApplicationID x \<and> sees_app t a) (t_applications r) of
           None \<Rightarrow> None
         | Some a \<Rightarrow> Some (hydrate (app_OrgID a) x)))"

text \<open>The statement of a column-scoped update: the number of interviews it affected.\<close>

definition update_iv ::
  "uuid \<Rightarrow> (Interview \<Rightarrow> bool) \<Rightarrow> (Interview \<Rightarrow> Interview) \<Rightarrow> (('m, 'h) iv_db, nat) op" where
  "update_iv key guard f = update_rows t_interviews t_interviews_update
     (\<lambda>t r x. (iv_ID x = key \<and> guard x) \<and> sees_iv t r x) f"

definition iv_columns :: "time \<Rightarrow> Interview \<Rightarrow> Interview \<Rightarrow> Interview" where
  "iv_columns dbnow iv x = x\<lparr>iv_UpdatedAt := dbnow, iv_Status := iv_Status iv, Questions := Questions iv,
     Answers := Answers iv, QAPairs := QAPairs iv, LastQuestionIdx := LastQuestionIdx iv,
     ProctoringEvents := ProctoringEvents iv, iv_Summary := iv_Summary iv, CodingSessions := CodingSessions iv,
     StartedAt := StartedAt iv, CompletedAt := CompletedAt iv, ExpiresAt := ExpiresAt iv\<rparr>"

definition iv_Update :: "time \<Rightarrow> Interview \<Rightarrow> (('m, 'h) iv_db, unit) op" where
  "iv_Update dbnow iv = wrapped (unit_of (update_iv (iv_ID iv) (\<lambda>_. True) (iv_columns dbnow iv)))"

definition maxStoredEvents :: nat where "maxStoredEvents = 500"

definition last_n :: "nat \<Rightarrow> 'a list \<Rightarrow> 'a list" where
  "last_n n xs = drop (length xs - n) xs"

definition iv_RecordProctoringEvent :: "time \<Rightarrow> uuid \<Rightarrow> ProctoringEvent \<Rightarrow> (('m, 'h) iv_db, unit) op" where
  "iv_RecordProctoringEvent dbnow key event =
     bindE (query_row ErrNotFound (\<lambda>t r. case iv_find key t r of None \<Rightarrow> None | Some x \<Rightarrow> Some (ProctoringEvents x))) (\<lambda>evs.
     let events = evs @ [event]; summary = CalculateProctoringSummary events in
     unit_of (update_iv key (\<lambda>_. True) (\<lambda>x. x\<lparr>ProctoringEvents := last_n maxStoredEvents events,
        iv_Summary := summary, iv_UpdatedAt := dbnow\<rparr>)))"

definition iv_Touch :: "time \<Rightarrow> uuid \<Rightarrow> (('m, 'h) iv_db, unit) op" where
  "iv_Touch dbnow key = unit_of (update_iv key (\<lambda>_. True) (\<lambda>x. x\<lparr>iv_UpdatedAt := dbnow\<rparr>))"

definition iv_RecordCodingSession :: "time \<Rightarrow> uuid \<Rightarrow> CodingSession \<Rightarrow> (('m, 'h) iv_db, unit) op" where
  "iv_RecordCodingSession dbnow key cs = unit_of (update_iv key (\<lambda>_. True)
     (\<lambda>x. x\<lparr>CodingSessions := CodingSessions x @ [cs], iv_UpdatedAt := dbnow\<rparr>))"

text \<open>\<open>expires_at IS NOT NULL AND expires_at > NOW()\<close> and its negation with \<open><=\<close>.\<close>

definition live_at :: "time \<Rightarrow> Interview \<Rightarrow> bool" where
  "live_at n x = (case ExpiresAt x of None \<Rightarrow> False | Some e \<Rightarrow> n < e)"

definition overdue_at :: "time \<Rightarrow> Interview \<Rightarrow> bool" where
  "overdue_at n x = (case ExpiresAt x of None \<Rightarrow> False | Some e \<Rightarrow> e \<le> n)"

definition AppendQAPairWithinLimit ::
  "time \<Rightarrow> time \<Rightarrow> uuid \<Rightarrow> QAPair \<Rightarrow> int \<Rightarrow> (('m, 'h) iv_db, bool) op" where
  "AppendQAPairWithinLimit now dbnow key pair limit =
     bindE (wrapped (update_iv key
       (\<lambda>x. iv_Status x = InProgress \<and> live_at dbnow x \<and> int (length (QAPairs x)) < limit)
       (\<lambda>x. x\<lparr>QAPairs := QAPairs x @ [pair], iv_UpdatedAt := dbnow\<rparr>))) (\<lambda>affected.
     if 0 < affected then ret True
     else bindE (map_error (\<lambda>e. if e = ErrNoRows then ErrNotFound else WrapError e)
           (query_row ErrNoRows (\<lambda>t r. iv_find key t r))) (\<lambda>x.
       bindE (fail_if (iv_Status x \<noteq> InProgress) ErrQAActive) (\<lambda>_.
       bindE (fail_if (\<not> live_at now x) ErrQAActive) (\<lambda>_. ret False))))"

definition iv_ExpireIfDue :: "time \<Rightarrow> uuid \<Rightarrow> (('m, 'h) iv_db, unit) op" where
  "iv_ExpireIfDue dbnow key = wrapped (unit_of (update_iv key
     (\<lambda>x. iv_Status x = InProgress \<and> overdue_at dbnow x)
     (\<lambda>x. x\<lparr>iv_Status := Expired, iv_UpdatedAt := dbnow\<rparr>)))"

definition SaveEvaluation :: "time \<Rightarrow> uuid \<Rightarrow> string \<Rightarrow> (('m, 'h) iv_db, unit) op" where
  "SaveEvaluation dbnow key report = bindE (wrapped (update_iv key
       (\<lambda>x. iv_Evaluation x = None) (\<lambda>x. x\<lparr>iv_Evaluation := Some report, iv_UpdatedAt := dbnow\<rparr>)))
     (\<lambda>affected. fail_if (affected = 0) ErrEvaluationExists)"

definition SetConsent :: "time \<Rightarrow> uuid \<Rightarrow> (('m, 'h) iv_db, unit) op" where
  "SetConsent dbnow key = wrapped (unit_of (update_iv key (\<lambda>_. True)
     (\<lambda>x. x\<lparr>ConsentGiven := True, iv_UpdatedAt := dbnow\<rparr>)))"

definition SetHumanRequested :: "time \<Rightarrow> uuid \<Rightarrow> bool \<Rightarrow> (('m, 'h) iv_db, unit) op" where
  "SetHumanRequested dbnow key requested = wrapped (unit_of (update_iv key (\<lambda>_. True)
     (\<lambda>x. x\<lparr>HumanRequested := requested, iv_UpdatedAt := dbnow\<rparr>)))"

text \<open>The lists join the application for its organization.\<close>

definition iv_joined :: "(Application \<Rightarrow> bool) \<Rightarrow> uuid option \<Rightarrow> 'm iv_tables_scheme \<Rightarrow> Interview list" where
  "iv_joined P t r = newest_first iv_CreatedAt (concat (map (\<lambda>x.
     if sees_iv t r x then map (\<lambda>a. hydrate (app_OrgID a) x)
       (filter (\<lambda>a. app_ID a = iv_ApplicationID x \<and> sees_app t a \<and> P a) (t_applications r))
     else []) (t_interviews r)))"

definition iv_ByApplication :: "uuid \<Rightarrow> (('m, 'h) iv_db, Interview list) op" where
  "iv_ByApplication applicationID = query (iv_joined (\<lambda>a. app_ID a = applicationID))"

definition iv_ListByOrg :: "uuid \<Rightarrow> (('m, 'h) iv_db, Interview list) op" where
  "iv_ListByOrg orgID = query (iv_joined (\<lambda>a. app_OrgID a = orgID))"

section \<open>Invitation tokens\<close>

datatype TokenStatus = TokenValid | TokenExpired | TokenUsed | TokenRevoked | TokenNotFound

definition token_Create :: "time \<Rightarrow> InvitationToken \<Rightarrow> (('m, 'h) iv_db, unit) op" where
  "token_Create dbnow tok = insert_row
     (\<lambda>t r. if \<not> sees_token t tok then Some ErrRLS
        else if it_InterviewID tok \<notin> iv_ID ` set (t_interviews r)
          then Some (foreign_key_violation ''interview_tokens_interview_id_fkey'')
        else if it_ID tok \<in> it_ID ` set (t_tokens r) then Some (unique_violation ''interview_tokens_pkey'')
        else if it_Token tok \<in> it_Token ` set (t_tokens r)
          then Some (unique_violation ''interview_tokens_token_key'')
        else None)
     (t_tokens_update (\<lambda>xs. xs @ [tok\<lparr>it_UsedAt := None, it_RevokedAt := None, it_CreatedAt := dbnow\<rparr>]))"

definition validate_interview_token :: "time \<Rightarrow> string \<Rightarrow> InvitationToken list \<Rightarrow> InvitationToken option \<times> TokenStatus" where
  "validate_interview_token dbnow tok toks = (case find (\<lambda>x. it_Token x = tok) toks of
     None \<Rightarrow> (None, TokenNotFound)
   | Some x \<Rightarrow> (Some x, if it_RevokedAt x \<noteq> None then TokenRevoked
        else if it_ExpiresAt x < dbnow then TokenExpired
        else if it_UsedAt x \<noteq> None then TokenUsed else TokenValid))"

text \<open>
  \<open>Validate\<close> runs before authentication, on the pool: no transaction, no tenant. Any failure reads as
  \<open>TokenNotFound\<close>. The status decides first at every caller; with \<open>TokenNotFound\<close> no token is looked at.
\<close>

definition Validate :: "time \<Rightarrow> string \<Rightarrow> (('m, 'h) iv_db, InvitationToken option \<times> TokenStatus) op" where
  "Validate dbnow tok d = (case next_fault d of
     (Some e, d') \<Rightarrow> (Inr (None, TokenNotFound), d')
   | (None, d') \<Rightarrow> (Inr (validate_interview_token dbnow tok (t_tokens (tables d'))), d'))"

definition MarkUsed :: "time \<Rightarrow> string \<Rightarrow> (('m, 'h) iv_db, unit) op" where
  "MarkUsed dbnow tok = unit_of (update_rows t_tokens t_tokens_update
     (\<lambda>t r x. it_Token x = tok \<and> it_UsedAt x = None \<and> sees_token t x) (\<lambda>x. x\<lparr>it_UsedAt := Some dbnow\<rparr>))"

section \<open>The question bank\<close>

definition bank_Create :: "time \<Rightarrow> uuid \<Rightarrow> Question \<Rightarrow> (('m, 'h) iv_db, unit) op" where
  "bank_Create dbnow orgID q = insert_row
     (\<lambda>t r. if t \<noteq> Some orgID then Some ErrRLS else None)
     (t_bank_update (\<lambda>xs. xs @ [\<lparr>bk_OrgID = orgID, bk_Category = q_Category q, bk_Body = q_Content q,
        bk_Skills = (if q_Skill q = [] then [] else [q_Skill q]), bk_CreatedAt = dbnow\<rparr>]))"

definition bank_question :: "bank_row \<Rightarrow> Question" where
  "bank_question b = \<lparr>q_Idx = 0, q_Content = bk_Body b, q_Category = bk_Category b,
     q_Skill = (case bk_Skills b of [] \<Rightarrow> [] | s # _ \<Rightarrow> s), q_IsProbe = False, q_Context = [], q_Expectation = []\<rparr>"

definition bank_ListByOrg :: "uuid \<Rightarrow> (('m, 'h) iv_db, Question list) op" where
  "bank_ListByOrg orgID = query (\<lambda>t r. map bank_question (take 100 (newest_first bk_CreatedAt
     (filter (\<lambda>b. bk_OrgID b = orgID \<and> t = Some (bk_OrgID b)) (t_bank r)))))"

end
