(* ===== verification/Interview_Service.thy ===== *)
theory Interview_Service
  imports Interview_Store Question_Generation Protocol
begin

text \<open>
  The interview use cases: \<open>src/backend/internal/interview/application/interview_service.go\<close>. Every method of
  \<open>InterviewService\<close> is an operation on the database state; what it asks of code outside the repository is a
  field of \<open>externals\<close>: the UUID parser, the JSON decoders of a candidate profile and of a question set, the
  token library, the object store, the reader of an organization's question limit and whether a task queue
  is configured. Fresh identities and the random invitation token are arguments, so is the clock.
\<close>

section \<open>What the service is given\<close>

datatype iv_effect =
    EnqueueInterviewInvitation string string string uuid string
  | EnqueueHumanRequest string string string uuid
  | EnqueueEvaluationTask uuid uuid

type_synonym 'm iv_state = "('m, iv_effect) iv_db"

record externals =
  x_ParseUUID :: "string \<Rightarrow> uuid result"
  x_DecodeProfile :: "string \<Rightarrow> (string list \<times> string) result"
  x_DecodeQuestionSet :: "string \<Rightarrow> QuestionSet result"
  x_ParseToken :: "string \<Rightarrow> Claims result"
  x_IssueToken :: "Claims \<Rightarrow> string result"
  x_Download :: "string \<Rightarrow> string result result result" \<comment> \<open>opening the object, reading it to its end, closing it\<close>
  x_QALimit :: "(uuid \<Rightarrow> int result) option"
  x_Enqueuer :: bool

definition ticketTTL :: duration where "ticketTTL = 10 * minute"
definition inviteTTL :: duration where "inviteTTL = 7 * 24 * 60 * minute"
definition DefaultQALimit :: int where "DefaultQALimit = 10"
definition DefaultContextWindow :: int where "DefaultContextWindow = 10"
definition maxStoredQAAnswerRunes :: nat where "maxStoredQAAnswerRunes = 4000"

definition ErrQALimitExceeded :: error where
  "ErrQALimitExceeded = DomainError ''QA_LIMIT_EXCEEDED'' ''the candidate question limit for this interview has been reached''"

definition ErrInterviewNotActive :: error where
  "ErrInterviewNotActive = DomainError ''INTERVIEW_NOT_ACTIVE'' ''this interview is no longer active''"

definition ErrTokenInvalid :: error where
  "ErrTokenInvalid = DomainError ''TOKEN_INVALID'' ''invalid invitation token''"

definition ErrTokenMismatch :: error where
  "ErrTokenMismatch = DomainError ''TOKEN_MISMATCH'' ''token does not match this interview''"

definition ErrExpired :: error where "ErrExpired = DomainError ''INTERVIEW_EXPIRED'' ''interview expired''"

definition ErrInvalidOrgID :: error where "ErrInvalidOrgID = DomainError ''INVALID_ORG_ID'' ''invalid organization id''"

section \<open>Creating an interview\<close>

definition candidateProfile :: "externals \<Rightarrow> Candidate \<Rightarrow> (string list \<times> string) result" where
  "candidateProfile x c = (if cand_CVStructured c = [] then Inr ([], cand_CVRawText c)
     else (case x_DecodeProfile x (cand_CVStructured c) of
         Inl e \<Rightarrow> Inl (Wrapped ''decode candidate profile'' e) | Inr p \<Rightarrow> Inr p))"

definition generateQuestions ::
  "externals \<Rightarrow> Candidate \<Rightarrow> Job \<Rightarrow> int \<Rightarrow> QuestionSet option \<Rightarrow> GenQuestion list result" where
  "generateQuestions x candidate job qcount set1 = (case candidateProfile x candidate of
     Inl e \<Rightarrow> Inl e
   | Inr (skills, summary) \<Rightarrow> Inr (GenerateQuestions
       \<lparr>cp_Skills = skills, cp_ExperienceYears = 0, cp_Education = [], cp_Certifications = [], cp_Summary = summary\<rparr>
       \<lparr>jr_Title = job_Title job, jr_Description = job_Description job, jr_RequiredSkills = job_RequiredSkills job\<rparr>
       qcount [set1]))"

definition domain_question :: "nat \<times> GenQuestion \<Rightarrow> Question" where
  "domain_question = (\<lambda>(i, q). \<lparr>q_Idx = i + 1, q_Content = gq_Prompt q, q_Category = gq_Category q,
     q_Skill = gq_Skill q, q_IsProbe = False, q_Context = gq_Context q, q_Expectation = gq_Expectation q\<rparr>)"

fun bank_all :: "time \<Rightarrow> uuid \<Rightarrow> Question list \<Rightarrow> ('m iv_state, unit) op" where
  "bank_all dbnow orgID [] = ret ()"
| "bank_all dbnow orgID (q # qs) = bindE (bank_Create dbnow orgID q) (\<lambda>_. bank_all dbnow orgID qs)"

record CreateInterviewResult =
  cir_InterviewID :: uuid
  cir_Token :: string
  cir_ExpiresAt :: time
  cir_ContextVersion :: int
  cir_EmailEnqueued :: bool
  cir_EmailError :: string

text \<open>The transaction: the result and, for the e-mail, the candidate's address and name and the job title.\<close>

definition create_interview_tx ::
  "externals \<Rightarrow> time \<Rightarrow> time \<Rightarrow> uuid \<Rightarrow> uuid \<Rightarrow> string result \<Rightarrow> AuthContext \<Rightarrow> uuid \<Rightarrow> int
     \<Rightarrow> ('m iv_state, CreateInterviewResult \<times> string \<times> string \<times> string) op" where
  "create_interview_tx x now dbnow newiv newtok token actor applicationID qcount =
     bindE (map_error (\<lambda>e. if e = app_ErrNotFound then NotFoundError ''application'' applicationID else e)
       (app_GetByID applicationID)) (\<lambda>app.
     bindE (fail_if (app_OrgID app \<noteq> ac_OrgID actor)
       (DomainError ''FORBIDDEN'' ''application belongs to another org'')) (\<lambda>_.
     bindE (fail_if (app_PassedScreening app \<noteq> Some True)
       (DomainError ''APPLICATION_NOT_PASSED'' ''only passed applications can be interviewed'')) (\<lambda>_.
     bindE (cand_GetByID (app_CandidateID app)) (\<lambda>candidate.
     bindE (job_GetByID (app_JobID app)) (\<lambda>job.
     bindE (fail_if (job_Status job \<noteq> job_StatusActive) (DomainError ''JOB_NOT_ACTIVE'' ''job is not active'')) (\<lambda>_.
     bindE (LoadQuestionSet (job_ID job)) (\<lambda>rawSet.
     bindE (lift (generateQuestions x candidate job qcount (SelectQuestionSet (x_DecodeQuestionSet x) rawSet))) (\<lambda>gqs.
     let questions = map domain_question (enumerate 0 gqs) in
     bindE (bank_all dbnow (ac_OrgID actor) questions) (\<lambda>_.
     bindE (lift (NewInterview newiv now (ac_OrgID actor) (app_ID app) questions (now + inviteTTL))) (\<lambda>iv.
     bindE (ctx_ListContexts (ac_OrgID actor)) (\<lambda>contexts.
     let iv = (case contexts of [] \<Rightarrow> iv | c # _ \<Rightarrow> iv\<lparr>ContextVersion := cc_Version c\<rparr>) in
     bindE (iv_Create iv) (\<lambda>_.
     bindE (lift (case token of Inl e \<Rightarrow> Inl (Wrapped ''generate invitation token'' e) | Inr s \<Rightarrow> Inr s)) (\<lambda>invite.
     bindE (token_Create dbnow \<lparr>it_ID = newtok, it_OrgID = ac_OrgID actor, it_InterviewID = iv_ID iv, it_Token = invite,
        it_ExpiresAt = now + inviteTTL, it_UsedAt = None, it_RevokedAt = None, it_CreatedAt = zero_time\<rparr>) (\<lambda>_.
     ret (\<lparr>cir_InterviewID = iv_ID iv, cir_Token = invite, cir_ExpiresAt = now + inviteTTL,
        cir_ContextVersion = ContextVersion iv, cir_EmailEnqueued = False, cir_EmailError = []\<rparr>,
        cand_Email candidate, cand_Name candidate, job_Title job)))))))))))))))"

definition email_retry_text :: string where
  "email_retry_text = ''interview created but invitation email could not be queued; retry an invite''"

definition CreateInterview ::
  "externals \<Rightarrow> time \<Rightarrow> time \<Rightarrow> uuid \<Rightarrow> uuid \<Rightarrow> string result \<Rightarrow> AuthContext \<Rightarrow> uuid \<Rightarrow> int
     \<Rightarrow> ('m iv_state, CreateInterviewResult) op" where
  "CreateInterview x now dbnow newiv newtok token actor applicationID qcount =
     bindE (check (Authorize actor [RoleAdmin, RoleRecruiter])) (\<lambda>_.
     bindE (RunInTx (ac_OrgID actor) (create_interview_tx x now dbnow newiv newtok token actor applicationID qcount))
       (\<lambda>(res, email, name, title).
     if x_Enqueuer x \<and> email \<noteq> [] then
       bindE (attempt (emit (EnqueueInterviewInvitation email name title (cir_InterviewID res) (cir_Token res)))) (\<lambda>r.
       ret (case r of Inl e \<Rightarrow> res\<lparr>cir_EmailError := email_retry_text\<rparr> | Inr _ \<Rightarrow> res\<lparr>cir_EmailEnqueued := True\<rparr>))
     else ret res))"

section \<open>Tickets, consent, the request for a human\<close>

record IssueTicketResult =
  itr_Ticket :: string
  itr_SessionID :: uuid
  itr_ExpiresAt :: time

text \<open>The switch on the status of the invitation, then the check that it is for this interview.\<close>

definition ticket_invite :: "uuid \<Rightarrow> InvitationToken option \<times> TokenStatus \<Rightarrow> InvitationToken result" where
  "ticket_invite interviewID = (\<lambda>(invite, status).
     let matching = (case invite of Some i \<Rightarrow> if it_InterviewID i = interviewID then Inr i else Inl ErrTokenMismatch
                    | None \<Rightarrow> Inl ErrTokenMismatch) in
     case status of
       TokenValid \<Rightarrow> matching
     | TokenUsed \<Rightarrow> matching
     | TokenExpired \<Rightarrow> Inl (DomainError ''TOKEN_EXPIRED'' ''invitation expired'')
     | TokenRevoked \<Rightarrow> Inl (DomainError ''TOKEN_REVOKED'' ''invitation revoked'')
     | TokenNotFound \<Rightarrow> Inl ErrTokenInvalid)"

definition IssueTicket ::
  "externals \<Rightarrow> time \<Rightarrow> time \<Rightarrow> uuid \<Rightarrow> uuid \<Rightarrow> string \<Rightarrow> ('m iv_state, IssueTicketResult) op" where
  "IssueTicket x now dbnow sessionID interviewID tok =
     bindE (Validate dbnow tok) (\<lambda>v.
     bindE (lift (ticket_invite interviewID v)) (\<lambda>invite.
     bindE (RunInTx (it_OrgID invite)
       (bindE (MarkUsed dbnow tok) (\<lambda>_.
        bindE (iv_GetByID interviewID) (\<lambda>iv. iv_Update dbnow iv)))) (\<lambda>_.
     bindE (lift (x_IssueToken x \<lparr>cl_Subject = interviewID, cl_OrgID = it_OrgID invite, cl_Role = ''candidate'',
        cl_Type = TokenTypeWSTicket, cl_SessionID = sessionID, cl_InterviewID = interviewID\<rparr>)) (\<lambda>ticket.
     ret \<lparr>itr_Ticket = ticket, itr_SessionID = sessionID, itr_ExpiresAt = now + ticketTTL\<rparr>))))"

text \<open>Who may speak for the candidate: the invitation, or else a WebSocket ticket for this interview.\<close>

definition request_org ::
  "externals \<Rightarrow> uuid \<Rightarrow> string \<Rightarrow> InvitationToken option \<times> TokenStatus \<Rightarrow> uuid result" where
  "request_org x interviewID tok = (\<lambda>(invite, status).
     if status \<noteq> TokenValid \<and> status \<noteq> TokenUsed then
       (case x_ParseToken x tok of
          Inl e \<Rightarrow> Inl ErrTokenInvalid
        | Inr c \<Rightarrow> if cl_Type c \<noteq> TokenTypeWSTicket then Inl ErrTokenInvalid
            else if cl_InterviewID c \<noteq> interviewID then Inl ErrTokenMismatch
            else Inr (cl_OrgID c))
     else (case invite of Some i \<Rightarrow> if it_InterviewID i = interviewID then Inr (it_OrgID i) else Inl ErrTokenMismatch
          | None \<Rightarrow> Inl ErrTokenMismatch))"

text \<open>The join of the interview's application with candidate, job and the recruiters of the organization.\<close>

definition recruiters_of :: "uuid \<Rightarrow> uuid option \<Rightarrow> 'm iv_tables_scheme \<Rightarrow> (string \<times> string \<times> string) list" where
  "recruiters_of interviewID t r = (case iv_find interviewID t r of None \<Rightarrow> []
     | Some iv \<Rightarrow> [(u_Email u, cand_Name c, job_Title j).
         a \<leftarrow> t_applications r, app_ID a = iv_ApplicationID iv \<and> sees_app t a,
         c \<leftarrow> t_candidates r, cand_ID c = app_CandidateID a \<and> sees_cand t c,
         j \<leftarrow> t_jobs r, job_ID j = app_JobID a \<and> sees_job t j,
         u \<leftarrow> t_users r, u_OrgID u = app_OrgID a \<and> (u_Role u = RoleAdmin \<or> u_Role u = RoleRecruiter)
                         \<and> t = Some (u_OrgID u)])"

fun notify_all :: "uuid \<Rightarrow> (string \<times> string \<times> string) list \<Rightarrow> ('m iv_state, unit) op" where
  "notify_all interviewID [] = ret ()"
| "notify_all interviewID ((email, name, title) # ns) =
     (if email = [] then notify_all interviewID ns
      else bindE (attempt (emit (EnqueueHumanRequest email name title interviewID))) (\<lambda>_. notify_all interviewID ns))"

definition RequestHuman :: "externals \<Rightarrow> time \<Rightarrow> uuid \<Rightarrow> string \<Rightarrow> ('m iv_state, unit) op" where
  "RequestHuman x dbnow interviewID tok =
     bindE (Validate dbnow tok) (\<lambda>v.
     bindE (lift (request_org x interviewID tok v)) (\<lambda>orgID.
     bindE (RunInTx orgID
       (bindE (SetHumanRequested dbnow interviewID True) (\<lambda>_. query (recruiters_of interviewID)))) (\<lambda>notify.
     if x_Enqueuer x then notify_all interviewID notify else ret ())))"

definition GiveConsent :: "time \<Rightarrow> uuid \<Rightarrow> string \<Rightarrow> ('m iv_state, unit) op" where
  "GiveConsent dbnow interviewID tok =
     bindE (Validate dbnow tok) (\<lambda>(invite, status).
     bindE (fail_if (status \<noteq> TokenValid \<and> status \<noteq> TokenUsed) ErrTokenInvalid) (\<lambda>_.
     case invite of None \<Rightarrow> throw ErrTokenMismatch
     | Some i \<Rightarrow> if it_InterviewID i \<noteq> interviewID then throw ErrTokenMismatch
         else RunInTx (it_OrgID i) (SetConsent dbnow interviewID)))"

section \<open>Connecting: contexts, ownership, resume state\<close>

record ConnectContexts =
  con_Prompt :: string
  con_QAContext :: string
  con_GroundingUnavailable :: bool

text \<open>What one tenant transaction pins: tenant prompt, path of the company context, job context.\<close>

definition connect_tx :: "uuid \<Rightarrow> uuid \<Rightarrow> ('m iv_state, string \<times> string \<times> string) op" where
  "connect_tx orgID interviewID =
     bindE (attempt (ctx_GetLatestPrompt orgID)) (\<lambda>p.
     bindE (case p of Inr x \<Rightarrow> ret (tp_SystemPrompt x)
        | Inl e \<Rightarrow> if err_is e ctx_ErrNotFound then ret [] else throw (Wrapped ''load tenant prompt'' e)) (\<lambda>tenantPrompt.
     bindE (map_error (Wrapped ''list company contexts'') (ctx_ListContexts orgID)) (\<lambda>contexts.
     let path = (case contexts of [] \<Rightarrow> [] | c # _ \<Rightarrow> cc_StoragePath c) in
     bindE (attempt (iv_GetByID interviewID)) (\<lambda>r. case r of
        Inl e \<Rightarrow> if err_is e ErrNotFound then ret (tenantPrompt, path, [])
                else throw (Wrapped ''load interview for grounding'' e)
      | Inr iv \<Rightarrow>
          bindE (map_error (Wrapped ''load application for grounding'') (app_GetByID (iv_ApplicationID iv))) (\<lambda>app.
          bindE (attempt (jobctx_GetByJobID (app_JobID app))) (\<lambda>c. case c of
             Inl e \<Rightarrow> if err_is e job_ErrNotFound then ret (tenantPrompt, path, [])
                     else throw (Wrapped ''load job candidate context for grounding'' e)
           | Inr cc \<Rightarrow> ret (tenantPrompt, path, cx_Content cc)))))))"

definition qa_grounding :: "string \<Rightarrow> string \<Rightarrow> string" where
  "qa_grounding job company =
     (if job = [] then [] else ''Job candidate context:'' @ newline @ job @ newline @ newline)
     @ (if company = [] then [] else ''Company context:'' @ newline @ company)"

definition company_of :: "externals \<Rightarrow> string \<Rightarrow> string result" where
  "company_of x path = (if path = [] then Inr []
     else (case x_Download x path of
         Inl e \<Rightarrow> Inl (Wrapped ''download company context'' e)
       | Inr (Inl e) \<Rightarrow> Inl (Wrapped ''read company context'' e)
       | Inr (Inr (Inl e)) \<Rightarrow> Inl (Wrapped ''close company context'' e)
       | Inr (Inr (Inr s)) \<Rightarrow> Inr s))"

definition ComposeConnectContexts :: "externals \<Rightarrow> uuid \<Rightarrow> uuid \<Rightarrow> ('m iv_state, ConnectContexts) op" where
  "ComposeConnectContexts x orgID interviewID =
     bindE (RunInTx orgID (connect_tx orgID interviewID)) (\<lambda>(tenantPrompt, path, job).
     bindE (lift (company_of x path)) (\<lambda>company.
     ret \<lparr>con_Prompt = ComposeSystemPrompt \<lparr>ci_DefaultPrompt = DefaultInterviewerPrompt, ci_TenantPrompt = tenantPrompt,
            ci_CompanyContext = company, ci_JobContext = job\<rparr>,
          con_QAContext = qa_grounding job company, con_GroundingUnavailable = False\<rparr>))"

definition VerifyInterviewOrg :: "uuid \<Rightarrow> uuid \<Rightarrow> ('m iv_state, unit) op" where
  "VerifyInterviewOrg orgID interviewID = RunInTx orgID
     (bindE (map_error (\<lambda>e. if e = ErrNotFound then DomainError ''FORBIDDEN'' ''interview not found in this org'' else e)
        (iv_GetByID interviewID)) (\<lambda>iv.
      bindE (app_GetByID (iv_ApplicationID iv)) (\<lambda>app.
      fail_if (app_OrgID app \<noteq> orgID) (DomainError ''FORBIDDEN'' ''interview belongs to another org''))))"

definition StartInterview :: "time \<Rightarrow> time \<Rightarrow> uuid \<Rightarrow> uuid \<Rightarrow> ('m iv_state, unit) op" where
  "StartInterview now dbnow orgID interviewID = RunInTx orgID
     (bindE (iv_GetByID interviewID) (\<lambda>iv0.
      let iv = ExpireIfNeeded now iv0 in
      bindE (fail_if (iv_Status iv = Expired) ErrExpired) (\<lambda>_.
      bindE (fail_if (\<not> ConsentGiven iv)
        (DomainError ''CONSENT_REQUIRED'' ''candidate consent must be recorded before the interview'')) (\<lambda>_.
      bindE (lift (Start now iv)) (\<lambda>iv'. iv_Update dbnow iv')))))"

definition CurrentState :: "time \<Rightarrow> uuid \<Rightarrow> uuid \<Rightarrow> ('m iv_state, Question option \<times> nat \<times> Status) op" where
  "CurrentState now orgID interviewID = RunInTx orgID
     (bindE (iv_GetByID interviewID) (\<lambda>iv0.
      let iv = ExpireIfNeeded now iv0 in
      ret (if iv_Status iv = InProgress then NextQuestion iv else None, length (Questions iv), iv_Status iv)))"

definition history_of :: "Interview \<Rightarrow> ContextMessage list" where
  "history_of iv = concat (map (\<lambda>a.
     if 1 \<le> a_Idx a \<and> a_Idx a \<le> length (Questions iv) then
       [\<lparr>cm_Role = RoleAssistant, cm_Content = q_Content (Questions iv ! (a_Idx a - 1))\<rparr>,
        \<lparr>cm_Role = RoleUser, cm_Content = a_Content a\<rparr>]
     else []) (Answers iv))"

definition RecentContext :: "uuid \<Rightarrow> uuid \<Rightarrow> ('m iv_state, ContextMessage list) op" where
  "RecentContext orgID interviewID =
     bindE (RunInTx orgID (bindE (iv_GetByID interviewID) (\<lambda>iv. ret (history_of iv))))
       (\<lambda>history. ret (TrimContext history DefaultContextWindow))"

definition Transcript :: "uuid \<Rightarrow> uuid \<Rightarrow> ('m iv_state, TranscriptPair list) op" where
  "Transcript orgID interviewID =
     RunInTx orgID (bindE (iv_GetByID interviewID) (\<lambda>iv. ret (TranscriptPairs iv)))"

section \<open>The dialogue step\<close>

record TopicDialogueResult =
  tdr_NextQuestion :: "Question option"
  tdr_IsTopicComplete :: bool
  tdr_CurrentTurn :: nat
  tdr_MaxTurns :: nat
  tdr_TotalQuestions :: nat
  tdr_TransitionErr :: "error option"

text \<open>
  After a topic has closed on an ordinary question with a shallow answer: the probe goes into the interview
  and into the bank. A failure of either is logged; the dialogue goes on with the next question it had.
\<close>

definition probe_step ::
  "time \<Rightarrow> uuid \<Rightarrow> string \<Rightarrow> Question option \<Rightarrow> bool \<Rightarrow> Interview \<Rightarrow> Question option
     \<Rightarrow> ('m iv_state, Interview \<times> Question option) op" where
  "probe_step dbnow orgID content asked isComplete iv nxt = (case asked of
     Some q \<Rightarrow>
       if isComplete \<and> \<not> q_IsProbe q \<and> ShouldProbe content then
         (let probe = ProbeQuestion (q_Category q) (q_Skill q) in
          case InsertProbeAfter (int (q_Idx q)) (gq_Prompt probe) (gq_Category probe) (gq_Skill probe) iv of
            Inl e \<Rightarrow> ret (iv, nxt)
          | Inr (iv', p) \<Rightarrow> bindE (attempt (bank_Create dbnow orgID p)) (\<lambda>r.
              ret (iv', case r of Inl e \<Rightarrow> nxt | Inr _ \<Rightarrow> Some p)))
       else ret (iv, nxt)
   | None \<Rightarrow> ret (iv, nxt))"

text \<open>The last question: the interview completes. A failed transition is reported, not swallowed.\<close>

definition completion :: "time \<Rightarrow> bool \<Rightarrow> Question option \<Rightarrow> Interview \<Rightarrow> Interview \<times> error option" where
  "completion now isComplete nxt iv =
     (if isComplete \<and> nxt = None then (case Complete now iv of Inl e \<Rightarrow> (iv, Some e) | Inr iv' \<Rightarrow> (iv', None))
      else (iv, None))"

definition dialogue_finish ::
  "time \<Rightarrow> time \<Rightarrow> bool \<Rightarrow> nat \<Rightarrow> nat \<Rightarrow> Interview \<Rightarrow> Question option \<Rightarrow> ('m iv_state, TopicDialogueResult) op" where
  "dialogue_finish now dbnow isComplete turn maxTurns iv nxt =
     (let (iv', transitionErr) = completion now isComplete nxt iv in
      bindE (iv_Update dbnow iv') (\<lambda>_.
      ret \<lparr>tdr_NextQuestion = nxt, tdr_IsTopicComplete = isComplete, tdr_CurrentTurn = turn,
        tdr_MaxTurns = maxTurns, tdr_TotalQuestions = length (Questions iv'), tdr_TransitionErr = transitionErr\<rparr>))"

definition dialogue_tx ::
  "time \<Rightarrow> time \<Rightarrow> uuid \<Rightarrow> uuid \<Rightarrow> string \<Rightarrow> string \<Rightarrow> PacingMetrics option \<Rightarrow> ('m iv_state, TopicDialogueResult) op" where
  "dialogue_tx now dbnow orgUUID interviewID content action pacing =
     bindE (iv_GetByID interviewID) (\<lambda>iv0.
     let iv1 = ExpireIfNeeded now iv0 in
     bindE (fail_if (iv_Status iv1 = Expired) ErrExpired) (\<lambda>_.
     bindE (lift (ProcessTopicDialogue now content action pacing iv1)) (\<lambda>(iv2, nxt, isComplete, turn, maxTurns).
     bindE (probe_step dbnow orgUUID content (NextQuestion iv1) isComplete iv2 nxt) (\<lambda>(iv3, nxt).
     dialogue_finish now dbnow isComplete turn maxTurns iv3 nxt))))"

definition svc_ProcessTopicDialogue ::
  "externals \<Rightarrow> time \<Rightarrow> time \<Rightarrow> uuid \<Rightarrow> uuid \<Rightarrow> string \<Rightarrow> string \<Rightarrow> PacingMetrics option
     \<Rightarrow> ('m iv_state, TopicDialogueResult) op" where
  "svc_ProcessTopicDialogue x now dbnow orgID interviewID content action pacing =
     (case x_ParseUUID x orgID of
        Inl e \<Rightarrow> throw ErrInvalidOrgID
      | Inr orgUUID \<Rightarrow> RunInTx orgID (dialogue_tx now dbnow orgUUID interviewID content action pacing))"

definition AnswerAndAdvanceWithPacing ::
  "externals \<Rightarrow> time \<Rightarrow> time \<Rightarrow> uuid \<Rightarrow> uuid \<Rightarrow> string \<Rightarrow> PacingMetrics option \<Rightarrow> ('m iv_state, Question option \<times> nat) op" where
  "AnswerAndAdvanceWithPacing x now dbnow orgID interviewID content pacing =
     bindE (svc_ProcessTopicDialogue x now dbnow orgID interviewID content advance pacing)
       (\<lambda>res. ret (tdr_NextQuestion res, tdr_TotalQuestions res))"

definition AnswerAndAdvance ::
  "externals \<Rightarrow> time \<Rightarrow> time \<Rightarrow> uuid \<Rightarrow> uuid \<Rightarrow> string \<Rightarrow> ('m iv_state, Question option) op" where
  "AnswerAndAdvance x now dbnow orgID interviewID content =
     bindE (AnswerAndAdvanceWithPacing x now dbnow orgID interviewID content None) (\<lambda>(nxt, _). ret nxt)"

section \<open>The evaluation\<close>

text \<open>\<open>len(iv.Evaluation) > 0\<close>; losing the race against another writer is success.\<close>

definition EvaluateAndPersist :: "time \<Rightarrow> uuid \<Rightarrow> uuid \<Rightarrow> string \<Rightarrow> ('m iv_state, unit) op" where
  "EvaluateAndPersist dbnow orgID interviewID report =
     bindE (attempt (RunInTx orgID
       (bindE (iv_GetByID interviewID) (\<lambda>iv.
        if (case iv_Evaluation iv of None \<Rightarrow> False | Some s \<Rightarrow> s \<noteq> []) then ret ()
        else SaveEvaluation dbnow interviewID report)))) (\<lambda>r.
     case r of Inr u \<Rightarrow> ret () | Inl e \<Rightarrow> if e = ErrEvaluationExists then ret () else throw e)"

definition EnqueueEvaluation :: "externals \<Rightarrow> uuid \<Rightarrow> uuid \<Rightarrow> ('m iv_state, unit) op" where
  "EnqueueEvaluation x orgID interviewID =
     (if x_Enqueuer x then emit (EnqueueEvaluationTask orgID interviewID) else ret ())"

section \<open>Telemetry\<close>

definition RecordTelemetry :: "time \<Rightarrow> uuid \<Rightarrow> uuid \<Rightarrow> ProctoringEvent \<Rightarrow> ('m iv_state, unit) op" where
  "RecordTelemetry dbnow orgID interviewID event = RunInTx orgID (iv_RecordProctoringEvent dbnow interviewID event)"

definition ErrTelemetryAuth :: error where
  "ErrTelemetryAuth = DomainError ''AUTH_UNAUTHORIZED'' ''valid ticket or invitation token required for telemetry''"

definition ticket_telemetry ::
  "externals \<Rightarrow> time \<Rightarrow> uuid \<Rightarrow> string \<Rightarrow> ProctoringEvent \<Rightarrow> ('m iv_state, unit) op" where
  "ticket_telemetry x dbnow interviewID tok event = (case x_ParseToken x tok of
     Inl e \<Rightarrow> throw ErrTelemetryAuth
   | Inr c \<Rightarrow>
       if cl_Type c = TokenTypeWSTicket \<and> cl_InterviewID c = interviewID then
         map_error (\<lambda>e. if as_domain e \<noteq> None then e else ErrTelemetryAuth)
           (RunInTx (cl_OrgID c)
             (bindE (iv_GetByID interviewID) (\<lambda>iv.
              bindE (fail_if (iv_OrgID iv \<noteq> cl_OrgID c)
                (DomainError ''AUTH_FORBIDDEN'' ''ticket org does not match this interview'')) (\<lambda>_.
              iv_RecordProctoringEvent dbnow interviewID event))))
       else throw ErrTelemetryAuth)"

definition RecordCandidateTelemetry ::
  "externals \<Rightarrow> time \<Rightarrow> uuid \<Rightarrow> string \<Rightarrow> ProctoringEvent \<Rightarrow> ('m iv_state, unit) op" where
  "RecordCandidateTelemetry x dbnow interviewID tok event =
     bindE (Validate dbnow tok) (\<lambda>(invite, status).
     case (if status = TokenValid \<or> status = TokenUsed then invite else None) of
       Some i \<Rightarrow>
         if it_InterviewID i = interviewID then RecordTelemetry dbnow (it_OrgID i) interviewID event
         else ticket_telemetry x dbnow interviewID tok event
     | None \<Rightarrow> ticket_telemetry x dbnow interviewID tok event)"

definition svc_RecordCodingSession :: "time \<Rightarrow> uuid \<Rightarrow> uuid \<Rightarrow> CodingSession \<Rightarrow> ('m iv_state, unit) op" where
  "svc_RecordCodingSession dbnow orgID interviewID cs = RunInTx orgID (iv_RecordCodingSession dbnow interviewID cs)"

definition TouchInterview :: "time \<Rightarrow> uuid \<Rightarrow> uuid \<Rightarrow> ('m iv_state, unit) op" where
  "TouchInterview dbnow orgID interviewID = RunInTx orgID (iv_Touch dbnow interviewID)"

section \<open>Questions of the candidate\<close>

definition persistExpireIfDue :: "time \<Rightarrow> time \<Rightarrow> uuid \<Rightarrow> uuid \<Rightarrow> ('m iv_state, unit) op" where
  "persistExpireIfDue now dbnow orgID interviewID = RunInTx orgID
     (bindE (iv_GetByID interviewID) (\<lambda>iv.
      if iv_Status (ExpireIfNeeded now iv) \<noteq> Expired then ret () else iv_ExpireIfDue dbnow interviewID))"

definition activeOrError :: "time \<Rightarrow> time \<Rightarrow> uuid \<Rightarrow> uuid \<Rightarrow> ('m iv_state, unit) op" where
  "activeOrError now dbnow orgID interviewID =
     bindE (persistExpireIfDue now dbnow orgID interviewID) (\<lambda>_.
     RunInTx orgID (bindE (iv_GetByID interviewID) (\<lambda>iv.
       fail_if (iv_Status iv \<noteq> InProgress) ErrInterviewNotActive)))"

definition ResolveQALimit :: "externals \<Rightarrow> uuid \<Rightarrow> int" where
  "ResolveQALimit x orgID = (case x_QALimit x of None \<Rightarrow> DefaultQALimit
     | Some read_limit \<Rightarrow> (case read_limit orgID of Inl e \<Rightarrow> DefaultQALimit
         | Inr n \<Rightarrow> if 0 < n then n else DefaultQALimit))"

definition CandidateQARemaining :: "externals \<Rightarrow> time \<Rightarrow> time \<Rightarrow> uuid \<Rightarrow> uuid \<Rightarrow> ('m iv_state, int) op" where
  "CandidateQARemaining x now dbnow orgID interviewID = (case x_ParseUUID x orgID of
     Inl e \<Rightarrow> throw ErrInvalidOrgID
   | Inr orgUUID \<Rightarrow>
       bindE (activeOrError now dbnow orgID interviewID) (\<lambda>_.
       RunInTx orgID (bindE (iv_GetByID interviewID) (\<lambda>iv.
         ret (ResolveQALimit x orgUUID - int (CandidateQACount iv))))))"

definition RecordCandidateQA ::
  "externals \<Rightarrow> time \<Rightarrow> time \<Rightarrow> uuid \<Rightarrow> uuid \<Rightarrow> string \<Rightarrow> string \<Rightarrow> ('m iv_state, unit) op" where
  "RecordCandidateQA x now dbnow orgID interviewID question answer = (case x_ParseUUID x orgID of
     Inl e \<Rightarrow> throw ErrInvalidOrgID
   | Inr orgUUID \<Rightarrow>
       bindE (activeOrError now dbnow orgID interviewID) (\<lambda>_.
       RunInTx orgID
         (bindE (map_error (\<lambda>e. if err_is e ErrQAActive then ErrInterviewNotActive else e)
            (AppendQAPairWithinLimit now dbnow interviewID
               \<lparr>qa_Question = clamp_runes question MaxCandidateQuestionRunes,
                qa_Answer = clamp_runes answer maxStoredQAAnswerRunes, qa_CreatedAt = now\<rparr>
               (ResolveQALimit x orgUUID))) (\<lambda>appended.
          fail_if (\<not> appended) ErrQALimitExceeded))))"

definition GetCandidateQA :: "uuid \<Rightarrow> uuid \<Rightarrow> ('m iv_state, QAPair list) op" where
  "GetCandidateQA orgID interviewID =
     RunInTx orgID (bindE (iv_GetByID interviewID) (\<lambda>iv. ret (QAPairs iv)))"

end
