(* ===== verification/Interview_Guarantees.thy ===== *)
theory Interview_Guarantees
  imports Interview_Service
begin

text \<open>
  What the interview use cases promise together: whatever sequence of calls arrives, the stored interviews
  satisfy the aggregate's invariant, only those of consenting candidates are ever conducted, the history of
  an interview only grows, and a call that fails has changed nothing.
\<close>

section \<open>Rows\<close>

definition conducted :: "Interview \<Rightarrow> bool" where
  "conducted iv \<longleftrightarrow> iv_Status iv = InProgress \<or> iv_Status iv = Completed"

text \<open>
  The questions prepared at creation are the ones that are no probes. A probe follows an ordinary question
  whose topic has closed, so there are never more probes than closed ordinary topics.
\<close>

definition ordinary :: "Question list \<Rightarrow> Question list" where
  "ordinary qs = filter (\<lambda>q. \<not> q_IsProbe q) qs"

definition prepared :: "Interview \<Rightarrow> (string \<times> string \<times> string) list" where
  "prepared iv = map (\<lambda>q. (q_Content q, q_Category q, q_Skill q)) (ordinary (Questions iv))"

definition probes_ok :: "Interview \<Rightarrow> bool" where
  "probes_ok iv \<longleftrightarrow> length (filter q_IsProbe (Questions iv)) \<le> length (ordinary (take (LastQuestionIdx iv) (Questions iv)))"

definition wfp :: "Interview \<Rightarrow> bool" where
  "wfp iv \<longleftrightarrow> wf_interview iv \<and> probes_ok iv"

definition row_ok :: "Interview \<Rightarrow> bool" where
  "row_ok iv \<longleftrightarrow> wfp iv \<and> (conducted iv \<longrightarrow> ConsentGiven iv)"

definition wf_iv :: "'m iv_tables_scheme \<Rightarrow> bool" where
  "wf_iv r \<longleftrightarrow> distinct (map iv_ID (t_interviews r)) \<and> list_all row_ok (t_interviews r)"

text \<open>A later state of the same interview.\<close>

definition status_le :: "Status \<Rightarrow> Status \<Rightarrow> bool" where
  "status_le s t \<longleftrightarrow> t = s \<or> rank s < rank t"

definition iv_le :: "Interview \<Rightarrow> Interview \<Rightarrow> bool" where
  "iv_le x y \<longleftrightarrow> iv_ID y = iv_ID x \<and> iv_ApplicationID y = iv_ApplicationID x
     \<and> status_le (iv_Status x) (iv_Status y)
     \<and> prefix (Answers x) (Answers y) \<and> prefix (QAPairs x) (QAPairs y) \<and> prefix (CodingSessions x) (CodingSessions y)
     \<and> (iv_Evaluation x \<noteq> None \<longrightarrow> iv_Evaluation y = iv_Evaluation x)
     \<and> (ConsentGiven x \<longrightarrow> ConsentGiven y) \<and> (StartedAt x \<noteq> None \<longrightarrow> StartedAt y = StartedAt x)
     \<and> prepared y = prepared x"

definition evolves :: "Interview list \<Rightarrow> Interview list \<Rightarrow> bool" where
  "evolves xs ys \<longleftrightarrow> length xs \<le> length ys \<and> list_all2 iv_le xs (take (length xs) ys)"

lemma status_le_refl [simp]: "status_le s s"
  by (simp add: status_le_def)

lemma status_le_trans: "status_le a b \<Longrightarrow> status_le b c \<Longrightarrow> status_le a c"
  by (auto simp: status_le_def)

lemma iv_le_refl [simp]: "iv_le x x"
  by (simp add: iv_le_def)

lemma iv_le_trans: "iv_le x y \<Longrightarrow> iv_le y z \<Longrightarrow> iv_le x z"
  by (simp add: iv_le_def) (meson status_le_trans prefix_order.trans)

lemma evolves_refl [simp]: "evolves xs xs"
  by (simp add: evolves_def list_all2_same)

lemma evolves_nth: "evolves xs ys \<longleftrightarrow> length xs \<le> length ys \<and> (\<forall>i < length xs. iv_le (xs ! i) (ys ! i))"
  by (auto simp: evolves_def list_all2_conv_all_nth)

lemma evolves_trans: "evolves xs ys \<Longrightarrow> evolves ys zs \<Longrightarrow> evolves xs zs"
  unfolding evolves_nth by (meson iv_le_trans order.trans order_less_le_trans)

lemma evolves_append [simp]: "evolves xs (xs @ ys)"
  by (simp add: evolves_nth nth_append)

lemma evolves_map_hits: "(\<And>x. x \<in> set xs \<Longrightarrow> hit x \<Longrightarrow> iv_le x (f x)) \<Longrightarrow> evolves xs (map_hits hit f xs)"
  by (simp add: evolves_nth map_hits_def)

text \<open>One call: the invariant is kept and every interview has moved on only.\<close>

definition moves :: "'m iv_tables_scheme \<Rightarrow> 'm iv_tables_scheme \<Rightarrow> bool" where
  "moves r r' \<longleftrightarrow> (wf_iv r \<longrightarrow> wf_iv r' \<and> evolves (t_interviews r) (t_interviews r'))"

lemma moves_refl [simp]: "moves r r"
  by (simp add: moves_def)

lemma moves_trans: "moves r s \<Longrightarrow> moves s t \<Longrightarrow> moves r t"
  unfolding moves_def by (blast intro: evolves_trans)

lemma moves_same: "t_interviews r' = t_interviews r \<Longrightarrow> moves r r'"
  by (simp add: moves_def wf_iv_def)

lemma moves_hits:
  assumes "t_interviews r' = map_hits hit f (t_interviews r)"
    and "\<And>x. x \<in> set (t_interviews r) \<Longrightarrow> hit x \<Longrightarrow> distinct (map iv_ID (t_interviews r)) \<Longrightarrow> row_ok x \<Longrightarrow>
      row_ok (f x) \<and> iv_le x (f x)"
  shows "moves r r'"
  unfolding moves_def
proof
  assume w: "wf_iv r"
  then have d: "distinct (map iv_ID (t_interviews r))" and ok: "\<And>x. x \<in> set (t_interviews r) \<Longrightarrow> row_ok x"
    by (simp_all add: wf_iv_def list_all_iff)
  have le: "iv_le x (f x)" and rok: "row_ok (f x)" if "x \<in> set (t_interviews r)" "hit x" for x
    using assms(2) [OF that d ok [OF that(1)]] by simp_all
  have "map iv_ID (map_hits hit f (t_interviews r)) = map iv_ID (t_interviews r)"
    using le by (simp add: map_hits_def iv_le_def)
  moreover have "list_all row_ok (map_hits hit f (t_interviews r))"
    using rok ok by (auto simp: list_all_iff set_map_hits)
  ultimately show "wf_iv r' \<and> evolves (t_interviews r) (t_interviews r')"
    using d le by (simp add: wf_iv_def assms(1) evolves_map_hits)
qed

text \<open>Updates that never touch the dialogue.\<close>

definition same_dialogue :: "Interview \<Rightarrow> Interview \<Rightarrow> bool" where
  "same_dialogue x y \<longleftrightarrow> iv_ID y = iv_ID x \<and> iv_ApplicationID y = iv_ApplicationID x \<and> iv_Status y = iv_Status x
     \<and> Questions y = Questions x \<and> Answers y = Answers x \<and> LastQuestionIdx y = LastQuestionIdx x
     \<and> StartedAt y = StartedAt x \<and> CompletedAt y = CompletedAt x
     \<and> prefix (QAPairs x) (QAPairs y) \<and> prefix (CodingSessions x) (CodingSessions y)
     \<and> (iv_Evaluation x \<noteq> None \<longrightarrow> iv_Evaluation y = iv_Evaluation x) \<and> (ConsentGiven x \<longrightarrow> ConsentGiven y)"

lemma wfp_cong:
  "iv_Status y = iv_Status x \<Longrightarrow> Questions y = Questions x \<Longrightarrow> Answers y = Answers x \<Longrightarrow>
   LastQuestionIdx y = LastQuestionIdx x \<Longrightarrow> StartedAt y = StartedAt x \<Longrightarrow> CompletedAt y = CompletedAt x \<Longrightarrow>
   wfp y = wfp x"
  by (simp add: wfp_def wf_interview_def wf_status_def probes_ok_def cong: Status.case_cong)

lemma prepared_cong: "Questions y = Questions x \<Longrightarrow> prepared y = prepared x"
  by (simp add: prepared_def)

lemma same_dialogue_ok: "same_dialogue x y \<Longrightarrow> row_ok x \<Longrightarrow> row_ok y \<and> iv_le x y"
  using wfp_cong [of y x] prepared_cong [of y x]
  by (simp add: same_dialogue_def row_ok_def iv_le_def conducted_def)

section \<open>Updates of what was read\<close>

text \<open>What a transaction made of the aggregate it read.\<close>

definition onward :: "Interview \<Rightarrow> Interview \<Rightarrow> bool" where
  "onward iv iv' \<longleftrightarrow> status_le (iv_Status iv) (iv_Status iv') \<and> prefix (Answers iv) (Answers iv')
     \<and> QAPairs iv' = QAPairs iv \<and> CodingSessions iv' = CodingSessions iv
     \<and> (StartedAt iv \<noteq> None \<longrightarrow> StartedAt iv' = StartedAt iv) \<and> ConsentGiven iv' = ConsentGiven iv
     \<and> (conducted iv' \<longrightarrow> conducted iv \<or> ConsentGiven iv) \<and> prepared iv' = prepared iv"

definition progressed :: "Interview \<Rightarrow> Interview \<Rightarrow> bool" where
  "progressed iv iv' \<longleftrightarrow> iv_ID iv' = iv_ID iv \<and> (wfp iv \<longrightarrow> wfp iv' \<and> onward iv iv')"

lemma progressed_refl [simp]: "progressed iv iv"
  by (simp add: progressed_def onward_def)

lemma onward_trans: "onward a b \<Longrightarrow> onward b c \<Longrightarrow> onward a c"
  by (simp add: onward_def) (meson status_le_trans prefix_order.trans)

lemma progressed_trans: "progressed a b \<Longrightarrow> progressed b c \<Longrightarrow> progressed a c"
  unfolding progressed_def using onward_trans [of a b c] by simp

text \<open>The operations that leave the questions and the cursor alone.\<close>

lemma progressed_status:
  assumes "iv_ID iv' = iv_ID iv" "Questions iv' = Questions iv" "LastQuestionIdx iv' = LastQuestionIdx iv"
    and "wf_interview iv \<Longrightarrow> wf_interview iv' \<and> onward iv iv'"
  shows "progressed iv iv'"
  using assms by (simp add: progressed_def wfp_def probes_ok_def)

lemma progressed_ExpireIfNeeded: "progressed iv (ExpireIfNeeded now iv)"
proof -
  have "ExpireIfNeeded now iv = iv \<or> (ExpireIfNeeded now iv = iv\<lparr>iv_Status := Expired\<rparr> \<and> rank (iv_Status iv) < 2)"
    using terminal_rank [of "iv_Status iv"] by (auto simp: ExpireIfNeeded_def)
  then show ?thesis using ExpireIfNeeded_wf [of iv now]
    by (elim disjE conjE) (simp_all add: progressed_status onward_def status_le_def conducted_def prepared_def)
qed

lemma progressed_Complete:
  assumes "Complete now iv = Inr iv'"
  shows "progressed iv iv'"
proof -
  from assms have c: "iv_Status iv = InProgress" "iv' = iv\<lparr>iv_Status := Completed, CompletedAt := Some now\<rparr>"
    by (auto simp: Complete_def split: if_splits)
  with Complete_wf [OF assms] show ?thesis
    by (simp add: progressed_status onward_def status_le_def conducted_def prepared_def)
qed

lemma progressed_Start:
  assumes "Start now iv = Inr iv'" "ConsentGiven iv"
  shows "progressed iv iv'"
proof (cases "iv_Status iv")
  case Pending
  with assms have c: "iv' = iv\<lparr>iv_Status := InProgress, StartedAt := Some now, lastActivity := now\<rparr>"
    by (simp add: Start_def)
  have "wf_interview iv \<Longrightarrow> StartedAt iv = None" using Pending by (simp add: wf_interview_def wf_status_def)
  with Start_wf [OF assms(1)] c Pending assms(2) show ?thesis
    by (simp add: progressed_status onward_def status_le_def conducted_def prepared_def)
next
  case InProgress
  with assms show ?thesis by (simp add: Start_def)
qed (use assms in \<open>simp_all add: Start_def\<close>)

lemma ordinary_take_mono: "i \<le> j \<Longrightarrow> length (ordinary (take i qs)) \<le> length (ordinary (take j qs))"
  by (metis append_take_drop_id filter_append length_append le_add1 min.absorb1 ordinary_def take_take)

lemma progressed_dialogue:
  assumes "ProcessTopicDialogue now content action pacing iv = Inr (iv', nxt, isDone, turn, mx)"
  shows "progressed iv iv'"
  using assms
proof (rule ProcessTopicDialogue_cases)
  fix a assume a: "iv' = iv\<lparr>Answers := Answers iv @ [a], lastActivity := now,
        LastQuestionIdx := (if isDone then LastQuestionIdx iv + 1 else LastQuestionIdx iv)\<rparr>"
  have "length (ordinary (take (LastQuestionIdx iv) (Questions iv))) \<le> length (ordinary (take (LastQuestionIdx iv') (Questions iv)))"
    by (rule ordinary_take_mono) (simp add: a)
  then have "probes_ok iv \<Longrightarrow> probes_ok iv'" unfolding probes_ok_def using a by simp
  with ProcessTopicDialogue_wf [OF assms] a show ?thesis
    by (simp add: progressed_def wfp_def onward_def conducted_def prepared_def)
qed

text \<open>Filtering is blind to the renumbering.\<close>

lemma renumbered_filter:
  assumes "map (\<lambda>q. q\<lparr>q_Idx := 0\<rparr>) xs = map (\<lambda>q. q\<lparr>q_Idx := 0\<rparr>) ys"
    and "\<And>q. P (q\<lparr>q_Idx := 0\<rparr>) = P q" "\<And>q. f (q\<lparr>q_Idx := 0\<rparr>) = f q"
  shows "map f (filter P xs) = map f (filter P ys)"
proof -
  have "map f (filter P zs) = map f (filter P (map (\<lambda>q. q\<lparr>q_Idx := 0\<rparr>) zs))" for zs
    using assms(2,3) by (induction zs) simp_all
  with assms(1) show ?thesis by metis
qed

lemma probe_questions:
  assumes i: "InsertProbeAfter i txt category skill iv = Inr (iv', p)"
  shows "prepared iv' = prepared iv"
    "length (filter q_IsProbe (Questions iv')) = length (filter q_IsProbe (Questions iv)) + 1"
proof -
  note c = InsertProbeAfter_cases [OF i]
  let ?n = "nat i" and ?qs = "Questions iv" and ?qs' = "Questions iv'"
  have "?n < length ?qs'" using c(2,3,5) by linarith
  then have q': "?qs' = take ?n ?qs @ p # drop (?n + 1) ?qs'"
    using id_take_nth_drop [of ?n ?qs'] c(6,7) by simp
  have p: "q_IsProbe p" by (rule c(11))
  have f: "map f (filter P (drop (?n + 1) ?qs')) = map f (filter P (drop ?n ?qs))"
    if "\<And>q. P (q\<lparr>q_Idx := 0\<rparr>) = P q" "\<And>q. f (q\<lparr>q_Idx := 0\<rparr>) = f q" for P and f :: "Question \<Rightarrow> 'b"
    by (rule renumbered_filter [OF c(8)]) (rule that)+
  have split: "map f (filter P ?qs) = map f (filter P (take ?n ?qs)) @ map f (filter P (drop ?n ?qs))"
    for P and f :: "Question \<Rightarrow> 'b"
    by (metis append_take_drop_id filter_append map_append)
  have all: "map f (filter P ?qs') = map f (filter P (take ?n ?qs)) @ (if P p then [f p] else []) @ map f (filter P (drop ?n ?qs))"
    if "\<And>q. P (q\<lparr>q_Idx := 0\<rparr>) = P q" "\<And>q. f (q\<lparr>q_Idx := 0\<rparr>) = f q" for P and f :: "Question \<Rightarrow> 'b"
    using arg_cong [OF q', of "\<lambda>x. map f (filter P x)"] f [of P f, OF that] by simp
  show "prepared iv' = prepared iv"
    unfolding prepared_def ordinary_def split
    by (subst all) (simp_all add: p)
  have "map (\<lambda>_. ()) (filter q_IsProbe ?qs') = map (\<lambda>_. ()) (filter q_IsProbe (take ?n ?qs)) @ [()]
      @ map (\<lambda>_. ()) (filter q_IsProbe (drop ?n ?qs))"
    by (subst all) (simp_all add: p)
  from arg_cong [OF this, of length] arg_cong [OF split [of "\<lambda>_. ()" q_IsProbe], of length]
  show "length (filter q_IsProbe ?qs') = length (filter q_IsProbe ?qs) + 1" by simp
qed

section \<open>Transactions and calls\<close>

text \<open>\<open>tx_moves\<close>: a transaction body; \<open>top_moves\<close>: a call made outside any transaction.\<close>

named_theorems moves_intros

definition tx_moves :: "('m iv_state, 'a) op \<Rightarrow> bool" where
  "tx_moves fn \<longleftrightarrow> (\<forall>d a d'. fn d = (Inr a, d') \<longrightarrow> moves (tables d) (tables d'))"

definition top_moves :: "('m iv_state, 'a) op \<Rightarrow> bool" where
  "top_moves m \<longleftrightarrow> (\<forall>d r d'. \<not> in_tx d \<longrightarrow> m d = (r, d') \<longrightarrow> moves (tables d) (tables d') \<and> \<not> in_tx d')"

lemma tx_movesI: "(\<And>d a d'. fn d = (Inr a, d') \<Longrightarrow> moves (tables d) (tables d')) \<Longrightarrow> tx_moves fn"
  unfolding tx_moves_def by blast

lemma tx_movesD: "tx_moves fn \<Longrightarrow> fn d = (Inr a, d') \<Longrightarrow> moves (tables d) (tables d')"
  unfolding tx_moves_def by blast

lemma top_movesI:
  "(\<And>d r d'. \<not> in_tx d \<Longrightarrow> m d = (r, d') \<Longrightarrow> moves (tables d) (tables d') \<and> \<not> in_tx d') \<Longrightarrow> top_moves m"
  unfolding top_moves_def by blast

lemma top_movesD: "top_moves m \<Longrightarrow> \<not> in_tx d \<Longrightarrow> m d = (r, d') \<Longrightarrow> moves (tables d) (tables d') \<and> \<not> in_tx d'"
  unfolding top_moves_def by blast

lemma top_moves_pure: "pure_op m \<Longrightarrow> top_moves m"
  by (rule top_movesI) (simp add: pure_opD)

lemma top_moves_bindE [moves_intros]:
  assumes "top_moves m" "\<And>a. top_moves (f a)"
  shows "top_moves (bindE m f)"
proof (rule top_movesI)
  fix d r d' assume d: "\<not> in_tx d" "bindE m f d = (r, d')"
  from d(2) show "moves (tables d) (tables d') \<and> \<not> in_tx d'"
  proof (cases rule: bindE_cases)
    case (step a d1)
    from top_movesD [OF assms(1) d(1) step(1)] top_movesD [OF assms(2) _ step(2)] show ?thesis
      by (blast intro: moves_trans)
  qed (use top_movesD [OF assms(1) d(1)] in blast)
qed

lemma top_moves_attempt [moves_intros]:
  assumes "top_moves m"
  shows "top_moves (attempt m)"
proof (rule top_movesI)
  fix d r d' assume d: "\<not> in_tx d" "attempt m d = (r, d')"
  then obtain q where "m d = (q, d')" by (auto simp: attempt_def split: prod.splits)
  with top_movesD [OF assms d(1)] show "moves (tables d) (tables d') \<and> \<not> in_tx d'" by blast
qed

lemma top_moves_map_error [moves_intros]:
  assumes "top_moves m"
  shows "top_moves (map_error g m)"
proof (rule top_movesI)
  fix d r d' assume d: "\<not> in_tx d" "map_error g m d = (r, d')"
  then obtain q where "m d = (q, d')" by (auto simp: map_error_def split: prod.splits sum.splits)
  with top_movesD [OF assms d(1)] show "moves (tables d) (tables d') \<and> \<not> in_tx d'" by blast
qed

lemma top_moves_RunInTx [moves_intros]:
  assumes "tx_moves fn"
  shows "top_moves (RunInTx orgID fn)"
proof (rule top_movesI)
  fix d r d' assume d: "\<not> in_tx d" "RunInTx orgID fn d = (r, d')"
  show "moves (tables d) (tables d') \<and> \<not> in_tx d'"
  proof (cases r)
    case (Inl e)
    with RunInTx_atomic [OF d(1), of orgID fn e d'] d show ?thesis by simp
  next
    case (Inr a)
    with d have "RunInTx orgID fn d = (Inr a, d')" by simp
    with d(1) obtain d1 d2 where "fn d1 = (Inr a, d2)" "tables d1 = tables d" "tables d' = tables d2" "\<not> in_tx d'"
      by (rule RunInTx_InrD)
    with tx_movesD [OF assms, of d1 a d2] show ?thesis by simp
  qed
qed

lemma top_moves_basic [moves_intros]:
  "top_moves (ret a)" "top_moves (throw e)" "top_moves (lift q)" "top_moves (check c)" "top_moves (fail_if b e)"
  "top_moves (emit h)"
  by (intro top_moves_pure clean_intros)+

lemma pure_op_Validate [clean_intros]: "pure_op (Validate dbnow tok)"
  by (rule pure_opI) (auto simp: Validate_def split: prod.splits option.splits dest!: next_fault_frameD)

lemma top_moves_Validate [moves_intros]: "top_moves (Validate dbnow tok)"
  by (intro top_moves_pure clean_intros)

lemma top_moves_if [moves_intros]: "top_moves m \<Longrightarrow> top_moves n \<Longrightarrow> top_moves (if b then m else n)"
  by simp

lemma top_moves_option [moves_intros]:
  "top_moves m \<Longrightarrow> (\<And>x. top_moves (f x)) \<Longrightarrow> top_moves (case y of None \<Rightarrow> m | Some x \<Rightarrow> f x)"
  by (cases y) auto

lemma top_moves_sum [moves_intros]:
  "(\<And>e. top_moves (g e)) \<Longrightarrow> (\<And>x. top_moves (f x)) \<Longrightarrow> top_moves (case y of Inl e \<Rightarrow> g e | Inr x \<Rightarrow> f x)"
  by (cases y) auto

lemma top_moves_prod [moves_intros]:
  "(\<And>a b. top_moves (f a b)) \<Longrightarrow> top_moves (case y of (a, b) \<Rightarrow> f a b)"
  by (cases y) auto

section \<open>The statements\<close>

lemma iv_GetByID_InrE:
  assumes "iv_GetByID key d = (Inr iv, d')"
  obtains o1 x where "x \<in> set (t_interviews (tables d))" "iv_ID x = key" "iv = hydrate o1 x" "tenant d = Some o1"
    "tables d' = tables d" "ran d d'"
proof -
  from assms obtain q: "(case iv_find key (tenant d) (tables d) of None \<Rightarrow> None
     | Some x \<Rightarrow> (case find (\<lambda>a. app_ID a = iv_ApplicationID x \<and> sees_app (tenant d) a) (t_applications (tables d)) of
           None \<Rightarrow> None | Some a \<Rightarrow> Some (hydrate (app_OrgID a) x))) = Some iv"
    and r: "tables d' = tables d" "ran d d'"
    unfolding iv_GetByID_def by (rule query_row_InrE)
  from q obtain x a where x: "iv_find key (tenant d) (tables d) = Some x" "iv = hydrate (app_OrgID a) x"
    and a: "find (\<lambda>a. app_ID a = iv_ApplicationID x \<and> sees_app (tenant d) a) (t_applications (tables d)) = Some a"
    by (auto split: option.splits)
  from a have "sees_app (tenant d) a" by (auto simp: find_Some_iff)
  then have "tenant d = Some (app_OrgID a)" by (simp add: sees_app_def)
  moreover have "x \<in> set (t_interviews (tables d))" "iv_ID x = key"
    using x(1) by (auto simp: iv_find_def find_Some_iff)
  ultimately show ?thesis using that x(2) r by blast
qed

lemma hydrate_simps [simp]:
  "iv_ID (hydrate o1 x) = iv_ID x" "iv_Status (hydrate o1 x) = iv_Status x" "Questions (hydrate o1 x) = Questions x"
  "Answers (hydrate o1 x) = Answers x" "QAPairs (hydrate o1 x) = QAPairs x" "LastQuestionIdx (hydrate o1 x) = LastQuestionIdx x"
  "StartedAt (hydrate o1 x) = StartedAt x" "CompletedAt (hydrate o1 x) = CompletedAt x" "ExpiresAt (hydrate o1 x) = ExpiresAt x"
  "ConsentGiven (hydrate o1 x) = ConsentGiven x" "iv_Evaluation (hydrate o1 x) = iv_Evaluation x"
  "CodingSessions (hydrate o1 x) = CodingSessions x" "iv_OrgID (hydrate o1 x) = o1" "conducted (hydrate o1 x) = conducted x"
  "prepared (hydrate o1 x) = prepared x" "iv_ApplicationID (hydrate o1 x) = iv_ApplicationID x" "ProctoringEvents (hydrate o1 x) = ProctoringEvents x"
  "iv_Summary (hydrate o1 x) = iv_Summary x"
  by (simp_all add: hydrate_def conducted_def prepared_def)

lemma wf_hydrate [simp]: "wfp (hydrate o1 x) = wfp x"
  by (rule wfp_cong) simp_all

lemma iv_columns_simps [simp]:
  "iv_ID (iv_columns n iv x) = iv_ID x" "iv_ApplicationID (iv_columns n iv x) = iv_ApplicationID x"
  "iv_Status (iv_columns n iv x) = iv_Status iv" "Questions (iv_columns n iv x) = Questions iv"
  "Answers (iv_columns n iv x) = Answers iv" "QAPairs (iv_columns n iv x) = QAPairs iv"
  "LastQuestionIdx (iv_columns n iv x) = LastQuestionIdx iv" "StartedAt (iv_columns n iv x) = StartedAt iv"
  "CompletedAt (iv_columns n iv x) = CompletedAt iv" "CodingSessions (iv_columns n iv x) = CodingSessions iv"
  "ConsentGiven (iv_columns n iv x) = ConsentGiven x" "iv_Evaluation (iv_columns n iv x) = iv_Evaluation x"
  "prepared (iv_columns n iv x) = prepared iv" "conducted (iv_columns n iv x) = conducted iv" "ExpiresAt (iv_columns n iv x) = ExpiresAt iv"
  by (simp_all add: iv_columns_def conducted_def prepared_def)

lemma wf_iv_columns [simp]: "wfp (iv_columns n iv x) = wfp iv"
  by (rule wfp_cong) simp_all

lemma columns_ok:
  assumes "progressed (hydrate o1 x) iv" "row_ok x"
  shows "row_ok (iv_columns n iv x) \<and> iv_le x (iv_columns n iv x)"
  using assms by (simp add: progressed_def onward_def row_ok_def iv_le_def) blast

lemma update_iv_effect:
  assumes "update_iv key guard f d = (Inr n, d')"
  shows "ran d d'" "tables d' = t_interviews_update (map_hits
     (\<lambda>x. (iv_ID x = key \<and> guard x) \<and> sees_iv (tenant d) (tables d) x) f) (tables d)"
    "n = length (filter (\<lambda>x. (iv_ID x = key \<and> guard x) \<and> sees_iv (tenant d) (tables d) x) (t_interviews (tables d)))"
  using assms unfolding update_iv_def by (elim update_rows_InrE; simp)+

lemma update_iv_moves:
  assumes "update_iv key guard f d = (Inr n, d')" "\<And>x. guard x \<Longrightarrow> same_dialogue x (f x)"
  shows "moves (tables d) (tables d')"
proof (rule moves_hits)
  show "t_interviews (tables d') = map_hits
     (\<lambda>x. (iv_ID x = key \<and> guard x) \<and> sees_iv (tenant d) (tables d) x) f (t_interviews (tables d))"
    by (simp add: update_iv_effect(2) [OF assms(1)])
qed (use assms(2) same_dialogue_ok in blast)

lemma iv_Update_moves:
  assumes "iv_Update dbnow iv d = (Inr u, d')" "x \<in> set (t_interviews (tables d))" "iv_ID x = iv_ID iv"
    and "progressed (hydrate o1 x) iv"
  shows "moves (tables d) (tables d')"
proof -
  obtain n where n: "update_iv (iv_ID iv) (\<lambda>_. True) (iv_columns dbnow iv) d = (Inr n, d')"
    using assms(1) unfolding iv_Update_def by (elim wrapped_InrE unit_of_InrE)
  show ?thesis
  proof (rule moves_hits)
    show "t_interviews (tables d') = map_hits (\<lambda>x. (iv_ID x = iv_ID iv \<and> True) \<and> sees_iv (tenant d) (tables d) x)
        (iv_columns dbnow iv) (t_interviews (tables d))"
      by (simp add: update_iv_effect(2) [OF n])
  next
    fix y
    assume y: "y \<in> set (t_interviews (tables d))" "(iv_ID y = iv_ID iv \<and> True) \<and> sees_iv (tenant d) (tables d) y"
      "distinct (map iv_ID (t_interviews (tables d)))" "row_ok y"
    with assms(2,3) have "y = x" by (metis eq_key_imp_eq_value distinct_map inj_on_def)
    with columns_ok [OF assms(4)] y(4) show "row_ok (iv_columns dbnow iv y) \<and> iv_le y (iv_columns dbnow iv y)" by simp
  qed
qed

section \<open>The transaction bodies\<close>

lemma unit_update_moves:
  assumes "\<And>x. guard x \<Longrightarrow> same_dialogue x (f x)"
  shows "tx_moves (unit_of (update_iv key guard f))" "tx_moves (wrapped (unit_of (update_iv key guard f)))"
  by (rule tx_movesI; elim wrapped_InrE unit_of_InrE; erule update_iv_moves, erule assms)+

lemma tx_moves_query: "tx_moves (query q)"
  by (rule tx_movesI) (erule query_InrE, simp)

lemma tx_moves_ret: "tx_moves (ret a)"
  by (rule tx_movesI) (simp add: ret_def)

lemma tx_moves_bindE:
  assumes "tx_moves m" "\<And>a. tx_moves (f a)"
  shows "tx_moves (bindE m f)"
  by (rule tx_movesI) (erule bindE_InrE, meson tx_movesD assms moves_trans)

lemma tx_moves_pure: "pure_op m \<Longrightarrow> tx_moves m"
  by (rule tx_movesI) (simp add: pure_opD)

lemma pure_op_stmt_read: "(\<And>t r a r'. f t r = Inr (a, r') \<Longrightarrow> r' = r) \<Longrightarrow> pure_op (stmt f)"
proof (rule pure_opI)
  fix d r d'
  assume f: "\<And>t r a r'. f t r = Inr (a, r') \<Longrightarrow> r' = r" and s: "stmt f d = (r, d')"
  show "tables d' = tables d \<and> in_tx d' = in_tx d"
  proof (cases r)
    case (Inr a)
    with s stmt_InrD [of f d a d'] f show ?thesis by blast
  next
    case (Inl e)
    with s show ?thesis
      by (auto simp: stmt_def split: if_splits option.splits prod.splits sum.splits dest!: next_fault_frameD)
  qed
qed

lemma pure_op_query [clean_intros]: "pure_op (query q)"
  unfolding query_def by (rule pure_op_stmt_read) simp

lemma pure_op_query_row [clean_intros]: "pure_op (query_row nf q)"
  unfolding query_row_def by (rule pure_op_stmt_read) (simp split: option.splits)

lemma pure_op_map_error [clean_intros]:
  assumes "pure_op m"
  shows "pure_op (map_error g m)"
proof (rule pure_opI)
  fix d r d' assume "map_error g m d = (r, d')"
  then obtain q where "m d = (q, d')" by (auto simp: map_error_def split: prod.splits sum.splits)
  with assms show "tables d' = tables d \<and> in_tx d' = in_tx d" by (rule pure_opD)
qed

lemma pure_op_option [clean_intros]:
  "pure_op m \<Longrightarrow> (\<And>x. pure_op (f x)) \<Longrightarrow> pure_op (case y of None \<Rightarrow> m | Some x \<Rightarrow> f x)"
  by (cases y) auto

lemma pure_op_sum [clean_intros]:
  "(\<And>e. pure_op (g e)) \<Longrightarrow> (\<And>x. pure_op (f x)) \<Longrightarrow> pure_op (case y of Inl e \<Rightarrow> g e | Inr x \<Rightarrow> f x)"
  by (cases y) auto

lemma pure_op_prod [clean_intros]: "(\<And>a b. pure_op (f a b)) \<Longrightarrow> pure_op (case y of (a, b) \<Rightarrow> f a b)"
  by (cases y) auto

lemma pure_op_if [clean_intros]: "pure_op m \<Longrightarrow> pure_op n \<Longrightarrow> pure_op (if b then m else n)"
  by simp

lemma pure_op_reads [clean_intros]:
  "pure_op (iv_GetByID k)" "pure_op (app_GetByID k)" "pure_op (jobctx_GetByJobID k)" "pure_op (ctx_ListContexts o1)"
  "pure_op (ctx_GetLatestPrompt o1)"
  unfolding iv_GetByID_def app_GetByID_def jobctx_GetByJobID_def ctx_ListContexts_def ctx_GetLatestPrompt_def
  by (intro clean_intros)+

lemma ticket_tx_moves: "tx_moves (bindE (MarkUsed dbnow tok) (\<lambda>_. bindE (iv_GetByID key) (\<lambda>iv. iv_Update dbnow iv)))"
proof (rule tx_movesI)
  fix d u d' assume r: "bindE (MarkUsed dbnow tok) (\<lambda>_. bindE (iv_GetByID key) (\<lambda>iv. iv_Update dbnow iv)) d = (Inr u, d')"
  then obtain v d1 iv d2 where m: "MarkUsed dbnow tok d = (Inr v, d1)" and g: "iv_GetByID key d1 = (Inr iv, d2)"
    and w: "iv_Update dbnow iv d2 = (Inr u, d')"
    by (elim bindE_InrE)
  have t1: "t_interviews (tables d1) = t_interviews (tables d)"
    using m unfolding MarkUsed_def by (elim unit_of_InrE update_rows_InrE) simp
  from g obtain o1 x where x: "x \<in> set (t_interviews (tables d1))" "iv_ID x = key" "iv = hydrate o1 x" "tables d2 = tables d1"
    by (rule iv_GetByID_InrE)
  have "moves (tables d2) (tables d')"
    by (rule iv_Update_moves [OF w, of x o1]) (use x in simp_all)
  with x t1 show "moves (tables d) (tables d')" by (metis moves_same moves_trans)
qed

lemma start_tx_moves:
  "tx_moves (bindE (iv_GetByID key) (\<lambda>iv0. let iv = ExpireIfNeeded now iv0 in
      bindE (fail_if (iv_Status iv = Expired) e1) (\<lambda>_. bindE (fail_if (\<not> ConsentGiven iv) e2) (\<lambda>_.
      bindE (lift (Start now iv)) (\<lambda>iv'. iv_Update dbnow iv')))))"
proof (rule tx_movesI)
  fix d u d' assume r: "bindE (iv_GetByID key) (\<lambda>iv0. let iv = ExpireIfNeeded now iv0 in
      bindE (fail_if (iv_Status iv = Expired) e1) (\<lambda>_. bindE (fail_if (\<not> ConsentGiven iv) e2) (\<lambda>_.
      bindE (lift (Start now iv)) (\<lambda>iv'. iv_Update dbnow iv')))) d = (Inr u, d')"
  then obtain iv0 iv' d1 where g: "iv_GetByID key d = (Inr iv0, d1)" and c: "ConsentGiven (ExpireIfNeeded now iv0)"
    and s: "Start now (ExpireIfNeeded now iv0) = Inr iv'" and w: "iv_Update dbnow iv' d1 = (Inr u, d')"
    unfolding Let_def by (elim op_InrE) simp
  from g obtain o1 x where x: "x \<in> set (t_interviews (tables d))" "iv_ID x = key" "iv0 = hydrate o1 x" "tables d1 = tables d"
    by (rule iv_GetByID_InrE)
  have p: "progressed (hydrate o1 x) iv'"
    using progressed_ExpireIfNeeded progressed_Start [OF s c] x(3) by (metis progressed_trans)
  have "moves (tables d1) (tables d')"
    by (rule iv_Update_moves [OF w, of x o1]) (use x p in \<open>simp_all add: progressed_def\<close>)
  with x show "moves (tables d) (tables d')" by simp
qed

lemma NextQuestion_Some: "NextQuestion iv = Some q \<longleftrightarrow>
    iv_Status iv = InProgress \<and> LastQuestionIdx iv < length (Questions iv) \<and> q = Questions iv ! LastQuestionIdx iv"
  by (auto simp: NextQuestion_def)

lemma dialogue_closed:
  assumes "ProcessTopicDialogue now content action pacing iv = Inr (iv2, nxt, True, turn, mx)" "wf_interview iv"
  shows "topic (LastQuestionIdx iv2 + 1) (Answers iv2) = []" "LastQuestionIdx iv2 = LastQuestionIdx iv + 1"
    "Questions iv2 = Questions iv"
proof -
  obtain a where a: "a_Idx a = LastQuestionIdx iv + 1" "iv2 = iv\<lparr>Answers := Answers iv @ [a], lastActivity := now,
        LastQuestionIdx := LastQuestionIdx iv + 1\<rparr>"
    using assms(1) by (rule ProcessTopicDialogue_cases) (simp only: if_True)
  have "list_all (\<lambda>a. a_Idx a \<le> LastQuestionIdx iv + 1) (Answers iv)"
    using assms(2) by (auto simp: wf_interview_def wf_dialogue_def list_all_iff)
  then have "topic (LastQuestionIdx iv + 2) (Answers iv) = []" by (rule topic_beyond) simp
  with a show "topic (LastQuestionIdx iv2 + 1) (Answers iv2) = []" "LastQuestionIdx iv2 = LastQuestionIdx iv + 1"
    "Questions iv2 = Questions iv" by (simp_all add: topic_single)
qed

lemma progressed_dialogue_probe:
  assumes d: "ProcessTopicDialogue now content action pacing iv = Inr (iv2, nxt, True, turn, mx)"
    and q: "NextQuestion iv = Some q" "\<not> q_IsProbe q"
    and i: "InsertProbeAfter (int (q_Idx q)) txt category skill iv2 = Inr (iv3, p)"
  shows "progressed iv iv3"
proof -
  note c = InsertProbeAfter_cases [OF i]
  obtain qs where i3: "iv3 = iv2\<lparr>Questions := qs\<rparr>" using c(4) by blast
  have id: "iv_ID iv3 = iv_ID iv" using i3 progressed_dialogue [OF d] by (simp add: progressed_def)
  show ?thesis
  proof (cases "wfp iv")
    case False
    with id show ?thesis by (simp add: progressed_def)
  next
    case True
    then have w: "wf_interview iv" and p0: "probes_ok iv" by (simp_all add: wfp_def)
    note dc = dialogue_closed [OF d w]
    have w2: "wf_interview iv2" and o2: "onward iv iv2"
      using progressed_dialogue [OF d] True by (simp_all add: progressed_def wfp_def)
    have w3: "wf_interview iv3" by (rule InsertProbeAfter_wf [OF i w2 dc(1)])
    let ?c = "LastQuestionIdx iv" and ?qs = "Questions iv"
    have q': "?c < length ?qs" "q = ?qs ! ?c" using q(1) by (simp_all add: NextQuestion_Some)
    with w have idx: "q_Idx q = ?c + 1" by (simp add: wf_interview_def wf_questions_nth)
    have n: "nat (int (q_Idx q)) = ?c + 1" using idx by simp
    have "take (?c + 1) (Questions iv3) = take (?c + 1) ?qs" using c(6) unfolding n dc(3) .
    moreover have "take (?c + 1) ?qs = take ?c ?qs @ [q]" using q' by (simp add: take_Suc_conv_app_nth)
    ultimately have "ordinary (take (LastQuestionIdx iv3) (Questions iv3)) = ordinary (take ?c ?qs) @ [q]"
      using i3 dc(2) q(2) by (simp add: ordinary_def)
    then have "probes_ok iv3" using p0 probe_questions(2) [OF i] dc(3) by (simp add: probes_ok_def)
    moreover have "onward iv iv3"
      using o2 probe_questions(1) [OF i] i3 by (simp add: onward_def conducted_def)
    ultimately show ?thesis using id w3 by (simp add: progressed_def wfp_def)
  qed
qed

lemma bank_Create_effect:
  assumes "bank_Create n o1 q d = (r, d')"
  shows "t_interviews (tables d') = t_interviews (tables d)"
proof (cases r)
  case (Inr u)
  with assms have "bank_Create n o1 q d = (Inr u, d')" by simp
  then show ?thesis unfolding bank_Create_def by (rule insert_row_InrE) simp
next
  case (Inl e)
  with assms show ?thesis
    by (auto simp: bank_Create_def insert_row_def exec_def split: if_splits option.splits prod.splits sum.splits
        dest!: next_fault_frameD)
qed

text \<open>What the probe step leaves behind.\<close>

lemma probe_step_InrE:
  assumes "probe_step n o1 content asked isComplete iv nxt d = (Inr (iv', nxt'), d')"
  obtains (none) "iv' = iv" "nxt' = nxt" "d' = d"
    | (probe) q p r where "asked = Some q" "isComplete" "\<not> q_IsProbe q" "ShouldProbe content"
      "InsertProbeAfter (int (q_Idx q)) (gq_Prompt (ProbeQuestion (q_Category q) (q_Skill q)))
         (gq_Category (ProbeQuestion (q_Category q) (q_Skill q))) (gq_Skill (ProbeQuestion (q_Category q) (q_Skill q))) iv
         = Inr (iv', p)"
      "bank_Create n o1 p d = (r, d')" "nxt' = (case r of Inl e \<Rightarrow> nxt | Inr _ \<Rightarrow> Some p)"
proof (cases asked)
  case None
  with assms none show ?thesis by (simp add: probe_step_def ret_def)
next
  case (Some q)
  show ?thesis
  proof (cases "isComplete \<and> \<not> q_IsProbe q \<and> ShouldProbe content")
    case False
    with assms Some none show ?thesis by (simp add: probe_step_def ret_def)
  next
    case True
    let ?P = "ProbeQuestion (q_Category q) (q_Skill q)"
    show ?thesis
    proof (cases "InsertProbeAfter (int (q_Idx q)) (gq_Prompt ?P) (gq_Category ?P) (gq_Skill ?P) iv")
      case (Inl e)
      with assms Some True none show ?thesis by (simp add: probe_step_def ret_def Let_def)
    next
      case (Inr z)
      obtain iv2 p where z: "z = (iv2, p)" by fastforce
      obtain r d2 where b: "bank_Create n o1 p d = (r, d2)" by fastforce
      from assms Some True Inr z b have "iv' = iv2" "d' = d2" "nxt' = (case r of Inl e \<Rightarrow> nxt | Inr _ \<Rightarrow> Some p)"
        by (simp_all add: probe_step_def ret_def Let_def bindE_def attempt_def)
      with True Some Inr z b probe show ?thesis by blast
    qed
  qed
qed

text \<open>One dialogue transaction, read backwards.\<close>

lemma dialogue_finish_InrE:
  assumes "dialogue_finish now n isDone turn mx iv nxt d = (Inr res, d')"
  obtains iv' err where "completion now isDone nxt iv = (iv', err)" "iv_Update n iv' d = (Inr (), d')"
    "res = \<lparr>tdr_NextQuestion = nxt, tdr_IsTopicComplete = isDone, tdr_CurrentTurn = turn, tdr_MaxTurns = mx,
       tdr_TotalQuestions = length (Questions iv'), tdr_TransitionErr = err\<rparr>"
proof -
  obtain iv' err where c: "completion now isDone nxt iv = (iv', err)" by fastforce
  show ?thesis
    by (rule that [OF c]) (use assms c in \<open>auto simp: dialogue_finish_def bindE_Inr ret_Inr\<close>)
qed

lemma dialogue_tx_InrE:
  assumes "dialogue_tx now n o1 key content action pacing d = (Inr res, d')"
  obtains iv0 d1 iv2 nxt isDone turn mx iv3 nxt' d2
  where "iv_GetByID key d = (Inr iv0, d1)" "iv_Status (ExpireIfNeeded now iv0) \<noteq> Expired"
    "ProcessTopicDialogue now content action pacing (ExpireIfNeeded now iv0) = Inr (iv2, nxt, isDone, turn, mx)"
    "probe_step n o1 content (NextQuestion (ExpireIfNeeded now iv0)) isDone iv2 nxt d1 = (Inr (iv3, nxt'), d2)"
    "dialogue_finish now n isDone turn mx iv3 nxt' d2 = (Inr res, d')"
proof -
  from assms obtain iv0 d1 z where g: "iv_GetByID key d = (Inr iv0, d1)" "iv_Status (ExpireIfNeeded now iv0) \<noteq> Expired"
    and z: "ProcessTopicDialogue now content action pacing (ExpireIfNeeded now iv0) = Inr z"
      "(case z of (iv2, nxt, isComplete, turn, maxTurns) \<Rightarrow>
        bindE (probe_step n o1 content (NextQuestion (ExpireIfNeeded now iv0)) isComplete iv2 nxt)
         (\<lambda>(iv3, nxt). dialogue_finish now n isComplete turn maxTurns iv3 nxt)) d1 = (Inr res, d')"
    unfolding dialogue_tx_def Let_def by (elim bindE_InrE fail_if_InrE lift_InrE) simp
  obtain iv2 nxt isDone turn mx where zz: "z = (iv2, nxt, isDone, turn, mx)" by (cases z)
  from z(2) zz obtain w d2 where p: "probe_step n o1 content (NextQuestion (ExpireIfNeeded now iv0)) isDone iv2 nxt d1 = (Inr w, d2)"
    and f: "(case w of (iv3, nxt) \<Rightarrow> dialogue_finish now n isDone turn mx iv3 nxt) d2 = (Inr res, d')"
    by (auto elim: bindE_InrE)
  obtain iv3 nxt' where "w = (iv3, nxt')" by (cases w)
  with that g z(1) zz p f show ?thesis by auto
qed

lemma progressed_completion: "completion now isDone nxt iv = (iv', err) \<Longrightarrow> progressed iv iv'"
  by (auto simp: completion_def progressed_Complete split: if_splits sum.splits)

text \<open>The aggregate that a dialogue transaction writes.\<close>

lemma dialogue_progress:
  assumes "ProcessTopicDialogue now content action pacing iv1 = Inr (iv2, nxt, isDone, turn, mx)"
    "probe_step n o1 content (NextQuestion iv1) isDone iv2 nxt d1 = (Inr (iv3, nxt'), d2)"
    "completion now isDone nxt' iv3 = (iv4, err)"
  shows "progressed iv1 iv4" "t_interviews (tables d2) = t_interviews (tables d1)"
proof -
  have "progressed iv1 iv3 \<and> t_interviews (tables d2) = t_interviews (tables d1)"
    using assms(2)
  proof (cases rule: probe_step_InrE)
    case none
    with progressed_dialogue [OF assms(1)] show ?thesis by simp
  next
    case (probe q p r)
    from assms(1) probe(2) have "ProcessTopicDialogue now content action pacing iv1 = Inr (iv2, nxt, True, turn, mx)" by simp
    from progressed_dialogue_probe [OF this probe(1,3,5)] bank_Create_effect [OF probe(6)] show ?thesis by blast
  qed
  with progressed_completion [OF assms(3)] show "progressed iv1 iv4"
    "t_interviews (tables d2) = t_interviews (tables d1)" by (blast intro: progressed_trans)+
qed

lemma dialogue_tx_moves: "tx_moves (dialogue_tx now n o1 key content action pacing)"
proof (rule tx_movesI)
  fix d res d' assume "dialogue_tx now n o1 key content action pacing d = (Inr res, d')"
  then obtain iv0 d1 iv2 nxt isDone turn mx iv3 nxt' d2 where g: "iv_GetByID key d = (Inr iv0, d1)"
    and p: "ProcessTopicDialogue now content action pacing (ExpireIfNeeded now iv0) = Inr (iv2, nxt, isDone, turn, mx)"
      "probe_step n o1 content (NextQuestion (ExpireIfNeeded now iv0)) isDone iv2 nxt d1 = (Inr (iv3, nxt'), d2)"
    and f: "dialogue_finish now n isDone turn mx iv3 nxt' d2 = (Inr res, d')"
    by (rule dialogue_tx_InrE)
  from f obtain iv4 err where c: "completion now isDone nxt' iv3 = (iv4, err)" and w: "iv_Update n iv4 d2 = (Inr (), d')"
    by (rule dialogue_finish_InrE)
  from g obtain oo x where x: "x \<in> set (t_interviews (tables d))" "iv_ID x = key" "iv0 = hydrate oo x" "tables d1 = tables d"
    by (rule iv_GetByID_InrE)
  note q = dialogue_progress [OF p c]
  have pr: "progressed (hydrate oo x) iv4"
    using progressed_ExpireIfNeeded q(1) x(3) by (metis progressed_trans)
  have "moves (tables d2) (tables d')"
    by (rule iv_Update_moves [OF w, of x oo]) (use x q(2) pr in \<open>simp_all add: progressed_def\<close>)
  with q(2) x(4) show "moves (tables d) (tables d')" by (metis moves_same moves_trans)
qed

lemma proctoring_moves: "tx_moves (iv_RecordProctoringEvent n key ev)"
  unfolding iv_RecordProctoringEvent_def Let_def
  by (intro tx_moves_bindE tx_moves_pure clean_intros unit_update_moves) (simp add: same_dialogue_def)

lemma column_updates_moves:
  "tx_moves (iv_Touch n key)" "tx_moves (iv_RecordCodingSession n key cs)" "tx_moves (SetConsent n key)"
  "tx_moves (SetHumanRequested n key b)"
  unfolding iv_Touch_def iv_RecordCodingSession_def SetConsent_def SetHumanRequested_def
  by (rule unit_update_moves, simp add: same_dialogue_def)+

lemma SaveEvaluation_moves: "tx_moves (SaveEvaluation n key report)"
  unfolding SaveEvaluation_def
proof (intro tx_moves_bindE)
  show "tx_moves (wrapped (update_iv key (\<lambda>x. iv_Evaluation x = None) (\<lambda>x. x\<lparr>iv_Evaluation := Some report, iv_UpdatedAt := n\<rparr>)))"
    by (rule tx_movesI) (elim wrapped_InrE, erule update_iv_moves, simp add: same_dialogue_def)
qed (intro tx_moves_pure clean_intros)

lemma append_qa_moves: "tx_moves (AppendQAPairWithinLimit now n key pair limit)"
  unfolding AppendQAPairWithinLimit_def
proof (intro tx_moves_bindE)
  show "tx_moves (wrapped (update_iv key (\<lambda>x. iv_Status x = InProgress \<and> live_at n x \<and> int (length (QAPairs x)) < limit)
       (\<lambda>x. x\<lparr>QAPairs := QAPairs x @ [pair], iv_UpdatedAt := n\<rparr>)))"
    by (rule tx_movesI) (elim wrapped_InrE, erule update_iv_moves, simp add: same_dialogue_def)
qed (intro tx_moves_pure clean_intros)

lemma expire_row_ok:
  assumes "row_ok x" "iv_Status x = InProgress"
  shows "row_ok (x\<lparr>iv_Status := Expired, iv_UpdatedAt := n\<rparr>) \<and> iv_le x (x\<lparr>iv_Status := Expired, iv_UpdatedAt := n\<rparr>)"
  using assms by (simp add: row_ok_def iv_le_def conducted_def status_le_def wfp_def probes_ok_def wf_interview_def
      wf_status_def prepared_def)

lemma expire_moves: "tx_moves (iv_ExpireIfDue n key)"
proof (rule tx_movesI)
  fix d u d' assume "iv_ExpireIfDue n key d = (Inr u, d')"
  then obtain m where m: "update_iv key (\<lambda>x. iv_Status x = InProgress \<and> overdue_at n x)
     (\<lambda>x. x\<lparr>iv_Status := Expired, iv_UpdatedAt := n\<rparr>) d = (Inr m, d')"
    unfolding iv_ExpireIfDue_def by (elim wrapped_InrE unit_of_InrE)
  show "moves (tables d) (tables d')"
  proof (rule moves_hits)
    show "t_interviews (tables d') = map_hits (\<lambda>x. (iv_ID x = key \<and> iv_Status x = InProgress \<and> overdue_at n x)
        \<and> sees_iv (tenant d) (tables d) x) (\<lambda>x. x\<lparr>iv_Status := Expired, iv_UpdatedAt := n\<rparr>) (t_interviews (tables d))"
      by (simp add: update_iv_effect(2) [OF m])
  qed (use expire_row_ok in blast)
qed

lemma bank_all_moves: "tx_moves (bank_all n o1 qs)"
proof (induction qs)
  case (Cons q qs)
  have "tx_moves (bank_Create n o1 q)"
    by (rule tx_movesI) (erule bank_Create_effect [THEN moves_same])
  with Cons show ?case unfolding bank_all.simps by (intro tx_moves_bindE)
qed (simp add: tx_moves_ret)

lemma map_domain_questions: "map q_Idx (map domain_question (enumerate 0 gqs)) = [1..<Suc (length gqs)]"
  by (rule nth_equalityI) (simp_all add: domain_question_def nth_enumerate_eq del: upt_Suc)

lemma iv_row_simps [simp]:
  "iv_ID (iv_row iv) = iv_ID iv" "iv_Status (iv_row iv) = iv_Status iv"
  by (simp_all add: iv_row_def)

lemma wf_iv_row [simp]: "wfp (iv_row iv) = wfp iv"
  by (rule wfp_cong) (simp_all add: iv_row_def)

lemma iv_Create_moves:
  assumes "iv_Create iv d = (Inr u, d')" "wfp iv" "iv_Status iv = Pending"
  shows "moves (tables d) (tables d')"
proof -
  from assms(1) obtain v: "(if iv_ApplicationID iv \<notin> app_ID ` set (t_applications (tables d))
          then Some (foreign_key_violation ''interviews_application_id_fkey'')
        else if \<not> sees_iv (tenant d) (tables d) iv then Some ErrRLS
        else if iv_ID iv \<in> iv_ID ` set (t_interviews (tables d)) then Some (unique_violation ''interviews_pkey'')
        else None) = None"
    and t: "tables d' = t_interviews_update (\<lambda>xs. xs @ [iv_row iv]) (tables d)"
    unfolding iv_Create_def by (elim wrapped_InrE insert_row_InrE)
  from v have "iv_ID iv \<notin> iv_ID ` set (t_interviews (tables d))" by (simp split: if_splits)
  with assms(2,3) show ?thesis by (simp add: moves_def wf_iv_def t row_ok_def conducted_def)
qed

lemma token_Create_moves: "tx_moves (token_Create n tok)"
  unfolding token_Create_def by (rule tx_movesI) (erule insert_row_InrE, simp add: moves_same)

lemma pure_op_more_reads [clean_intros]:
  "pure_op (cand_GetByID k)" "pure_op (job_GetByID k)" "pure_op (LoadQuestionSet k)"
  unfolding cand_GetByID_def job_GetByID_def LoadQuestionSet_def by (intro clean_intros)+

lemma create_tx_moves: "tx_moves (create_interview_tx x now n newiv newtok token actor k c)"
proof -
  have iv: "tx_moves (bindE (lift (NewInterview newiv now o1 a (map domain_question (enumerate 0 gqs)) e)) (\<lambda>iv.
     bindE (ctx_ListContexts o2) (\<lambda>contexts.
     bindE (iv_Create (case contexts of [] \<Rightarrow> iv | c # _ \<Rightarrow> iv\<lparr>ContextVersion := cc_Version c\<rparr>))
       (\<lambda>_. g contexts iv))))"
    if g: "\<And>cs iv. tx_moves (g cs iv)" for o1 o2 a gqs e and g :: "CompanyContext list \<Rightarrow> Interview \<Rightarrow> ('m iv_state, 'b) op"
  proof (rule tx_movesI)
    fix d b d' assume "bindE (lift (NewInterview newiv now o1 a (map domain_question (enumerate 0 gqs)) e)) (\<lambda>iv.
     bindE (ctx_ListContexts o2) (\<lambda>contexts.
     bindE (iv_Create (case contexts of [] \<Rightarrow> iv | c # _ \<Rightarrow> iv\<lparr>ContextVersion := cc_Version c\<rparr>))
       (\<lambda>_. g contexts iv))) d = (Inr b, d')"
    then obtain iv cs d1 u d2 where i: "NewInterview newiv now o1 a (map domain_question (enumerate 0 gqs)) e = Inr iv"
      and l: "ctx_ListContexts o2 d = (Inr cs, d1)"
      and w: "iv_Create (case cs of [] \<Rightarrow> iv | c # _ \<Rightarrow> iv\<lparr>ContextVersion := cc_Version c\<rparr>) d1 = (Inr u, d2)"
      and f: "g cs iv d2 = (Inr b, d')"
      by (elim bindE_InrE lift_InrE) simp
    have "Questions iv = map domain_question (enumerate 0 gqs)" using i by (auto simp: NewInterview_def split: if_splits)
    then have "filter q_IsProbe (Questions iv) = []" by (auto simp: filter_empty_conv domain_question_def)
    then have "wfp iv"
      using NewInterview_wf [OF i] map_domain_questions [of gqs] by (simp add: wfp_def probes_ok_def)
    then have "wfp (case cs of [] \<Rightarrow> iv | c # _ \<Rightarrow> iv\<lparr>ContextVersion := cc_Version c\<rparr>)"
      using wfp_cong [of "iv\<lparr>ContextVersion := v\<rparr>" iv for v] by (cases cs) simp_all
    moreover have "iv_Status (case cs of [] \<Rightarrow> iv | c # _ \<Rightarrow> iv\<lparr>ContextVersion := cc_Version c\<rparr>) = Pending"
      using i by (cases cs) (auto simp: NewInterview_def split: if_splits)
    ultimately have "moves (tables d1) (tables d2)" using iv_Create_moves [OF w] by blast
    moreover have "tables d1 = tables d" using pure_opD [OF pure_op_reads(4) l] by simp
    ultimately show "moves (tables d) (tables d')" using tx_movesD [OF g f] by (metis moves_trans)
  qed
  show ?thesis
    unfolding create_interview_tx_def Let_def
    by (intro tx_moves_bindE iv bank_all_moves token_Create_moves tx_moves_ret | rule tx_moves_pure, intro clean_intros)+
qed

section \<open>All calls\<close>

text \<open>A call of the interview service, with the clocks it runs under.\<close>

datatype iv_call =
    CallCreate uuid uuid "string result" AuthContext uuid int
  | CallTicket uuid uuid string
  | CallRequestHuman uuid string
  | CallConsent uuid string
  | CallConnect uuid uuid
  | CallVerifyOrg uuid uuid
  | CallStart uuid uuid
  | CallCurrent uuid uuid
  | CallRecent uuid uuid
  | CallTranscript uuid uuid
  | CallDialogue uuid uuid string string "PacingMetrics option"
  | CallAnswer uuid uuid string
  | CallAnswerPaced uuid uuid string "PacingMetrics option"
  | CallEvaluate uuid uuid string
  | CallEnqueueEvaluation uuid uuid
  | CallTelemetry uuid uuid ProctoringEvent
  | CallCandidateTelemetry uuid string ProctoringEvent
  | CallCoding uuid uuid CodingSession
  | CallTouch uuid uuid
  | CallQARemaining uuid uuid
  | CallQA uuid uuid string string
  | CallGetQA uuid uuid

definition done_with :: "('s, 'a) op \<Rightarrow> ('s, unit) op" where
  "done_with m = bindE m (\<lambda>_. ret ())"

fun iv_run :: "externals \<Rightarrow> time \<Rightarrow> time \<Rightarrow> iv_call \<Rightarrow> ('m iv_state, unit) op" where
  "iv_run x now n (CallCreate i k tok a app c) = done_with (CreateInterview x now n i k tok a app c)"
| "iv_run x now n (CallTicket s i tok) = done_with (IssueTicket x now n s i tok)"
| "iv_run x now n (CallRequestHuman i tok) = RequestHuman x n i tok"
| "iv_run x now n (CallConsent i tok) = GiveConsent n i tok"
| "iv_run x now n (CallConnect org i) = done_with (ComposeConnectContexts x org i)"
| "iv_run x now n (CallVerifyOrg org i) = VerifyInterviewOrg org i"
| "iv_run x now n (CallStart org i) = StartInterview now n org i"
| "iv_run x now n (CallCurrent org i) = done_with (CurrentState now org i)"
| "iv_run x now n (CallRecent org i) = done_with (RecentContext org i)"
| "iv_run x now n (CallTranscript org i) = done_with (Transcript org i)"
| "iv_run x now n (CallDialogue org i c a p) = done_with (svc_ProcessTopicDialogue x now n org i c a p)"
| "iv_run x now n (CallAnswer org i c) = done_with (AnswerAndAdvance x now n org i c)"
| "iv_run x now n (CallAnswerPaced org i c p) = done_with (AnswerAndAdvanceWithPacing x now n org i c p)"
| "iv_run x now n (CallEvaluate org i r) = EvaluateAndPersist n org i r"
| "iv_run x now n (CallEnqueueEvaluation org i) = EnqueueEvaluation x org i"
| "iv_run x now n (CallTelemetry org i e) = RecordTelemetry n org i e"
| "iv_run x now n (CallCandidateTelemetry i tok e) = RecordCandidateTelemetry x n i tok e"
| "iv_run x now n (CallCoding org i c) = svc_RecordCodingSession n org i c"
| "iv_run x now n (CallTouch org i) = TouchInterview n org i"
| "iv_run x now n (CallQARemaining org i) = done_with (CandidateQARemaining x now n org i)"
| "iv_run x now n (CallQA org i q a) = RecordCandidateQA x now n org i q a"
| "iv_run x now n (CallGetQA org i) = done_with (GetCandidateQA org i)"

lemma top_moves_notify_all: "top_moves (notify_all k ns)"
  by (induction ns rule: notify_all.induct) (auto intro!: moves_intros)

lemma pure_op_connect_tx: "pure_op (connect_tx o1 k)"
  unfolding connect_tx_def Let_def by (intro clean_intros)

lemma top_moves_read [moves_intros]: "pure_op fn \<Longrightarrow> top_moves (RunInTx o1 fn)"
  by (intro top_moves_RunInTx tx_moves_pure)

lemma top_moves_dialogue [moves_intros]: "top_moves (svc_ProcessTopicDialogue x now n o1 k c a p)"
  unfolding svc_ProcessTopicDialogue_def by (intro moves_intros dialogue_tx_moves)

lemma top_moves_answer [moves_intros]: "top_moves (AnswerAndAdvanceWithPacing x now n o1 k c p)"
  unfolding AnswerAndAdvanceWithPacing_def by (intro moves_intros)

lemma top_moves_telemetry [moves_intros]: "top_moves (RecordTelemetry n o1 k e)"
  unfolding RecordTelemetry_def by (intro moves_intros proctoring_moves)

lemma top_moves_ticket_telemetry [moves_intros]: "top_moves (ticket_telemetry x n k tok e)"
  unfolding ticket_telemetry_def
  by (intro moves_intros top_moves_RunInTx tx_moves_bindE proctoring_moves | rule tx_moves_pure, intro clean_intros)+

lemma top_moves_active [moves_intros]: "top_moves (activeOrError now n o1 k)"
proof -
  have e: "tx_moves (bindE (iv_GetByID k) (\<lambda>iv.
      if iv_Status (ExpireIfNeeded now iv) \<noteq> Expired then ret () else iv_ExpireIfDue n k))"
    by (intro tx_moves_bindE) (simp_all add: tx_moves_ret expire_moves tx_moves_pure pure_op_reads)
  show ?thesis unfolding activeOrError_def persistExpireIfDue_def
    by (intro top_moves_bindE top_moves_RunInTx e tx_moves_pure clean_intros)
qed

lemma top_moves_evaluate [moves_intros]: "top_moves (EvaluateAndPersist n o1 k r)"
proof -
  have e: "tx_moves (bindE (iv_GetByID k) (\<lambda>iv.
        if (case iv_Evaluation iv of None \<Rightarrow> False | Some s \<Rightarrow> s \<noteq> []) then ret ()
        else SaveEvaluation n k r))"
    by (intro tx_moves_bindE) (simp_all add: tx_moves_ret SaveEvaluation_moves tx_moves_pure pure_op_reads)
  show ?thesis unfolding EvaluateAndPersist_def
    by (intro moves_intros e)
qed

lemma append_qa_map: "tx_moves m \<Longrightarrow> tx_moves (map_error g m)"
  by (rule tx_movesI) (erule map_error_InrE, erule (1) tx_movesD)

lemma iv_run_moves: "top_moves (iv_run x now n c)"
proof (cases c)
  case (CallCreate i k tok a app q)
  show ?thesis unfolding CallCreate iv_run.simps done_with_def CreateInterview_def
    by (intro moves_intros create_tx_moves)
next
  case (CallTicket s i tok)
  show ?thesis unfolding CallTicket iv_run.simps done_with_def IssueTicket_def
    by (intro moves_intros ticket_tx_moves)
next
  case (CallRequestHuman i tok)
  show ?thesis unfolding CallRequestHuman iv_run.simps RequestHuman_def
    by (intro moves_intros top_moves_notify_all tx_moves_bindE column_updates_moves tx_moves_query)
next
  case (CallConsent i tok)
  show ?thesis unfolding CallConsent iv_run.simps GiveConsent_def
    by (intro moves_intros column_updates_moves)
next
  case (CallStart o1 i)
  show ?thesis unfolding CallStart iv_run.simps StartInterview_def
    by (intro top_moves_RunInTx start_tx_moves)
next
  case (CallConnect o1 i)
  show ?thesis unfolding CallConnect iv_run.simps done_with_def ComposeConnectContexts_def
    by (intro moves_intros pure_op_connect_tx)
next
  case (CallCandidateTelemetry i tok e)
  show ?thesis unfolding CallCandidateTelemetry iv_run.simps RecordCandidateTelemetry_def by (intro moves_intros)
next
  case (CallQA o1 i q a)
  show ?thesis unfolding CallQA iv_run.simps RecordCandidateQA_def
    by (intro top_moves_sum top_moves_bindE top_moves_basic top_moves_active top_moves_RunInTx tx_moves_bindE
        | rule append_qa_map, rule append_qa_moves | rule tx_moves_pure, intro clean_intros)+
next
  case (CallCoding o1 i q)
  show ?thesis unfolding CallCoding iv_run.simps svc_RecordCodingSession_def
    by (intro moves_intros column_updates_moves)
next
  case (CallTouch o1 i)
  show ?thesis unfolding CallTouch iv_run.simps TouchInterview_def by (intro moves_intros column_updates_moves)
qed (simp_all only: iv_run.simps done_with_def VerifyInterviewOrg_def CurrentState_def RecentContext_def Transcript_def
    AnswerAndAdvance_def EnqueueEvaluation_def CandidateQARemaining_def GetCandidateQA_def Let_def,
    (intro moves_intros clean_intros)+)

section \<open>Failed calls\<close>

lemma clean_if [clean_intros]: "clean m \<Longrightarrow> clean n \<Longrightarrow> clean (if b then m else n)"
  by simp

lemma clean_option [clean_intros]:
  "clean m \<Longrightarrow> (\<And>x. clean (f x)) \<Longrightarrow> clean (case y of None \<Rightarrow> m | Some x \<Rightarrow> f x)"
  by (cases y) auto

lemma clean_sum [clean_intros]:
  "(\<And>e. clean (g e)) \<Longrightarrow> (\<And>x. clean (f x)) \<Longrightarrow> clean (case y of Inl e \<Rightarrow> g e | Inr x \<Rightarrow> f x)"
  by (cases y) auto

lemma clean_prod [clean_intros]: "(\<And>a b. clean (f a b)) \<Longrightarrow> clean (case y of (a, b) \<Rightarrow> f a b)"
  by (cases y) auto

text \<open>\<open>never_fails\<close>: what runs after the commit and only logs its failures.\<close>

definition never_fails :: "('s, 'a) op \<Rightarrow> bool" where
  "never_fails m \<longleftrightarrow> (\<forall>s. \<exists>a s'. m s = (Inr a, s'))"

lemma never_fails_intros:
  "never_fails (ret a)" "never_fails (attempt m)"
  "never_fails m \<Longrightarrow> (\<And>a. never_fails (f a)) \<Longrightarrow> never_fails (bindE m f)"
  "never_fails m \<Longrightarrow> never_fails n \<Longrightarrow> never_fails (if b then m else n)"
  unfolding never_fails_def
  by (auto simp: ret_def attempt_def bindE_def split: prod.splits sum.splits) (metis Pair_inject sum.inject(2) sum.distinct(1))+

end
