(* ===== verification/Interview_Promises.thy ===== *)
theory Interview_Promises
  imports Interview_Guarantees
begin

text \<open>
  The properties of the interview use cases, over \<open>iv_run\<close> and sequences of it: the history of an interview,
  what a failed call leaves behind, one dialogue turn from the request to the stored row, the bound on the
  number of turns and the budget of the candidate's own questions.
\<close>

section \<open>Sequences of calls\<close>

text \<open>Each call with the process clock and \<open>NOW()\<close> it runs under.\<close>

fun iv_runs :: "externals \<Rightarrow> (time \<times> time \<times> iv_call) list \<Rightarrow> ('m, iv_effect) iv_db \<Rightarrow> ('m, iv_effect) iv_db" where
  "iv_runs x [] d = d"
| "iv_runs x ((now, n, c) # cs) d = iv_runs x cs (snd (iv_run x now n c d))"

lemma iv_run_step:
  assumes "\<not> in_tx d" "wf_iv (tables d)" "iv_run x now n c d = (r, d')"
  shows "\<not> in_tx d'" "wf_iv (tables d')" "evolves (t_interviews (tables d)) (t_interviews (tables d'))"
  using top_movesD [OF iv_run_moves assms(1,3)] assms(2) by (simp_all add: moves_def)

lemma iv_runs_steps:
  assumes "\<not> in_tx d" "wf_iv (tables d)"
  shows "\<not> in_tx (iv_runs x cs d) \<and> wf_iv (tables (iv_runs x cs d))
    \<and> evolves (t_interviews (tables d)) (t_interviews (tables (iv_runs x cs d)))"
  using assms
proof (induction x cs d rule: iv_runs.induct)
  case (2 x now n c cs d)
  obtain r d1 where r: "iv_run x now n c d = (r, d1)" by fastforce
  note s = iv_run_step [OF 2(2,3) r]
  from 2(1) s r have i: "\<not> in_tx (iv_runs x cs d1)" "wf_iv (tables (iv_runs x cs d1))"
    "evolves (t_interviews (tables d1)) (t_interviews (tables (iv_runs x cs d1)))" by simp_all
  with evolves_trans [OF s(3) i(3)] r show ?case by simp
qed simp

text \<open>Interviews are identified by their position, which no call changes.\<close>

lemma map_hits_one:
  assumes "distinct (map g xs)" "i < length xs" "hit (xs ! i)" "\<And>x. hit x \<Longrightarrow> g x = g (xs ! i)"
  shows "map_hits hit f xs = xs[i := f (xs ! i)]"
proof (rule nth_equalityI)
  fix j assume "j < length (map_hits hit f xs)"
  then have j: "j < length xs" by (simp add: map_hits_def)
  have "\<not> hit (xs ! j)" if "j \<noteq> i"
  proof
    assume "hit (xs ! j)"
    with assms(4) have "map g xs ! j = map g xs ! i" using j assms(2) by simp
    with assms(1,2) j that show False by (simp add: nth_eq_iff_index_eq del: nth_map)
  qed
  with j assms(2,3) show "map_hits hit f xs ! j = xs[i := f (xs ! i)] ! j"
    by (cases "j = i") (simp_all add: map_hits_def)
qed (simp add: map_hits_def)

lemma map_hits_none: "(\<And>x. x \<in> set xs \<Longrightarrow> \<not> hit x) \<Longrightarrow> map_hits hit f xs = xs"
  by (simp add: map_hits_def map_idI)

lemma sees_iv_cong:
  "t_applications r' = t_applications r \<Longrightarrow> t_jobs r' = t_jobs r \<Longrightarrow> sees_iv t r' x = sees_iv t r x"
  by (simp add: sees_iv_def)

lemma iv_GetByID_found:
  assumes "iv_GetByID key d = (Inr iv, d')"
  obtains o1 i where "i < length (t_interviews (tables d))" "iv_ID (t_interviews (tables d) ! i) = key"
    "iv = hydrate o1 (t_interviews (tables d) ! i)" "sees_iv (tenant d) (tables d) (t_interviews (tables d) ! i)"
    "tenant d = Some o1" "tables d' = tables d" "ran d d'"
proof -
  from assms obtain q: "(case iv_find key (tenant d) (tables d) of None \<Rightarrow> None
     | Some x \<Rightarrow> (case find (\<lambda>a. app_ID a = iv_ApplicationID x \<and> sees_app (tenant d) a) (t_applications (tables d)) of
           None \<Rightarrow> None | Some a \<Rightarrow> Some (hydrate (app_OrgID a) x))) = Some iv"
    and r: "tables d' = tables d" "ran d d'"
    unfolding iv_GetByID_def by (rule query_row_InrE)
  from q obtain x a where x: "iv_find key (tenant d) (tables d) = Some x" "iv = hydrate (app_OrgID a) x"
    and a: "find (\<lambda>a. app_ID a = iv_ApplicationID x \<and> sees_app (tenant d) a) (t_applications (tables d)) = Some a"
    by (auto split: option.splits)
  from a have "sees_app (tenant d) a" by (auto simp: find_Some_iff)
  then have t: "tenant d = Some (app_OrgID a)" by (simp add: sees_app_def)
  from x(1) obtain i where "i < length (t_interviews (tables d))" "x = t_interviews (tables d) ! i" "iv_ID x = key"
    "sees_iv (tenant d) (tables d) x"
    by (auto simp: iv_find_def find_Some_iff)
  with that t x(2) r show ?thesis by simp
qed

lemma iv_Update_row:
  assumes "iv_Update n iv d = (Inr u, d')" "distinct (map iv_ID (t_interviews (tables d)))"
    "i < length (t_interviews (tables d))" "iv_ID (t_interviews (tables d) ! i) = iv_ID iv"
    "sees_iv (tenant d) (tables d) (t_interviews (tables d) ! i)"
  shows "t_interviews (tables d') = (t_interviews (tables d))[i := iv_columns n iv (t_interviews (tables d) ! i)]"
    "t_tokens (tables d') = t_tokens (tables d)" "t_bank (tables d') = t_bank (tables d)" "ran d d'"
proof -
  obtain k where k: "update_iv (iv_ID iv) (\<lambda>_. True) (iv_columns n iv) d = (Inr k, d')"
    using assms(1) unfolding iv_Update_def by (elim wrapped_InrE unit_of_InrE)
  note e = update_iv_effect [OF k]
  have "map_hits (\<lambda>x. (iv_ID x = iv_ID iv \<and> True) \<and> sees_iv (tenant d) (tables d) x) (iv_columns n iv)
     (t_interviews (tables d)) = (t_interviews (tables d))[i := iv_columns n iv (t_interviews (tables d) ! i)]"
    by (rule map_hits_one [where g = iv_ID]) (use assms in simp_all)
  then show "t_interviews (tables d') = (t_interviews (tables d))[i := iv_columns n iv (t_interviews (tables d) ! i)]"
    by (simp add: e(2))
  show "t_tokens (tables d') = t_tokens (tables d)" "t_bank (tables d') = t_bank (tables d)" "ran d d'"
    using e(1) by (simp_all add: e(2))
qed

section \<open>One dialogue turn\<close>

lemma bank_Create_InrE:
  assumes "bank_Create n o1 q d = (Inr u, d')"
  obtains "t_interviews (tables d') = t_interviews (tables d)" "t_applications (tables d') = t_applications (tables d)"
    "t_jobs (tables d') = t_jobs (tables d)" "ran d d'"
  using assms unfolding bank_Create_def by (elim insert_row_InrE) (rule that, simp_all)

text \<open>A refused insert aborts the transaction, and with it the turn.\<close>

lemma bank_Create_InlD: "bank_Create n o1 q d = (Inl e, d') \<Longrightarrow> in_tx d \<Longrightarrow> aborted d' \<and> in_tx d'"
  by (auto simp: bank_Create_def insert_row_def exec_def split: if_splits option.splits prod.splits sum.splits
      dest!: next_fault_frameD)

lemma dialogue_finish_ran:
  assumes "dialogue_finish now n isDone turn mx iv nxt d = (Inr res, d')"
  shows "in_tx d" "\<not> aborted d"
proof -
  from assms obtain iv' err where "iv_Update n iv' d = (Inr (), d')" by (rule dialogue_finish_InrE)
  then obtain k where "update_iv (iv_ID iv') (\<lambda>_. True) (iv_columns n iv') d = (Inr k, d')"
    unfolding iv_Update_def by (elim wrapped_InrE unit_of_InrE)
  from update_iv_effect(1) [OF this] show "in_tx d" "\<not> aborted d" by (simp_all add: ran_def)
qed

lemma probe_next:
  assumes "wf_interview iv" "NextQuestion iv = Some q"
    and d: "ProcessTopicDialogue now content action pacing iv = Inr (iv2, nxt, True, turn, mx)"
    and i: "InsertProbeAfter (int (q_Idx q)) txt category skill iv2 = Inr (iv3, p)"
  shows "NextQuestion iv3 = Some p" "LastQuestionIdx iv3 = LastQuestionIdx iv + 1" "iv_Status iv3 = InProgress"
    "Answers iv3 = Answers iv2" "Questions iv2 = Questions iv"
proof -
  note c = InsertProbeAfter_cases [OF i]
  obtain qs where i3: "iv3 = iv2\<lparr>Questions := qs\<rparr>" using c(4) by blast
  note dc = dialogue_closed [OF d assms(1)]
  have idx: "q_Idx q = LastQuestionIdx iv + 1"
    using assms(1,2) by (simp add: NextQuestion_Some wf_interview_def wf_questions_nth)
  then have n: "nat (int (q_Idx q)) = LastQuestionIdx iv + 1" by simp
  have st: "iv_Status iv2 = InProgress" using d by (rule ProcessTopicDialogue_cases) simp
  have len: "LastQuestionIdx iv + 1 < length (Questions iv3)" using c(2,3,5) idx by linarith
  from st i3 dc show l: "LastQuestionIdx iv3 = LastQuestionIdx iv + 1" and "iv_Status iv3 = InProgress"
    "Answers iv3 = Answers iv2" "Questions iv2 = Questions iv" by simp_all
  then show "NextQuestion iv3 = Some p" using len c(7) unfolding n by (simp add: NextQuestion_Some)
qed

text \<open>What the stored row \<open>x\<close> becomes, and what the caller is told.\<close>

definition turn_effect :: "time \<Rightarrow> string \<Rightarrow> string \<Rightarrow> Interview \<Rightarrow> Interview \<Rightarrow> TopicDialogueResult \<Rightarrow> bool" where
  "turn_effect now content action x y res \<longleftrightarrow>
     iv_Status x = InProgress \<and> \<not> past_deadline now x \<and> \<not> past_cap now x \<and> LastQuestionIdx x < length (Questions x)
   \<and> (\<exists>a. Answers y = Answers x @ [a] \<and> a_Idx a = LastQuestionIdx x + 1 \<and> a_Content a = content
        \<and> a_Turn a = tdr_CurrentTurn res)
   \<and> tdr_IsTopicComplete res = (action \<noteq> reply \<or> MaxTurnsPerTopic \<le> tdr_CurrentTurn res)
   \<and> LastQuestionIdx y = LastQuestionIdx x + (if tdr_IsTopicComplete res then 1 else 0)
   \<and> prepared y = prepared x \<and> tdr_TotalQuestions res = length (Questions y)
   \<and> tdr_NextQuestion res = NextQuestion y
   \<and> iv_Status y = (if tdr_NextQuestion res = None then Completed else InProgress)
   \<and> tdr_TransitionErr res = None"

lemma not_expired:
  "iv_Status (ExpireIfNeeded now iv) \<noteq> Expired \<longleftrightarrow> iv_Status iv \<noteq> Expired \<and>
     (iv_Status iv \<noteq> Completed \<longrightarrow> \<not> past_deadline now iv \<and> \<not> past_cap now iv)"
  "iv_Status (ExpireIfNeeded now iv) \<noteq> Expired \<Longrightarrow> ExpireIfNeeded now iv = iv"
  by (auto simp: ExpireIfNeeded_def split: if_splits)

lemma past_hydrate [simp]:
  "past_deadline now (hydrate o1 x) = past_deadline now x" "past_cap now (hydrate o1 x) = past_cap now x"
  by (simp_all add: past_deadline_def past_cap_def)

lemma NextQuestion_iv_columns [simp]: "NextQuestion (iv_columns n iv x) = NextQuestion iv"
  by (simp add: NextQuestion_def)

text \<open>From the answer to the aggregate that is written: without a probe, and with one.\<close>

lemma completion_effect:
  assumes "completion now isDone nxt iv = (iv', err)" "iv_Status iv = InProgress" "nxt = NextQuestion iv"
    "\<not> isDone \<longrightarrow> nxt \<noteq> None"
  shows "err = None" "Questions iv' = Questions iv" "Answers iv' = Answers iv" "LastQuestionIdx iv' = LastQuestionIdx iv"
    "iv_Status iv' = (if nxt = None then Completed else InProgress)" "nxt = NextQuestion iv'"
  using assms by (auto simp: completion_def Complete_def NextQuestion_def split: if_splits)

lemma turn_written:
  assumes w: "wf_interview iv" and act: "iv_Status iv = InProgress"
    and p: "ProcessTopicDialogue now content action pacing iv = Inr (iv2, nxt, isDone, turn, mx)"
    and b: "probe_step n o1 content (NextQuestion iv) isDone iv2 nxt d1 = (Inr (iv3, nxt'), d2)"
    and ok: "\<not> aborted d2" "in_tx d1"
  shows "iv_Status iv3 = InProgress" "nxt' = NextQuestion iv3" "\<not> isDone \<longrightarrow> nxt' \<noteq> None"
    "Answers iv3 = Answers iv2" "LastQuestionIdx iv3 = LastQuestionIdx iv2"
    "t_interviews (tables d2) = t_interviews (tables d1)" "t_applications (tables d2) = t_applications (tables d1)"
    "t_jobs (tables d2) = t_jobs (tables d1)" "tenant d2 = tenant d1"
proof -
  have s2: "iv_Status iv2 = InProgress" and n2: "nxt = NextQuestion iv2"
    and more: "\<not> isDone \<longrightarrow> nxt \<noteq> None"
    using p by (auto elim!: ProcessTopicDialogue_cases simp: NextQuestion_def split: if_splits)
  have "iv_Status iv3 = InProgress \<and> nxt' = NextQuestion iv3 \<and> (\<not> isDone \<longrightarrow> nxt' \<noteq> None) \<and> Answers iv3 = Answers iv2
     \<and> LastQuestionIdx iv3 = LastQuestionIdx iv2 \<and> t_interviews (tables d2) = t_interviews (tables d1)
     \<and> t_applications (tables d2) = t_applications (tables d1) \<and> t_jobs (tables d2) = t_jobs (tables d1)
     \<and> tenant d2 = tenant d1"
    using b
  proof (cases rule: probe_step_InrE)
    case none
    with s2 n2 more show ?thesis by simp
  next
    case (probe q pr r)
    from probe(2) p have p': "ProcessTopicDialogue now content action pacing iv = Inr (iv2, nxt, True, turn, mx)" by simp
    note pn = probe_next [OF w probe(1) p' probe(5)]
    have l2: "LastQuestionIdx iv2 = LastQuestionIdx iv + 1" by (rule dialogue_closed(2) [OF p' w])
    from probe(6) ok have "\<exists>u. r = Inr u" using bank_Create_InlD [of n o1 pr d1 _ d2] by (cases r) auto
    then obtain u where u: "r = Inr u" by blast
    with probe(6) have "bank_Create n o1 pr d1 = (Inr u, d2)" by simp
    then have t: "t_interviews (tables d2) = t_interviews (tables d1)" "t_applications (tables d2) = t_applications (tables d1)"
      "t_jobs (tables d2) = t_jobs (tables d1)" "tenant d2 = tenant d1"
      by (elim bank_Create_InrE; simp add: ran_def)+
    from probe(7) u have "nxt' = Some pr" by simp
    with pn l2 t show ?thesis by simp
  qed
  then show "iv_Status iv3 = InProgress" "nxt' = NextQuestion iv3" "\<not> isDone \<longrightarrow> nxt' \<noteq> None"
    "Answers iv3 = Answers iv2" "LastQuestionIdx iv3 = LastQuestionIdx iv2"
    "t_interviews (tables d2) = t_interviews (tables d1)" "t_applications (tables d2) = t_applications (tables d1)"
    "t_jobs (tables d2) = t_jobs (tables d1)" "tenant d2 = tenant d1" by blast+
qed

lemma dialogue_tx_effect:
  assumes wf: "wf_iv (tables d)" and run: "dialogue_tx now n o1 key content action pacing d = (Inr res, d')"
  shows "\<exists>i y. i < length (t_interviews (tables d)) \<and> iv_ID (t_interviews (tables d) ! i) = key
    \<and> t_interviews (tables d') = (t_interviews (tables d))[i := y]
    \<and> turn_effect now content action (t_interviews (tables d) ! i) y res"
proof -
  from run obtain iv0 d1 iv2 nxt isDone turn mx iv3 nxt' d2 where g: "iv_GetByID key d = (Inr iv0, d1)"
    and ne: "iv_Status (ExpireIfNeeded now iv0) \<noteq> Expired"
    and p: "ProcessTopicDialogue now content action pacing (ExpireIfNeeded now iv0) = Inr (iv2, nxt, isDone, turn, mx)"
      "probe_step n o1 content (NextQuestion (ExpireIfNeeded now iv0)) isDone iv2 nxt d1 = (Inr (iv3, nxt'), d2)"
    and f: "dialogue_finish now n isDone turn mx iv3 nxt' d2 = (Inr res, d')"
    by (rule dialogue_tx_InrE)
  from f obtain iv4 err where c: "completion now isDone nxt' iv3 = (iv4, err)" and u: "iv_Update n iv4 d2 = (Inr (), d')"
    and res: "res = \<lparr>tdr_NextQuestion = nxt', tdr_IsTopicComplete = isDone, tdr_CurrentTurn = turn, tdr_MaxTurns = mx,
       tdr_TotalQuestions = length (Questions iv4), tdr_TransitionErr = err\<rparr>"
    by (rule dialogue_finish_InrE)
  from g obtain oo i where x: "i < length (t_interviews (tables d))" "iv_ID (t_interviews (tables d) ! i) = key"
    "iv0 = hydrate oo (t_interviews (tables d) ! i)" "sees_iv (tenant d) (tables d) (t_interviews (tables d) ! i)"
    "tables d1 = tables d" "ran d d1"
    by (rule iv_GetByID_found)
  let ?x = "t_interviews (tables d) ! i"
  have e: "ExpireIfNeeded now iv0 = iv0" by (rule not_expired(2) [OF ne])
  note p = p [unfolded e] and ne = ne [unfolded not_expired(1)]
  have act: "iv_Status iv0 = InProgress" using p(1) by (rule ProcessTopicDialogue_cases)
  have "row_ok ?x" using wf x(1) by (simp add: wf_iv_def list_all_length)
  then have w: "wf_interview iv0" using x(3) wf_hydrate [of oo ?x] by (simp add: row_ok_def wfp_def)
  note t = turn_written [OF w act p dialogue_finish_ran(2) [OF f] ranD(4) [OF x(6)]]
  note ce = completion_effect [OF c t(1-3)]
  have pr: "progressed iv0 iv4" by (rule dialogue_progress(1) [OF p c])
  have id4: "iv_ID iv4 = key" and prep: "prepared iv4 = prepared iv0"
    using pr x(2,3) w \<open>row_ok ?x\<close> by (simp_all add: progressed_def onward_def row_ok_def)
  have wr: "t_interviews (tables d') = (t_interviews (tables d2))[i := iv_columns n iv4 (t_interviews (tables d2) ! i)]"
  proof (rule iv_Update_row(1) [OF u])
    show "distinct (map iv_ID (t_interviews (tables d2)))" using wf t(6) x(5) by (simp add: wf_iv_def)
    show "i < length (t_interviews (tables d2))" "iv_ID (t_interviews (tables d2) ! i) = iv_ID iv4"
      using x id4 t(6) by simp_all
    have "sees_iv (tenant d2) (tables d2) ?x = sees_iv (tenant d) (tables d) ?x"
      using t(7-9) x(5) ranD(3) [OF x(6)] by (simp add: sees_iv_def)
    with x t(6) show "sees_iv (tenant d2) (tables d2) (t_interviews (tables d2) ! i)" by simp
  qed
  have "turn_effect now content action ?x (iv_columns n iv4 ?x) res"
    using p(1)
  proof (rule ProcessTopicDialogue_cases)
    fix a assume a: "LastQuestionIdx iv0 < length (Questions iv0)" "a_Idx a = LastQuestionIdx iv0 + 1" "a_Content a = content"
      "a_Action a = (if action = reply then reply else advance)"
      "isDone \<longleftrightarrow> a_Action a = advance \<or> MaxTurnsPerTopic \<le> a_Turn a" "turn = a_Turn a"
      "iv2 = iv0\<lparr>Answers := Answers iv0 @ [a], lastActivity := now,
        LastQuestionIdx := (if isDone then LastQuestionIdx iv0 + 1 else LastQuestionIdx iv0)\<rparr>"
    have ra: "(reply = advance) = False" by (simp add: reply_def advance_def)
    have d: "isDone = (action \<noteq> reply \<or> MaxTurnsPerTopic \<le> turn)" using a(4-6) ra by (simp split: if_splits)
    have x': "iv_Status ?x = InProgress" "\<not> past_deadline now ?x" "\<not> past_cap now ?x" "LastQuestionIdx ?x < length (Questions ?x)"
      using ne act a(1) x(3) by simp_all
    have l: "LastQuestionIdx iv4 = LastQuestionIdx ?x + (if isDone then 1 else 0)" using ce(4) t(5) a(7) x(3) by simp
    have an: "Answers iv4 = Answers ?x @ [a]" using ce(3) t(4) a(7) x(3) by simp
    show ?thesis unfolding turn_effect_def res using x' l an a(2,3,6) d ce(1,5,6) prep x(3) by simp
  qed
  with wr x t(6) show ?thesis by auto
qed

text \<open>The turn as the service offers it, and its two shorthands.\<close>

lemma dialogue_call_effect:
  assumes wf: "wf_iv (tables d)" "\<not> in_tx d"
    and run: "svc_ProcessTopicDialogue x now n org key content action pacing d = (Inr res, d')"
  shows "\<exists>i y. i < length (t_interviews (tables d)) \<and> iv_ID (t_interviews (tables d) ! i) = key
    \<and> t_interviews (tables d') = (t_interviews (tables d))[i := y]
    \<and> turn_effect now content action (t_interviews (tables d) ! i) y res"
proof -
  from run obtain o1 where "RunInTx org (dialogue_tx now n o1 key content action pacing) d = (Inr res, d')"
    by (auto simp: svc_ProcessTopicDialogue_def throw_Inr split: sum.splits)
  with wf(2) obtain d1 d2 where r: "dialogue_tx now n o1 key content action pacing d1 = (Inr res, d2)"
    and t: "tables d1 = tables d" "tables d' = tables d2"
    by (rule RunInTx_InrD)
  have "wf_iv (tables d1)" using wf(1) t(1) by simp
  from dialogue_tx_effect [OF this r] show ?thesis unfolding t .
qed

fun turn_of :: "iv_call \<Rightarrow> uuid option" where
  "turn_of (CallDialogue org i c a p) = Some i"
| "turn_of (CallAnswer org i c) = Some i"
| "turn_of (CallAnswerPaced org i c p) = Some i"
| "turn_of c = None"

lemma turn_run:
  assumes "turn_of c = Some key" "iv_run x now n c d = (Inr u, d')"
  obtains org content action pacing res where
    "svc_ProcessTopicDialogue x now n org key content action pacing d = (Inr res, d')"
  using assms(1)
proof (cases c rule: turn_of.cases)
  case (1 org i co a p)
  with assms that show ?thesis by (auto simp: done_with_def elim!: op_InrE)
next
  case (2 org i co)
  with assms that show ?thesis
    by (auto simp: done_with_def AnswerAndAdvance_def AnswerAndAdvanceWithPacing_def elim!: op_InrE)
next
  case (3 org i co p)
  with assms that show ?thesis by (auto simp: done_with_def AnswerAndAdvanceWithPacing_def elim!: op_InrE)
qed simp_all

text \<open>The turns of one interview that a sequence of calls had accepted.\<close>

fun turns :: "externals \<Rightarrow> uuid \<Rightarrow> (time \<times> time \<times> iv_call) list \<Rightarrow> ('m, iv_effect) iv_db \<Rightarrow> nat" where
  "turns x key [] d = 0"
| "turns x key ((now, n, c) # cs) d = (case iv_run x now n c d of (r, d') \<Rightarrow>
     (if turn_of c = Some key \<and> \<not> isl r then 1 else 0) + turns x key cs d')"

lemma answers_bound:
  assumes "wfp iv"
  shows "length (Answers iv) \<le> 2 * MaxTurnsPerTopic * length (prepared iv)"
proof -
  let ?qs = "Questions iv" and ?c = "LastQuestionIdx iv"
  have "wf_dialogue (length ?qs) ?c (Answers iv)" using assms by (simp add: wfp_def wf_interview_def)
  then have a: "length (Answers iv) \<le> MaxTurnsPerTopic * length ?qs" by (rule wf_dialogue_length)
  have "length ?qs = length (ordinary ?qs) + length (filter q_IsProbe ?qs)"
    unfolding ordinary_def using sum_length_filter_compl [of q_IsProbe ?qs] by simp
  moreover have "length (filter q_IsProbe ?qs) \<le> length (ordinary ?qs)"
  proof -
    have "length (ordinary (take ?c ?qs)) \<le> length (ordinary (take (?c + length ?qs) ?qs))"
      by (rule ordinary_take_mono) simp
    with assms show ?thesis by (simp add: wfp_def probes_ok_def)
  qed
  ultimately have "length ?qs \<le> 2 * length (prepared iv)" by (simp add: prepared_def)
  then have "MaxTurnsPerTopic * length ?qs \<le> MaxTurnsPerTopic * (2 * length (prepared iv))" by (rule mult_le_mono2)
  with a show ?thesis by (simp add: MaxTurnsPerTopic_def)
qed

lemma turns_bound:
  assumes "wf_iv (tables d)" "\<not> in_tx d" "i < length (t_interviews (tables d))" "iv_ID (t_interviews (tables d) ! i) = key"
  shows "turns x key cs d + length (Answers (t_interviews (tables d) ! i))
    \<le> 2 * MaxTurnsPerTopic * length (prepared (t_interviews (tables d) ! i))"
  using assms
proof (induction x key cs d rule: turns.induct)
  case (1 x key d)
  then have "wfp (t_interviews (tables d) ! i)" by (simp add: wf_iv_def list_all_length row_ok_def)
  from answers_bound [OF this] show ?case by simp
next
  case (2 x key now n c cs d)
  obtain r d1 where r: "iv_run x now n c d = (r, d1)" by fastforce
  note s = iv_run_step [OF 2(3,2) r]
  let ?x = "t_interviews (tables d) ! i" and ?y = "t_interviews (tables d1) ! i"
  have le: "iv_le ?x ?y" and i: "i < length (t_interviews (tables d1))"
    using s(3) 2(4) by (simp_all add: evolves_nth)
  have id: "iv_ID ?y = key" and p: "prepared ?y = prepared ?x" and a: "length (Answers ?x) \<le> length (Answers ?y)"
    using le 2(5) by (simp_all add: iv_le_def prefix_length_le)
  from 2(1) [OF r [symmetric] s(2,1) i id] p
  have IH: "turns x key cs d1 + length (Answers ?y) \<le> 2 * MaxTurnsPerTopic * length (prepared ?x)" by simp
  have "length (Answers ?x) + 1 \<le> length (Answers ?y)" if t: "turn_of c = Some key" "\<not> isl r"
  proof -
    from t r obtain u where "iv_run x now n c d = (Inr u, d1)" by (cases r) auto
    with t(1) obtain org content action pacing res where
      "svc_ProcessTopicDialogue x now n org key content action pacing d = (Inr res, d1)" by (rule turn_run)
    from dialogue_call_effect [OF 2(2,3) this] obtain j y where j: "j < length (t_interviews (tables d))"
      "iv_ID (t_interviews (tables d) ! j) = key" "t_interviews (tables d1) = (t_interviews (tables d))[j := y]"
      "turn_effect now content action (t_interviews (tables d) ! j) y res" by blast
    have "distinct (map iv_ID (t_interviews (tables d)))" using 2(2) by (simp add: wf_iv_def)
    with j(1,2) 2(4,5) have "j = i" by (metis length_map nth_eq_iff_index_eq nth_map)
    with j show ?thesis by (auto simp: turn_effect_def)
  qed
  with IH a r show ?case by (auto split: prod.splits)
qed

section \<open>The history of an interview\<close>

definition demo_iv_tables :: "iv_tables" where
  "demo_iv_tables = core_tables.extend (demo_apply\<lparr>t_applications := [new_link 1 ''app'' ''o1'' ''c1'' ''j1'']\<rparr>)
     (iv_tables.fields [demo_started\<lparr>ConsentGiven := True\<rparr>] [] [] [])"

definition demo_iv_db :: "(unit, iv_effect) iv_db" where
  "demo_iv_db = \<lparr>tables = demo_iv_tables, tenant = None, in_tx = False, aborted = False, saved = [], faults = [],
     pending = [], fired = []\<rparr>"

definition demo_externals :: externals where
  "demo_externals = \<lparr>x_ParseUUID = Inr, x_DecodeProfile = (\<lambda>s. Inr ([], s)), x_DecodeQuestionSet = (\<lambda>s. Inl ErrNoTx),
     x_ParseToken = (\<lambda>s. Inl ErrNoTx), x_IssueToken = (\<lambda>c. Inl ErrNoTx), x_Download = (\<lambda>s. Inl ErrNoTx),
     x_QALimit = None, x_Enqueuer = False\<rparr>"

definition demo_calls :: "(time \<times> time \<times> iv_call) list" where
  "demo_calls = [(20, 20, CallDialogue ''o1'' ''iv'' ''because'' ''reply'' None),
     (30, 30, CallQA ''o1'' ''iv'' ''Who?'' ''We.''), (40, 40, CallAnswer ''o1'' ''iv'' ''''),
     (50, 50, CallEvaluate ''o1'' ''iv'' ''{}'')]"

lemma demo_iv_ok: "wf_iv (tables demo_iv_db)" "\<not> in_tx demo_iv_db"
proof -
  have "wf_interview (demo_started\<lparr>ConsentGiven := True\<rparr>) = wf_interview demo_started"
    by (simp add: wf_interview_def wf_status_def cong: Status.case_cong)
  then have "wf_interview (demo_started\<lparr>ConsentGiven := True\<rparr>)" using iv_reachable_wf [OF demo_reachable(2)] by simp
  moreover have "probes_ok (demo_started\<lparr>ConsentGiven := True\<rparr>)" by (simp add: probes_ok_def demo_defs)
  ultimately show "wf_iv (tables demo_iv_db)"
    by (simp add: demo_iv_db_def demo_iv_tables_def iv_tables.defs core_tables.defs wf_iv_def row_ok_def wfp_def)
qed (simp add: demo_iv_db_def)

text \<open>
  Property C1. Whatever calls the interview service gets, in any order, under any clocks and any failures of the
  database: every stored interview stays well formed, none is conducted without the candidate's consent, and
  each interview only moves on. It keeps its application and the questions prepared for it, its status never
  goes back, its answers, the candidate's own questions and the coding sessions are only ever appended to, a
  report once saved is never replaced, consent once given is never withdrawn and the start never moves.
\<close>

theorem interview_service_history:
  assumes "wf_iv (tables d)" "\<not> in_tx d"
  shows "wf_iv (tables (iv_runs x cs d)) \<and> evolves (t_interviews (tables d)) (t_interviews (tables (iv_runs x cs d)))"
  using iv_runs_steps [OF assms(2,1)] by blast

lemma interview_service_history_witness:
  "wf_iv (tables (iv_runs demo_externals demo_calls demo_iv_db))
   \<and> map (\<lambda>iv. (length (Answers iv), length (QAPairs iv), iv_Evaluation iv))
       (t_interviews (tables (iv_runs demo_externals demo_calls demo_iv_db))) = [(1, 1, Some ''{}'')]"
proof -
  have "map (\<lambda>iv. (length (Answers iv), length (QAPairs iv), iv_Evaluation iv))
       (t_interviews (tables (iv_runs demo_externals demo_calls demo_iv_db))) = [(1, 1, Some ''{}'')]" by code_simp
  with interview_service_history [OF demo_iv_ok] show ?thesis by blast
qed

text \<open>
  Property C2. An interview ends: however the candidate mixes replies and advances, and whatever else happens to
  the interview meanwhile, the turns the service accepts are at most six per question prepared at its creation,
  three on the question and three on the one probe it may lead to.
\<close>

theorem dialogue_turns_bounded:
  assumes "wf_iv (tables d)" "\<not> in_tx d" "iv \<in> set (t_interviews (tables d))"
  shows "turns x (iv_ID iv) cs d \<le> 6 * length (prepared iv)"
proof -
  from assms(3) obtain i where i: "i < length (t_interviews (tables d))" "t_interviews (tables d) ! i = iv"
    by (auto simp: in_set_conv_nth)
  have "iv_ID (t_interviews (tables d) ! i) = iv_ID iv" by (simp add: i(2))
  from turns_bound [OF assms(1,2) i(1) this, of x cs] show ?thesis by (simp add: i(2) MaxTurnsPerTopic_def)
qed

lemma dialogue_turns_bounded_witness: "turns demo_externals ''iv'' demo_calls demo_iv_db \<le> 12"
proof -
  let ?iv = "demo_started\<lparr>ConsentGiven := True\<rparr>"
  have "?iv \<in> set (t_interviews (tables demo_iv_db))"
    by (simp add: demo_iv_db_def demo_iv_tables_def iv_tables.defs core_tables.defs)
  from dialogue_turns_bounded [OF demo_iv_ok this, of demo_externals demo_calls]
  show ?thesis by (simp add: demo_defs prepared_def ordinary_def)
qed

text \<open>
  Property C3. A dialogue turn that the service accepts was given to a running interview within its deadline and
  its time cap; exactly one answer is appended to it, with the candidate's text and the number of the question,
  and no other interview changes. The topic closes when the candidate does not reply or at the third turn, then
  the cursor moves by one. The question handed back is the one the stored interview asks next, a probe included;
  there is none exactly when the stored interview is completed, and the completion has not failed.
\<close>

theorem dialogue_turn_correct:
  assumes "wf_iv (tables d)" "\<not> in_tx d"
    and "svc_ProcessTopicDialogue x now n org key content action pacing d = (Inr res, d')"
  shows "\<exists>i y. i < length (t_interviews (tables d)) \<and> iv_ID (t_interviews (tables d) ! i) = key
    \<and> t_interviews (tables d') = (t_interviews (tables d))[i := y]
    \<and> turn_effect now content action (t_interviews (tables d) ! i) y res"
  by (rule dialogue_call_effect [OF assms])

lemma dialogue_turn_correct_witness:
  "\<exists>y. t_interviews (tables (snd (svc_ProcessTopicDialogue demo_externals 20 20 ''o1'' ''iv'' ''because'' ''reply'' None demo_iv_db)))
     = [y] \<and> iv_Status y = InProgress \<and> length (Answers y) = 1"
proof -
  let ?run = "svc_ProcessTopicDialogue demo_externals 20 20 ''o1'' ''iv'' ''because'' ''reply'' None demo_iv_db"
  have n: "map_sum (\<lambda>_. ()) (\<lambda>r. tdr_NextQuestion r = None) (fst ?run) = Inr False" by code_simp
  then obtain res d' where r: "?run = (Inr res, d')" and q: "tdr_NextQuestion res \<noteq> None"
    by (cases ?run; cases "fst ?run") auto
  have one: "length (t_interviews (tables demo_iv_db)) = 1"
    "Answers (t_interviews (tables demo_iv_db) ! 0) = []"
    by (simp_all add: demo_iv_db_def demo_iv_tables_def iv_tables.defs core_tables.defs demo_defs)
  from dialogue_turn_correct [OF demo_iv_ok r] obtain i y where
    "i < length (t_interviews (tables demo_iv_db))" "t_interviews (tables d') = (t_interviews (tables demo_iv_db))[i := y]"
    "turn_effect 20 ''because'' ''reply'' (t_interviews (tables demo_iv_db) ! i) y res" by blast
  with one q r show ?thesis by (auto simp: turn_effect_def length_Suc_conv)
qed

section \<open>Failed calls\<close>

lemma clean_basic: "clean (throw e)" "clean (ret a)" "clean (emit h)"
  by (intro clean_pure clean_intros)+

lemma pure_RunInTx:
  assumes "pure_op fn"
  shows "pure_op (RunInTx o1 fn)"
proof (rule pure_opI)
  fix d r d' assume run: "RunInTx o1 fn d = (r, d')"
  show "tables d' = tables d \<and> in_tx d' = in_tx d"
  proof (cases "in_tx d")
    case True
    with run have "fn d = (r, d')" by (simp add: RunInTx_def)
    with pure_opD [OF assms] show ?thesis by blast
  next
    case False
    show ?thesis
    proof (cases r)
      case (Inl e)
      with run RunInTx_atomic [OF False, of o1 fn e d'] False show ?thesis by simp
    next
      case (Inr a)
      with run have "RunInTx o1 fn d = (Inr a, d')" by simp
      with False obtain d1 d2 where "fn d1 = (Inr a, d2)" "tables d1 = tables d" "tables d' = tables d2" "\<not> in_tx d'"
        by (rule RunInTx_InrD)
      with pure_opD [OF assms, of d1 "Inr a" d2] False show ?thesis by simp
    qed
  qed
qed

lemma clean_then_logged:
  assumes "clean m" "\<And>a. never_fails (f a)"
  shows "clean (bindE m f)"
  unfolding clean_def
proof (intro allI impI)
  fix d e d' assume d: "\<not> in_tx d" "bindE m f d = (Inl e, d')"
  from d(2) show "tables d' = tables d"
  proof (cases rule: bindE_cases)
    case (step a d1)
    with assms(2) [of a] show ?thesis unfolding never_fails_def by (metis Pair_inject sum.distinct(1))
  qed (use cleanD [OF assms(1) d(1)] in simp)
qed

lemma never_fails_notify_all: "never_fails (notify_all k ns)"
  by (induction ns rule: notify_all.induct) (simp_all add: never_fails_intros)

lemma clean_evaluate: "clean (EvaluateAndPersist n o1 k r)"
  unfolding clean_def
proof (intro allI impI)
  fix d e d'
  assume d: "\<not> in_tx d" "EvaluateAndPersist n o1 k r d = (Inl e, d')"
  from d(2) obtain e2 where "RunInTx o1 (bindE (iv_GetByID k) (\<lambda>iv.
        if (case iv_Evaluation iv of None \<Rightarrow> False | Some s \<Rightarrow> s \<noteq> []) then ret ()
        else SaveEvaluation n k r)) d = (Inl e2, d')"
    unfolding EvaluateAndPersist_def
    by (elim bindE_cases) (auto simp: attempt_def ret_def throw_def split: prod.splits sum.splits if_splits)
  from RunInTx_atomic(1) [OF d(1) this] show "tables d' = tables d" .
qed

lemma clean_CreateInterview: "clean (CreateInterview x now n i k tok a app q)"
  unfolding CreateInterview_def
  by (rule clean_bind_pure, rule pure_op_check, rule clean_then_logged, rule clean_RunInTx)
    (auto intro!: never_fails_intros split: prod.splits)

lemma clean_RequestHuman: "clean (RequestHuman x n i tok)"
  unfolding RequestHuman_def
  by (rule clean_bind_pure, rule pure_op_Validate, rule clean_bind_pure, rule pure_op_lift, rule clean_then_logged,
      rule clean_RunInTx) (simp add: never_fails_intros never_fails_notify_all)

lemma clean_dialogue: "clean (svc_ProcessTopicDialogue x now n o1 k c a p)"
  unfolding svc_ProcessTopicDialogue_def by (intro clean_sum clean_basic clean_RunInTx)

lemma clean_answer: "clean (AnswerAndAdvanceWithPacing x now n o1 k c p)" "clean (AnswerAndAdvance x now n o1 k c)"
proof -
  show a: "clean (AnswerAndAdvanceWithPacing x now n o1 k c p)" for p
    unfolding AnswerAndAdvanceWithPacing_def by (intro clean_bind_ret clean_dialogue)
  show "clean (AnswerAndAdvance x now n o1 k c)"
    unfolding AnswerAndAdvance_def by (rule clean_then_logged [OF a]) (auto intro: never_fails_intros split: prod.splits)
qed

lemma clean_ticket_telemetry: "clean (ticket_telemetry x n k tok e)"
  unfolding ticket_telemetry_def by (intro clean_sum clean_if clean_basic clean_map_error clean_RunInTx)

lemma clean_candidate_telemetry: "clean (RecordCandidateTelemetry x n k tok e)"
  unfolding RecordCandidateTelemetry_def RecordTelemetry_def
  by (intro clean_bind_pure pure_op_Validate clean_prod clean_option clean_if clean_RunInTx clean_ticket_telemetry)

lemma clean_GiveConsent: "clean (GiveConsent n i tok)"
  unfolding GiveConsent_def
  by (intro clean_bind_pure pure_op_Validate clean_prod pure_op_fail_if clean_option clean_if clean_basic clean_RunInTx)

text \<open>The calls of one transaction, possibly with effects outside the database after it.\<close>

fun one_transaction :: "iv_call \<Rightarrow> bool" where
  "one_transaction (CallTicket s i tok) = False"
| "one_transaction (CallQA org i q a) = False"
| "one_transaction (CallQARemaining org i) = False"
| "one_transaction c = True"

lemma clean_done: "clean m \<Longrightarrow> clean (done_with m)"
  unfolding done_with_def by (rule clean_bind_ret)

lemma clean_single:
  "clean (VerifyInterviewOrg o1 i)" "clean (StartInterview now n o1 i)" "clean (CurrentState now o1 i)"
  "clean (RecentContext o1 i)" "clean (Transcript o1 i)" "clean (EnqueueEvaluation x o1 i)"
  "clean (RecordTelemetry n o1 i e)" "clean (svc_RecordCodingSession n o1 i q)" "clean (TouchInterview n o1 i)"
  "clean (GetCandidateQA o1 i)"
  unfolding VerifyInterviewOrg_def StartInterview_def CurrentState_def RecentContext_def Transcript_def
    EnqueueEvaluation_def RecordTelemetry_def svc_RecordCodingSession_def TouchInterview_def GetCandidateQA_def
  by (intro clean_RunInTx clean_if clean_basic clean_bind_ret)+

lemmas clean_calls = clean_single clean_done clean_CreateInterview clean_RequestHuman clean_dialogue clean_answer
  clean_evaluate clean_candidate_telemetry clean_GiveConsent

lemma clean_run: "one_transaction c \<Longrightarrow> clean (iv_run x now n c)"
proof (cases c)
  case (CallConnect o1 i)
  have "clean (ComposeConnectContexts x o1 i)" unfolding ComposeConnectContexts_def
    by (intro clean_bind_pure pure_RunInTx pure_op_connect_tx clean_prod clean_basic pure_op_lift)
  then show ?thesis unfolding CallConnect iv_run.simps by (rule clean_done)
qed (simp_all add: clean_calls)

section \<open>The questions of the candidate\<close>


definition expired_row :: "time \<Rightarrow> Interview \<Rightarrow> Interview" where
  "expired_row n x = x\<lparr>iv_Status := Expired, iv_UpdatedAt := n\<rparr>"

text \<open>Nothing has changed but a running interview past its deadline, which may have been marked expired.\<close>

definition expired_only :: "time \<Rightarrow> uuid \<Rightarrow> 'm iv_tables_scheme \<Rightarrow> 'm iv_tables_scheme \<Rightarrow> bool" where
  "expired_only n key r r' \<longleftrightarrow> (\<exists>hit. (\<forall>x. hit x \<longrightarrow> iv_ID x = key \<and> iv_Status x = InProgress \<and> overdue_at n x)
     \<and> r' = t_interviews_update (map_hits hit (expired_row n)) r)"

lemma expired_only_refl: "expired_only n key r r"
proof -
  have "t_interviews_update (map_hits (\<lambda>x. False) (expired_row n)) r = r" by (simp add: map_hits_def)
  then show ?thesis unfolding expired_only_def by (intro exI [of _ "\<lambda>x. False"]) simp
qed

lemma ExpireIfDue_effect:
  assumes "iv_ExpireIfDue n key d = (Inr u, d')"
  shows "expired_only n key (tables d) (tables d')"
proof -
  obtain k where k: "update_iv key (\<lambda>x. iv_Status x = InProgress \<and> overdue_at n x) (expired_row n) d = (Inr k, d')"
    using assms unfolding iv_ExpireIfDue_def expired_row_def [abs_def] by (elim wrapped_InrE unit_of_InrE)
  show ?thesis unfolding expired_only_def
    by (intro exI [of _ "\<lambda>x. (iv_ID x = key \<and> iv_Status x = InProgress \<and> overdue_at n x) \<and> sees_iv (tenant d) (tables d) x"])
      (simp add: update_iv_effect(2) [OF k])
qed

lemma persistExpire_effect:
  fixes d :: "'m iv_state"
  assumes "\<not> in_tx d" "persistExpireIfDue now n o1 key d = (r, d')"
  shows "expired_only n key (tables d) (tables d')" "\<not> in_tx d'"
proof -
  have "expired_only n key (tables d) (tables d') \<and> \<not> in_tx d'"
  proof (cases r)
    case (Inl e)
    with assms(2) have "persistExpireIfDue now n o1 key d = (Inl e, d')" by simp
    from RunInTx_atomic [OF assms(1) this [unfolded persistExpireIfDue_def]] expired_only_refl show ?thesis by simp
  next
    case (Inr u)
    with assms(2) have "persistExpireIfDue now n o1 key d = (Inr u, d')" by simp
    with assms(1) obtain d1 d2 :: "'m iv_state" where b: "bindE (iv_GetByID key) (\<lambda>iv.
        if iv_Status (ExpireIfNeeded now iv) \<noteq> Expired then ret () else iv_ExpireIfDue n key) d1 = (Inr u, d2)"
      and t: "tables d1 = tables d" "tables d' = tables d2" "\<not> in_tx d'"
      unfolding persistExpireIfDue_def by (rule RunInTx_InrD)
    from b obtain iv d3 where g: "iv_GetByID key d1 = (Inr iv, d3)"
      and s: "(if iv_Status (ExpireIfNeeded now iv) \<noteq> Expired then ret () else iv_ExpireIfDue n key) d3 = (Inr u, d2)"
      by (rule bindE_InrE)
    from g have t3: "tables d3 = tables d1" by (rule iv_GetByID_found)
    show ?thesis
    proof (cases "iv_Status (ExpireIfNeeded now iv) \<noteq> Expired")
      case True
      with s t t3 show ?thesis by (simp add: ret_def expired_only_refl)
    next
      case False
      with s have "iv_ExpireIfDue n key d3 = (Inr u, d2)" by simp
      from ExpireIfDue_effect [OF this] t t3 show ?thesis by simp
    qed
  qed
  then show "expired_only n key (tables d) (tables d')" "\<not> in_tx d'" by blast+
qed

lemma active_effect:
  assumes "\<not> in_tx d" "activeOrError now n o1 key d = (r, d')"
  shows "expired_only n key (tables d) (tables d')" "\<not> in_tx d'"
proof -
  have read: "pure_op (RunInTx o1 (bindE (iv_GetByID key) (\<lambda>iv.
       fail_if (iv_Status iv \<noteq> InProgress) ErrInterviewNotActive)))"
    by (intro pure_RunInTx clean_intros)
  have "expired_only n key (tables d) (tables d') \<and> \<not> in_tx d'"
    using assms(2) unfolding activeOrError_def
  proof (cases rule: bindE_cases)
    case (fail e)
    from persistExpire_effect [OF assms(1) fail(1)] show ?thesis by blast
  next
    case (step u d1)
    from persistExpire_effect [OF assms(1) step(1)] pure_opD [OF read step(2)] show ?thesis by simp
  qed
  then show "expired_only n key (tables d) (tables d')" "\<not> in_tx d'" by blast+
qed

lemma active_run:
  fixes d :: "'m iv_state"
  assumes wf: "wf_iv (tables d)" and d: "\<not> in_tx d" "activeOrError now n o1 key d = (Inr u, d')"
  shows "tables d' = tables d" "\<not> in_tx d'"
proof -
  from d(2) obtain u1 d1 where p: "persistExpireIfDue now n o1 key d = (Inr u1, d1)"
    and a: "RunInTx o1 (bindE (iv_GetByID key) (\<lambda>iv. fail_if (iv_Status iv \<noteq> InProgress) ErrInterviewNotActive)) d1
       = (Inr u, d')"
    unfolding activeOrError_def by (rule bindE_InrE)
  note e = persistExpire_effect [OF d(1) p]
  from e(2) a obtain d2 d3 :: "'m iv_state" where b: "bindE (iv_GetByID key) (\<lambda>iv. fail_if (iv_Status iv \<noteq> InProgress) ErrInterviewNotActive) d2
       = (Inr u, d3)" and t: "tables d2 = tables d1" "tables d' = tables d3" "\<not> in_tx d'"
    by (rule RunInTx_InrD)
  from b obtain iv where g: "iv_GetByID key d2 = (Inr iv, d3)" and s: "iv_Status iv = InProgress"
    by (elim op_InrE) auto
  from g obtain oo i where i: "i < length (t_interviews (tables d2))" "iv_ID (t_interviews (tables d2) ! i) = key"
    "iv = hydrate oo (t_interviews (tables d2) ! i)" "tables d3 = tables d2"
    by (rule iv_GetByID_found)
  from e(1) obtain hit where h: "\<And>x. hit x \<Longrightarrow> iv_ID x = key \<and> iv_Status x = InProgress \<and> overdue_at n x"
    and t1: "tables d1 = t_interviews_update (map_hits hit (expired_row n)) (tables d)"
    unfolding expired_only_def by blast
  let ?xs = "t_interviews (tables d)"
  have xs1: "t_interviews (tables d1) = map_hits hit (expired_row n) ?xs" using t1 by simp
  have i0: "i < length ?xs" using i(1) t(1) xs1 by (simp add: map_hits_def)
  have row: "t_interviews (tables d2) ! i = (if hit (?xs ! i) then expired_row n (?xs ! i) else ?xs ! i)"
    using i0 t(1) xs1 by (simp add: map_hits_def)
  have nh: "\<not> hit (?xs ! i)" using row i(3) s by (auto simp: expired_row_def)
  have "\<not> hit x" if "x \<in> set ?xs" for x
  proof
    assume hx: "hit x"
    from that obtain j where j: "j < length ?xs" "?xs ! j = x" by (auto simp: in_set_conv_nth)
    have "iv_ID (?xs ! j) = iv_ID (?xs ! i)" using h [OF hx] j(2) row nh i(2) by simp
    moreover have "distinct (map iv_ID ?xs)" using wf by (simp add: wf_iv_def)
    ultimately have "j = i" using j(1) i0 by (metis length_map nth_eq_iff_index_eq nth_map)
    with nh j(2) hx show False by simp
  qed
  then have "map_hits hit (expired_row n) ?xs = ?xs" by (rule map_hits_none)
  then have "tables d1 = tables d" using t1 by simp
  with t i(4) show "tables d' = tables d" "\<not> in_tx d'" by simp_all
qed

lemma append_qa_run:
  assumes wf: "wf_iv (tables d)" and run: "AppendQAPairWithinLimit now n key pair limit d = (Inr True, d')"
  shows "\<exists>i. i < length (t_interviews (tables d)) \<and> iv_ID (t_interviews (tables d) ! i) = key
    \<and> iv_Status (t_interviews (tables d) ! i) = InProgress \<and> live_at n (t_interviews (tables d) ! i)
    \<and> int (length (QAPairs (t_interviews (tables d) ! i))) < limit
    \<and> t_interviews (tables d') = (t_interviews (tables d))[i := (t_interviews (tables d) ! i)
        \<lparr>QAPairs := QAPairs (t_interviews (tables d) ! i) @ [pair], iv_UpdatedAt := n\<rparr>]"
proof -
  let ?g = "\<lambda>x. iv_Status x = InProgress \<and> live_at n x \<and> int (length (QAPairs x)) < limit"
  let ?f = "\<lambda>x. x\<lparr>QAPairs := QAPairs x @ [pair], iv_UpdatedAt := n\<rparr>"
  let ?xs = "t_interviews (tables d)"
  let ?hit = "\<lambda>x. (iv_ID x = key \<and> ?g x) \<and> sees_iv (tenant d) (tables d) x"
  from run obtain k d1 where u: "update_iv key ?g ?f d = (Inr k, d1)"
    and r: "(if 0 < k then ret True
     else bindE (map_error (\<lambda>e. if e = ErrNoRows then ErrNotFound else WrapError e)
           (query_row ErrNoRows (\<lambda>t r. iv_find key t r))) (\<lambda>x.
       bindE (fail_if (iv_Status x \<noteq> InProgress) ErrQAActive) (\<lambda>_.
       bindE (fail_if (\<not> live_at now x) ErrQAActive) (\<lambda>_. ret False)))) d1 = (Inr True, d')"
    unfolding AppendQAPairWithinLimit_def by (elim bindE_InrE wrapped_InrE)
  have k: "0 < k \<and> d' = d1"
  proof (cases "0 < k")
    case True
    with r show ?thesis by (simp add: ret_def)
  next
    case False
    with r show ?thesis by (auto elim!: op_InrE)
  qed
  note e = update_iv_effect [OF u]
  have "filter ?hit ?xs \<noteq> []" using k e(3) by auto
  then obtain x where "x \<in> set ?xs" "?hit x" by (auto simp: filter_empty_conv)
  then obtain i where i: "i < length ?xs" "?hit (?xs ! i)" by (auto simp: in_set_conv_nth)
  have "map_hits ?hit ?f ?xs = ?xs[i := ?f (?xs ! i)]"
    by (rule map_hits_one [where g = iv_ID]) (use i wf in \<open>simp_all add: wf_iv_def\<close>)
  then have "t_interviews (tables d') = ?xs[i := ?f (?xs ! i)]" using k e(2) by simp
  with i show ?thesis by blast
qed

lemma candidate_qa_run:
  fixes d :: "'m iv_state"
  assumes wf: "wf_iv (tables d)" and d: "\<not> in_tx d" "RecordCandidateQA x now n org key q a d = (Inr u, d')"
  obtains orgUUID i where "x_ParseUUID x org = Inr orgUUID" "i < length (t_interviews (tables d))"
    "iv_ID (t_interviews (tables d) ! i) = key" "iv_Status (t_interviews (tables d) ! i) = InProgress"
    "live_at n (t_interviews (tables d) ! i)"
    "int (length (QAPairs (t_interviews (tables d) ! i))) < ResolveQALimit x orgUUID"
    "t_interviews (tables d') = (t_interviews (tables d))[i := (t_interviews (tables d) ! i)
        \<lparr>QAPairs := QAPairs (t_interviews (tables d) ! i) @
           [\<lparr>qa_Question = clamp_runes q MaxCandidateQuestionRunes,
             qa_Answer = clamp_runes a maxStoredQAAnswerRunes, qa_CreatedAt = now\<rparr>], iv_UpdatedAt := n\<rparr>]"
proof -
  let ?p = "\<lparr>qa_Question = clamp_runes q MaxCandidateQuestionRunes,
             qa_Answer = clamp_runes a maxStoredQAAnswerRunes, qa_CreatedAt = now\<rparr>"
  from d(2) obtain o2 where o2: "x_ParseUUID x org = Inr o2"
    by (auto simp: RecordCandidateQA_def throw_Inr split: sum.splits)
  with d(2) obtain u1 d1 where act: "activeOrError now n org key d = (Inr u1, d1)"
    and r: "RunInTx org (bindE (map_error (\<lambda>e. if err_is e ErrQAActive then ErrInterviewNotActive else e)
            (AppendQAPairWithinLimit now n key ?p (ResolveQALimit x o2))) (\<lambda>appended.
          fail_if (\<not> appended) ErrQALimitExceeded)) d1 = (Inr u, d')"
    unfolding RecordCandidateQA_def by (simp only: sum.case) (erule bindE_InrE)
  note s = active_run [OF wf d(1) act]
  from s(2) r obtain d2 d3 :: "'m iv_state" where b: "bindE (map_error (\<lambda>e. if err_is e ErrQAActive then ErrInterviewNotActive else e)
            (AppendQAPairWithinLimit now n key ?p (ResolveQALimit x o2))) (\<lambda>appended.
          fail_if (\<not> appended) ErrQALimitExceeded) d2 = (Inr u, d3)" and t: "tables d2 = tables d1" "tables d' = tables d3" "\<not> in_tx d'"
    by (rule RunInTx_InrD)
  from b have "AppendQAPairWithinLimit now n key ?p (ResolveQALimit x o2) d2 = (Inr True, d3)"
    by (elim op_InrE) simp
  moreover have "wf_iv (tables d2)" using wf s(1) t(1) by simp
  ultimately have "\<exists>i. i < length (t_interviews (tables d2)) \<and> iv_ID (t_interviews (tables d2) ! i) = key
    \<and> iv_Status (t_interviews (tables d2) ! i) = InProgress \<and> live_at n (t_interviews (tables d2) ! i)
    \<and> int (length (QAPairs (t_interviews (tables d2) ! i))) < ResolveQALimit x o2
    \<and> t_interviews (tables d3) = (t_interviews (tables d2))[i := (t_interviews (tables d2) ! i)
        \<lparr>QAPairs := QAPairs (t_interviews (tables d2) ! i) @ [?p], iv_UpdatedAt := n\<rparr>]"
    by (intro append_qa_run)
  then show ?thesis unfolding t(2) [symmetric] t(1) s(1) by (elim exE conjE) (rule that [OF o2], assumption+)
qed

text \<open>
  Property C5. The candidate's own questions stay within the organization's budget. One that is accepted was
  asked in a running interview before its deadline that had answered fewer questions than the budget; it and its
  answer are appended, each cut to the stored maximum, and nothing else of any interview changes.
\<close>

theorem RecordCandidateQA_correct:
  assumes "wf_iv (tables d)" "\<not> in_tx d" "RecordCandidateQA x now n org key q a d = (Inr u, d')"
  shows "\<exists>orgUUID i. x_ParseUUID x org = Inr orgUUID \<and> i < length (t_interviews (tables d))
    \<and> (let r = t_interviews (tables d) ! i in
       iv_ID r = key \<and> iv_Status r = InProgress \<and> live_at n r \<and> int (length (QAPairs r)) < ResolveQALimit x orgUUID
       \<and> t_interviews (tables d') = (t_interviews (tables d))[i := r\<lparr>QAPairs := QAPairs r @
           [\<lparr>qa_Question = clamp_runes q MaxCandidateQuestionRunes,
             qa_Answer = clamp_runes a maxStoredQAAnswerRunes, qa_CreatedAt = now\<rparr>], iv_UpdatedAt := n\<rparr>])"
proof -
  from assms obtain o2 i where "x_ParseUUID x org = Inr o2" "i < length (t_interviews (tables d))"
    "iv_ID (t_interviews (tables d) ! i) = key" "iv_Status (t_interviews (tables d) ! i) = InProgress"
    "live_at n (t_interviews (tables d) ! i)"
    "int (length (QAPairs (t_interviews (tables d) ! i))) < ResolveQALimit x o2"
    "t_interviews (tables d') = (t_interviews (tables d))[i := (t_interviews (tables d) ! i)
        \<lparr>QAPairs := QAPairs (t_interviews (tables d) ! i) @
           [\<lparr>qa_Question = clamp_runes q MaxCandidateQuestionRunes,
             qa_Answer = clamp_runes a maxStoredQAAnswerRunes, qa_CreatedAt = now\<rparr>], iv_UpdatedAt := n\<rparr>]"
    by (rule candidate_qa_run)
  then show ?thesis by (intro exI [of _ o2] exI [of _ i]) (simp add: Let_def)
qed

lemma RecordCandidateQA_correct_witness:
  "map (\<lambda>iv. map qa_Question (QAPairs iv)) (t_interviews (tables (snd
     (RecordCandidateQA demo_externals 20 20 ''o1'' ''iv'' ''Who?'' ''We.'' demo_iv_db)))) = [[''Who?'']]"
proof -
  let ?run = "RecordCandidateQA demo_externals 20 20 ''o1'' ''iv'' ''Who?'' ''We.'' demo_iv_db"
  have "fst ?run = Inr ()" by code_simp
  then obtain d' where r: "?run = (Inr (), d')" by (metis prod.collapse)
  have one: "length (t_interviews (tables demo_iv_db)) = 1" "QAPairs (t_interviews (tables demo_iv_db) ! 0) = []"
    by (simp_all add: demo_iv_db_def demo_iv_tables_def iv_tables.defs core_tables.defs demo_defs)
  have q: "clamp_runes ''Who?'' MaxCandidateQuestionRunes = ''Who?''" by code_simp
  from RecordCandidateQA_correct [OF demo_iv_ok r] one q r show ?thesis
    by (auto simp: Let_def length_Suc_conv)
qed

section \<open>What a failed call leaves behind\<close>

lemma after_active:
  assumes "\<not> in_tx d" "bindE (activeOrError now n o1 key) (\<lambda>_. RunInTx o1 m) d = (Inl e, d')"
  shows "expired_only n key (tables d) (tables d')"
  using assms(2)
proof (cases rule: bindE_cases)
  case (fail e)
  from active_effect [OF assms(1) fail(1)] show ?thesis by blast
next
  case (step u d1)
  note s = active_effect [OF assms(1) step(1)]
  from RunInTx_atomic(1) [OF s(2) step(2)] s(1) show ?thesis by simp
qed

lemma candidate_qa_fails:
  assumes "\<not> in_tx d" "RecordCandidateQA x now n org key q a d = (Inl e, d')"
  shows "expired_only n key (tables d) (tables d')"
proof (cases "x_ParseUUID x org")
  case (Inl e)
  with assms(2) show ?thesis by (simp add: RecordCandidateQA_def throw_def expired_only_refl)
next
  case (Inr o2)
  from assms(2) show ?thesis unfolding RecordCandidateQA_def Inr sum.case by (rule after_active [OF assms(1)])
qed

lemma qa_remaining_fails:
  assumes "\<not> in_tx d" "CandidateQARemaining x now n org key d = (Inl e, d')"
  shows "expired_only n key (tables d) (tables d')"
proof (cases "x_ParseUUID x org")
  case (Inl e)
  with assms(2) show ?thesis by (simp add: CandidateQARemaining_def throw_def expired_only_refl)
next
  case (Inr o2)
  from assms(2) show ?thesis unfolding CandidateQARemaining_def Inr sum.case by (rule after_active [OF assms(1)])
qed

text \<open>What each kind of call may have changed when it returns an error.\<close>

definition failure_frame :: "time \<Rightarrow> iv_call \<Rightarrow> 'm iv_tables_scheme \<Rightarrow> 'm iv_tables_scheme \<Rightarrow> bool" where
  "failure_frame n c r r' = (case c of
     CallTicket s i tok \<Rightarrow> map (\<lambda>iv. iv\<lparr>iv_UpdatedAt := 0\<rparr>) (t_interviews r') = map (\<lambda>iv. iv\<lparr>iv_UpdatedAt := 0\<rparr>) (t_interviews r)
   | CallQA org i q a \<Rightarrow> expired_only n i r r'
   | CallQARemaining org i \<Rightarrow> expired_only n i r r'
   | _ \<Rightarrow> r' = r)"

lemma failure_frame_one: "one_transaction c \<Longrightarrow> failure_frame n c r r"
  unfolding failure_frame_def by (cases c) simp_all

lemma done_with_Inl: "done_with m d = (Inl e, d') \<Longrightarrow> m d = (Inl e, d')"
  by (auto simp: done_with_def bindE_def ret_def split: prod.splits sum.splits)

lemma touched_only:
  assumes "u = hydrate o1 x"
  shows "(iv_columns n u x)\<lparr>iv_UpdatedAt := 0\<rparr> = x\<lparr>iv_UpdatedAt := 0\<rparr>"
  by (cases x) (simp add: assms iv_columns_def hydrate_def)

lemma ticket_tx_effect:
  fixes d :: "'m iv_state"
  assumes wf: "wf_iv (tables d)"
    and run: "bindE (MarkUsed n tok) (\<lambda>_. bindE (iv_GetByID key) (\<lambda>iv. iv_Update n iv)) d = (Inr u, d')"
  shows "map (\<lambda>iv. iv\<lparr>iv_UpdatedAt := 0\<rparr>) (t_interviews (tables d')) = map (\<lambda>iv. iv\<lparr>iv_UpdatedAt := 0\<rparr>) (t_interviews (tables d))"
proof -
  from run obtain v d1 iv d2 where m: "MarkUsed n tok d = (Inr v, d1)" and g: "iv_GetByID key d1 = (Inr iv, d2)"
    and w: "iv_Update n iv d2 = (Inr u, d')"
    by (elim bindE_InrE)
  have t1: "t_interviews (tables d1) = t_interviews (tables d)"
    using m unfolding MarkUsed_def by (elim unit_of_InrE update_rows_InrE) simp
  from g obtain oo i where x: "i < length (t_interviews (tables d1))" "iv_ID (t_interviews (tables d1) ! i) = key"
    "iv = hydrate oo (t_interviews (tables d1) ! i)" "sees_iv (tenant d1) (tables d1) (t_interviews (tables d1) ! i)"
    "tables d2 = tables d1" "ran d1 d2"
    by (rule iv_GetByID_found)
  let ?xs = "t_interviews (tables d)"
  have "t_interviews (tables d') = (t_interviews (tables d2))[i := iv_columns n iv (t_interviews (tables d2) ! i)]"
    by (rule iv_Update_row(1) [OF w]) (use x t1 wf ranD(3) [OF x(6)] in \<open>simp_all add: wf_iv_def\<close>)
  then have "t_interviews (tables d') = ?xs[i := iv_columns n iv (?xs ! i)]" using x(5) t1 by simp
  moreover have "(iv_columns n iv (?xs ! i))\<lparr>iv_UpdatedAt := 0\<rparr> = (?xs ! i)\<lparr>iv_UpdatedAt := 0\<rparr>"
    by (rule touched_only) (use x(3) t1 in simp)
  ultimately show ?thesis using x(1) t1 by (simp add: map_update list_update_same_conv)
qed

lemma ticket_fails:
  fixes d :: "'m iv_state"
  assumes wf: "wf_iv (tables d)" "\<not> in_tx d" and run: "IssueTicket x now n s key tok d = (Inl e, d')"
  shows "map (\<lambda>iv. iv\<lparr>iv_UpdatedAt := 0\<rparr>) (t_interviews (tables d')) = map (\<lambda>iv. iv\<lparr>iv_UpdatedAt := 0\<rparr>) (t_interviews (tables d))"
  using run unfolding IssueTicket_def
proof (cases rule: bindE_cases)
  case (fail e1)
  from pure_opD [OF pure_op_Validate fail(1)] show ?thesis by simp
next
  case (step v d1)
  note v = pure_opD [OF pure_op_Validate step(1)]
  from step(2) show ?thesis
  proof (cases rule: bindE_cases)
    case (fail e1)
    then have "d' = d1" by (simp add: lift_def)
    with v show ?thesis by simp
  next
    case (step inv d2)
    then have d2: "d2 = d1" by (simp add: lift_def)
    with v wf have w: "wf_iv (tables d2)" "\<not> in_tx d2" by simp_all
    from step(2) show ?thesis
    proof (cases rule: bindE_cases)
      case (fail e1)
      from RunInTx_atomic(1) [OF w(2) fail(1)] v d2 show ?thesis by simp
    next
      case (step u d3)
      from w(2) step(1) obtain d4 d5 :: "'m iv_state" where
        b: "bindE (MarkUsed n tok) (\<lambda>_. bindE (iv_GetByID key) (\<lambda>iv. iv_Update n iv)) d4 = (Inr u, d5)"
        and t: "tables d4 = tables d2" "tables d3 = tables d5"
        by (rule RunInTx_InrD)
      have "wf_iv (tables d4)" using w(1) t(1) by simp
      note ef = ticket_tx_effect [OF this b]
      have "d' = d3" using step(2) by (auto simp: bindE_def lift_def ret_def split: sum.splits prod.splits)
      with ef t v d2 show ?thesis by simp
    qed
  qed
qed

text \<open>
  Property C4. A call of the interview service that returns an error has changed nothing, whatever failed and
  wherever in the call, with three documented exceptions: a ticket whose signing fails after the invitation was
  consumed has touched no more of an interview than its time of update, and a candidate's question that is
  refused, or the query for how many are left, may have marked an interview past its deadline as expired.
\<close>

theorem failed_interview_call:
  assumes "wf_iv (tables d)" "\<not> in_tx d" "iv_run x now n c d = (Inl e, d')"
  shows "failure_frame n c (tables d) (tables d')"
proof (cases "one_transaction c")
  case True
  from cleanD [OF clean_run [OF True] assms(2,3)] failure_frame_one [OF True] show ?thesis by simp
next
  case False
  then show ?thesis
  proof (cases c rule: one_transaction.cases)
    case (1 s i tok)
    from assms(3) have "IssueTicket x now n s i tok d = (Inl e, d')"
      unfolding 1 iv_run.simps by (rule done_with_Inl)
    from ticket_fails [OF assms(1,2) this] show ?thesis unfolding 1 failure_frame_def iv_call.case .
  next
    case (2 org i q a)
    from assms(3) have "RecordCandidateQA x now n org i q a d = (Inl e, d')" unfolding 2 iv_run.simps .
    from candidate_qa_fails [OF assms(2) this] show ?thesis unfolding 2 failure_frame_def iv_call.case .
  next
    case (3 org i)
    from assms(3) have "CandidateQARemaining x now n org i d = (Inl e, d')"
      unfolding 3 iv_run.simps by (rule done_with_Inl)
    from qa_remaining_fails [OF assms(2) this] show ?thesis unfolding 3 failure_frame_def iv_call.case .
  qed (simp_all only: one_transaction.simps not_True_eq_False)
qed

text \<open>The statement that stores the turn is refused: the answer, its probe and the completion are gone with it.\<close>

lemma failed_interview_call_witness:
  "tables (snd (iv_run demo_externals 20 20 (CallAnswer ''o1'' ''iv'' ''because'')
     (demo_iv_db\<lparr>faults := [None, None, None, Some ErrNoTx]\<rparr>))) = demo_iv_tables"
proof -
  let ?d = "demo_iv_db\<lparr>faults := [None, None, None, Some ErrNoTx]\<rparr>"
  let ?run = "iv_run demo_externals 20 20 (CallAnswer ''o1'' ''iv'' ''because'') ?d"
  have "isl (fst ?run)" by code_simp
  then obtain e d' where r: "?run = (Inl e, d')" by (metis prod.collapse isl_def)
  have "wf_iv (tables ?d)" "\<not> in_tx ?d" using demo_iv_ok by simp_all
  from failed_interview_call [OF this r] r show ?thesis by (simp add: failure_frame_def demo_iv_db_def)
qed

end
