(* ===== verification/Session_Registry.thy ===== *)
theory Session_Registry
  imports Shared Float64
begin

text \<open>
  The registry that admits one live WebSocket connection per interview:
  \<open>src/backend/internal/interview/api/session_registry.go\<close>, in memory and in Redis, and the way the chat handler
  uses it (\<open>TryAcquire\<close> before the first frame, \<open>Touch\<close> with every heartbeat, a deferred \<open>Release\<close>).

  \<open>session_lock\<close> is the interface: both registries interpret it, and the exclusion of a second connection is
  proved once, for any registry that keeps its laws. A Redis key is a value with a time at which it lapses; the
  three Lua scripts run atomically. Whether the reply of a script arrives is up to the network: \<open>delivery\<close> says.
\<close>

section \<open>The registries\<close>

type_synonym memory_registry = "string \<rightharpoonup> string"

definition mem_TryAcquire :: "string \<Rightarrow> string \<Rightarrow> memory_registry \<Rightarrow> bool \<times> memory_registry" where
  "mem_TryAcquire key sessionID m = (case m key of
     Some holder \<Rightarrow> (sessionID \<noteq> [] \<and> holder = sessionID, m)
   | None \<Rightarrow> (True, m(key \<mapsto> sessionID)))"

definition mem_Release :: "string \<Rightarrow> string \<Rightarrow> memory_registry \<Rightarrow> memory_registry" where
  "mem_Release key sessionID m = (case m key of
     Some holder \<Rightarrow> if sessionID = [] \<or> holder = sessionID then m(key := None) else m
   | None \<Rightarrow> m)"

definition mem_Touch :: "string \<Rightarrow> string \<Rightarrow> memory_registry \<Rightarrow> memory_registry" where
  "mem_Touch key sessionID m = m"

type_synonym redis = "string \<rightharpoonup> string \<times> time"

definition redis_get :: "time \<Rightarrow> redis \<Rightarrow> string \<Rightarrow> string option" where
  "redis_get now m k = (case m k of None \<Rightarrow> None | Some (v, e) \<Rightarrow> if now < e then Some v else None)"

definition activeSessionPlaceholder :: string where "activeSessionPlaceholder = ''active''"
definition redisSessionPrefix :: string where "redisSessionPrefix = ''intivai:session:''"

definition acquireLua :: "time \<Rightarrow> string \<Rightarrow> string \<Rightarrow> duration \<Rightarrow> redis \<Rightarrow> int \<times> redis" where
  "acquireLua now k v ttl m = (case redis_get now m k of
     None \<Rightarrow> (1, m(k \<mapsto> (v, now + ttl)))
   | Some holder \<Rightarrow> if holder = v then (1, m(k \<mapsto> (holder, now + ttl))) else (0, m))"

definition touchLua :: "time \<Rightarrow> string \<Rightarrow> string \<Rightarrow> duration \<Rightarrow> redis \<Rightarrow> redis" where
  "touchLua now k v ttl m = (if redis_get now m k = Some v then m(k \<mapsto> (v, now + ttl)) else m)"

definition releaseLua :: "time \<Rightarrow> string \<Rightarrow> string \<Rightarrow> redis \<Rightarrow> redis" where
  "releaseLua now k v m = (if redis_get now m k = Some v then m(k := None) else m)"

text \<open>A call over the network: it is answered, or it fails before or after the script has run.\<close>

datatype delivery = Answered | NotSent error | ReplyLost error

definition over :: "delivery \<Rightarrow> 'a \<times> redis \<Rightarrow> redis \<Rightarrow> 'a result \<times> redis" where
  "over l run m = (case l of Answered \<Rightarrow> (Inr (fst run), snd run) | NotSent e \<Rightarrow> (Inl e, m) | ReplyLost e \<Rightarrow> (Inl e, snd run))"

record RedisSessionRegistry =
  rr_client :: bool
  rr_ttl :: duration

definition NewRedisSessionRegistry :: "bool \<Rightarrow> duration \<Rightarrow> RedisSessionRegistry" where
  "NewRedisSessionRegistry client ttl = \<lparr>rr_client = client, rr_ttl = (if ttl \<le> 0 then 30 * minute else ttl)\<rparr>"

text \<open>\<open>ttl.Milliseconds()\<close>, the unit of \<open>PX\<close> and \<open>pexpire\<close>, on the nanosecond scale.\<close>

definition milliseconds :: "duration \<Rightarrow> duration" where
  "milliseconds d = go_quot d 1000000 * 1000000"

definition redis_TryAcquire ::
  "RedisSessionRegistry \<Rightarrow> delivery \<Rightarrow> time \<Rightarrow> string \<Rightarrow> string \<Rightarrow> redis \<Rightarrow> bool result \<times> redis" where
  "redis_TryAcquire r l now key sessionID m = (if \<not> rr_client r then (Inr True, m)
     else (let v = (if sessionID = [] then activeSessionPlaceholder else sessionID) in
       case over l (acquireLua now (redisSessionPrefix @ key) v (milliseconds (rr_ttl r)) m) m of
         (Inl e, m') \<Rightarrow> (Inl e, m')
       | (Inr n, m') \<Rightarrow> (Inr (n = 1), m')))"

definition redis_Touch :: "RedisSessionRegistry \<Rightarrow> delivery \<Rightarrow> time \<Rightarrow> string \<Rightarrow> string \<Rightarrow> redis \<Rightarrow> unit result \<times> redis" where
  "redis_Touch r l now key sessionID m = (if \<not> rr_client r \<or> sessionID = [] then (Inr (), m)
     else over l ((), touchLua now (redisSessionPrefix @ key) sessionID (milliseconds (rr_ttl r)) m) m)"

definition redis_Release :: "RedisSessionRegistry \<Rightarrow> delivery \<Rightarrow> time \<Rightarrow> string \<Rightarrow> string \<Rightarrow> redis \<Rightarrow> unit result \<times> redis" where
  "redis_Release r l now key sessionID m = (if \<not> rr_client r then (Inr (), m)
     else if sessionID = [] then over l ((), m(redisSessionPrefix @ key := None)) m
     else over l ((), releaseLua now (redisSessionPrefix @ key) sessionID m) m)"

section \<open>The connections\<close>

text \<open>
  What the chat handler does with a registry. A connection is refused unless \<open>TryAcquire\<close> answers and answers
  yes. The registry operations come with the delivery each call meets.
\<close>

datatype conn_event = Connect string string | Heartbeat string string | Disconnect string string

record 'r chat =
  registry :: 'r
  conns :: "(string \<times> string \<times> time) list" \<comment> \<open>interview, session, time of the last refresh\<close>

type_synonym 'r acquire_op = "delivery \<Rightarrow> time \<Rightarrow> string \<Rightarrow> string \<Rightarrow> 'r \<Rightarrow> bool result \<times> 'r"
type_synonym 'r lock_op = "delivery \<Rightarrow> time \<Rightarrow> string \<Rightarrow> string \<Rightarrow> 'r \<Rightarrow> unit result \<times> 'r"

fun chat_step :: "'r acquire_op \<Rightarrow> 'r lock_op \<Rightarrow> 'r lock_op \<Rightarrow> delivery \<Rightarrow> time \<Rightarrow> conn_event \<Rightarrow> 'r chat \<Rightarrow> 'r chat" where
  "chat_step acq tch rel l t (Connect key sid) c = (case acq l t key sid (registry c) of
     (Inr True, r) \<Rightarrow> c\<lparr>registry := r, conns := (key, sid, t) # conns c\<rparr>
   | (_, r) \<Rightarrow> c\<lparr>registry := r\<rparr>)"
| "chat_step acq tch rel l t (Heartbeat key sid) c = (case tch l t key sid (registry c) of
     (Inr u, r) \<Rightarrow> c\<lparr>registry := r, conns := map (\<lambda>(k, s, t0). if k = key \<and> s = sid then (k, s, t) else (k, s, t0)) (conns c)\<rparr>
   | (Inl e, r) \<Rightarrow> c\<lparr>registry := r\<rparr>)"
| "chat_step acq tch rel l t (Disconnect key sid) c =
     c\<lparr>registry := snd (rel l t key sid (registry c)), conns := filter (\<lambda>(k, s, t0). \<not> (k = key \<and> s = sid)) (conns c)\<rparr>"

fun chat_run :: "'r acquire_op \<Rightarrow> 'r lock_op \<Rightarrow> 'r lock_op \<Rightarrow> (delivery \<times> time \<times> conn_event) list \<Rightarrow> 'r chat \<Rightarrow> 'r chat" where
  "chat_run acq tch rel [] c = c"
| "chat_run acq tch rel ((l, t, e) # es) c = chat_run acq tch rel es (chat_step acq tch rel l t e c)"

text \<open>
  The histories the exclusion is claimed for: the clock does not go back, a session identity is used by one
  connection at a time and is no reserved word, only live connections send heartbeats or disconnect, and the
  lease of a live connection has not lapsed since its last refresh.
\<close>

definition admissible_event :: "(string \<Rightarrow> bool) \<Rightarrow> conn_event \<Rightarrow> 'r chat \<Rightarrow> bool" where
  "admissible_event valid e c = (case e of
     Connect key sid \<Rightarrow> valid sid \<and> \<not> list_ex (\<lambda>(k, s, t0). k = key \<and> s = sid) (conns c)
   | Heartbeat key sid \<Rightarrow> list_ex (\<lambda>(k, s, t0). k = key \<and> s = sid) (conns c)
   | Disconnect key sid \<Rightarrow> list_ex (\<lambda>(k, s, t0). k = key \<and> s = sid) (conns c))"

fun admissible_run :: "(string \<Rightarrow> bool) \<Rightarrow> (time \<Rightarrow> time \<Rightarrow> bool) \<Rightarrow> 'r acquire_op \<Rightarrow> 'r lock_op \<Rightarrow> 'r lock_op \<Rightarrow> time
    \<Rightarrow> (delivery \<times> time \<times> conn_event) list \<Rightarrow> 'r chat \<Rightarrow> bool" where
  "admissible_run valid lease acq tch rel now [] c = True"
| "admissible_run valid lease acq tch rel now ((l, t, e) # es) c = (now \<le> t \<and> list_all (\<lambda>(k, s, t0). lease t0 t) (conns c)
     \<and> admissible_event valid e c
     \<and> admissible_run valid lease acq tch rel t es (chat_step acq tch rel l t e c))"

section \<open>The interface\<close>

text \<open>\<open>holder t r k\<close>: the session that holds the lock of \<open>k\<close> at time \<open>t\<close> if no operation intervenes.\<close>

locale session_lock =
  fixes acq :: "'r acquire_op"
    and tch rel :: "'r lock_op"
    and holder :: "time \<Rightarrow> 'r \<Rightarrow> string \<Rightarrow> string option"
    and lease :: "time \<Rightarrow> time \<Rightarrow> bool"
    and valid :: "string \<Rightarrow> bool"
  assumes acquire_only_free: "valid sid \<Longrightarrow> acq l t k sid r = (Inr True, r') \<Longrightarrow> holder t r k = None \<or> holder t r k = Some sid"
    and acquire_holds: "valid sid \<Longrightarrow> acq l t k sid r = (Inr True, r') \<Longrightarrow> lease t t' \<Longrightarrow> holder t' r' k = Some sid"
    and touch_holds: "valid sid \<Longrightarrow> tch l t k sid r = (Inr u, r') \<Longrightarrow> holder t r k = Some sid \<Longrightarrow> lease t t' \<Longrightarrow>
       holder t' r' k = Some sid"
    and kept: "valid sid \<Longrightarrow> (k, sid) \<noteq> (k', s) \<Longrightarrow> holder t r k' = Some s \<Longrightarrow> holder t' r k' = Some s \<Longrightarrow>
       r' = snd (acq l t k sid r) \<or> r' = snd (tch l t k sid r) \<or> r' = snd (rel l t k sid r) \<Longrightarrow> holder t' r' k' = Some s"
    and touch_keeps: "valid sid \<Longrightarrow> t0 \<le> t \<Longrightarrow> lease t0 t' \<Longrightarrow> holder t r k = Some sid \<Longrightarrow> holder t' r k = Some sid \<Longrightarrow> holder t' (snd (tch l t k sid r)) k = Some sid"
    and lease_past: "lease t0 t' \<Longrightarrow> t \<le> t' \<Longrightarrow> lease t0 t"
begin

text \<open>Every live connection holds its lock as long as its lease runs.\<close>

definition locked :: "time \<Rightarrow> 'r chat \<Rightarrow> bool" where
  "locked now c \<longleftrightarrow> distinct (map (\<lambda>(k, s, t0). (k, s)) (conns c)) \<and> (\<forall>(k, s, t0) \<in> set (conns c). valid s \<and> t0 \<le> now \<and>
     (\<forall>t. now \<le> t \<longrightarrow> lease t0 t \<longrightarrow> holder t (registry c) k = Some s))"

lemma lockedD: "locked now c \<Longrightarrow> (k, s, t0) \<in> set (conns c) \<Longrightarrow> valid s \<and> t0 \<le> now \<and> (now \<le> t \<longrightarrow> lease t0 t \<longrightarrow> holder t (registry c) k = Some s)"
  unfolding locked_def by blast

lemma lockedI:
  assumes "distinct (map (\<lambda>(k, s, t0). (k, s)) (conns c))"
    and "\<And>k s t0. (k, s, t0) \<in> set (conns c) \<Longrightarrow> valid s \<and> t0 \<le> now"
    and "\<And>k s t0 t. (k, s, t0) \<in> set (conns c) \<Longrightarrow> now \<le> t \<Longrightarrow> lease t0 t \<Longrightarrow> holder t (registry c) k = Some s"
  shows "locked now c"
  unfolding locked_def using assms by blast

lemma locked_distinct: "locked now c \<Longrightarrow> distinct (map (\<lambda>(k, s, t0). (k, s)) (conns c))"
  by (simp add: locked_def)

text \<open>At a time at which every lease runs, an interview has at most one live connection.\<close>

lemma locked_exclusive:
  assumes "locked now c" "now \<le> t" "list_all (\<lambda>(k, s, t0). lease t0 t) (conns c)"
  shows "distinct (map fst (conns c))"
proof -
  have same: "s = s'" if "(k, s, t0) \<in> set (conns c)" "(k, s', t0') \<in> set (conns c)" for k s t0 s' t0'
  proof -
    have "lease t0 t" "lease t0' t" using assms(3) that by (auto simp: list_all_iff)
    with lockedD [OF assms(1) that(1), of t] lockedD [OF assms(1) that(2), of t] assms(2)
    have "holder t (registry c) k = Some s" "holder t (registry c) k = Some s'" by blast+
    then show ?thesis by simp
  qed
  have "inj_on fst (set (map (\<lambda>(k, s, t0). (k, s)) (conns c)))"
    using same by (fastforce simp: inj_on_def)
  then have "distinct (map fst (map (\<lambda>(k, s, t0). (k, s)) (conns c)))"
    using locked_distinct [OF assms(1)] by (simp only: distinct_map)
  moreover have "map fst (map (\<lambda>(k, s, t0). (k, s)) (conns c)) = map fst (conns c)" by auto
  ultimately show ?thesis by (simp only:)
qed

lemma step_locked:
  assumes l: "locked now c" and t: "now \<le> t" "list_all (\<lambda>(k, s, t0). lease t0 t) (conns c)" and a: "admissible_event valid e c"
  shows "locked t (chat_step acq tch rel l t e c)"
proof -
  have on: "holder t (registry c) k = Some s" "valid s" "t0 \<le> t"
    and later: "\<And>t'. t \<le> t' \<Longrightarrow> lease t0 t' \<Longrightarrow> holder t' (registry c) k = Some s"
    if "(k, s, t0) \<in> set (conns c)" for k s t0
  proof -
    have "lease t0 t" using t(2) that by (auto simp: list_all_iff)
    with lockedD [OF l that, of t] t(1) show "holder t (registry c) k = Some s" "valid s" "t0 \<le> t" by auto
    show "\<And>t'. t \<le> t' \<Longrightarrow> lease t0 t' \<Longrightarrow> holder t' (registry c) k = Some s"
      using lockedD [OF l that] t(1) by (meson order.trans)
  qed
  note d = locked_distinct [OF l]
  show ?thesis
  proof (cases e)
    case (Connect key sid)
    with a have v: "valid sid" and fresh: "\<And>t0. (key, sid, t0) \<notin> set (conns c)"
      by (auto simp: admissible_event_def list_ex_iff)
    obtain res r where r: "acq l t key sid (registry c) = (res, r)" by fastforce
    have k: "holder t' r k = Some s" if "(k, s, t0) \<in> set (conns c)" "t \<le> t'" "lease t0 t'" for k s t0 t'
    proof (rule kept [where l = l, OF v _ on(1) [OF that(1)] later [OF that]])
      show "(key, sid) \<noteq> (k, s)" using fresh that(1) by blast
    qed (simp add: r)
    show ?thesis
    proof (cases "res = Inr True")
      case True
      then have c': "chat_step acq tch rel l t e c = c\<lparr>registry := r, conns := (key, sid, t) # conns c\<rparr>"
        using Connect r by simp
      show ?thesis unfolding c'
      proof (rule lockedI)
        show "distinct (map (\<lambda>(k, s, t0). (k, s)) (conns (c\<lparr>registry := r, conns := (key, sid, t) # conns c\<rparr>)))"
          using d fresh by auto
      next
        fix k s t0 assume "(k, s, t0) \<in> set (conns (c\<lparr>registry := r, conns := (key, sid, t) # conns c\<rparr>))"
        with v on(2,3) show "valid s \<and> t0 \<le> t" by auto
      next
        fix k s t0 t'
        assume "(k, s, t0) \<in> set (conns (c\<lparr>registry := r, conns := (key, sid, t) # conns c\<rparr>))" "t \<le> t'" "lease t0 t'"
        with k acquire_holds [OF v, of l t key "registry c" r t'] r True
        show "holder t' (registry (c\<lparr>registry := r, conns := (key, sid, t) # conns c\<rparr>)) k = Some s" by auto
      qed
    next
      case False
      then have c': "chat_step acq tch rel l t e c = c\<lparr>registry := r\<rparr>"
        using Connect r by (auto split: sum.splits bool.splits)
      show ?thesis unfolding c' by (rule lockedI) (use d k on(2,3) in simp_all)
    qed
  next
    case (Heartbeat key sid)
    with a obtain h where h: "(key, sid, h) \<in> set (conns c)" by (auto simp: admissible_event_def list_ex_iff)
    obtain res r where r: "tch l t key sid (registry c) = (res, r)" by fastforce
    have k: "holder t' r k = Some s" if "(k, s, t0) \<in> set (conns c)" "t \<le> t'" "lease t0 t'" for k s t0 t'
    proof (cases "(key, sid) = (k, s)")
      case True
      with touch_keeps [OF on(2) [OF h] on(3) [OF that(1)] that(3) on(1) [OF h], of l] later [OF that] r show ?thesis by auto
    next
      case False
      show ?thesis by (rule kept [where l = l, OF on(2) [OF h] False on(1) [OF that(1)] later [OF that]]) (simp add: r)
    qed
    show ?thesis
    proof (cases res)
      case (Inl err)
      then have c': "chat_step acq tch rel l t e c = c\<lparr>registry := r\<rparr>" using Heartbeat r by simp
      show ?thesis unfolding c' by (rule lockedI) (use d k on(2,3) in simp_all)
    next
      case (Inr u)
      let ?f = "\<lambda>(k, s, t0). if k = key \<and> s = sid then (k, s, t) else (k, s, t0)"
      from Inr have c': "chat_step acq tch rel l t e c = c\<lparr>registry := r, conns := map ?f (conns c)\<rparr>"
        using Heartbeat r by simp
      have keys: "map (\<lambda>(k, s, t0). (k, s)) (map ?f (conns c)) = map (\<lambda>(k, s, t0). (k, s)) (conns c)" by auto
      show ?thesis unfolding c'
      proof (rule lockedI)
        have "conns (c\<lparr>registry := r, conns := map ?f (conns c)\<rparr>) = map ?f (conns c)" by simp
        then show "distinct (map (\<lambda>(k, s, t0). (k, s)) (conns (c\<lparr>registry := r, conns := map ?f (conns c)\<rparr>)))"
          by (simp only: keys d)
      next
        fix k s t0 assume "(k, s, t0) \<in> set (conns (c\<lparr>registry := r, conns := map ?f (conns c)\<rparr>))"
        then obtain t1 where "(k, s, t1) \<in> set (conns c)" "t0 = t1 \<or> t0 = t" by (auto split: if_splits)
        with on(2,3) show "valid s \<and> t0 \<le> t" by blast
      next
        fix k s t0 t'
        assume m: "(k, s, t0) \<in> set (conns (c\<lparr>registry := r, conns := map ?f (conns c)\<rparr>))" "t \<le> t'" "lease t0 t'"
        show "holder t' (registry (c\<lparr>registry := r, conns := map ?f (conns c)\<rparr>)) k = Some s"
        proof (cases "k = key \<and> s = sid")
          case True
          with m have "lease t t'" by (auto split: if_splits)
          with touch_holds [OF on(2) [OF h], of l t key "registry c" u r t'] on(1) [OF h] r Inr True show ?thesis by simp
        next
          case False
          with m(1) have "(k, s, t0) \<in> set (conns c)" by (auto split: if_splits)
          with k m(2,3) show ?thesis by simp
        qed
      qed
    qed
  next
    case (Disconnect key sid)
    with a obtain h where h: "(key, sid, h) \<in> set (conns c)" by (auto simp: admissible_event_def list_ex_iff)
    let ?r = "snd (rel l t key sid (registry c))"
    let ?c = "c\<lparr>registry := ?r, conns := filter (\<lambda>(k, s, t0). \<not> (k = key \<and> s = sid)) (conns c)\<rparr>"
    have c': "chat_step acq tch rel l t e c = ?c" using Disconnect by simp
    show ?thesis unfolding c'
    proof (rule lockedI)
      show "distinct (map (\<lambda>(k, s, t0). (k, s)) (conns ?c))" using d by (simp add: distinct_map_filter)
    next
      fix k s t0 assume "(k, s, t0) \<in> set (conns ?c)"
      with on(2,3) show "valid s \<and> t0 \<le> t" by auto
    next
      fix k s t0 t' assume m: "(k, s, t0) \<in> set (conns ?c)" "t \<le> t'" "lease t0 t'"
      then have i: "(k, s, t0) \<in> set (conns c)" and ne: "(key, sid) \<noteq> (k, s)" by auto
      show "holder t' (registry ?c) k = Some s"
        by (simp, rule kept [where l = l, OF on(2) [OF h] ne on(1) [OF i] later [OF i m(2,3)]]) simp
    qed
  qed
qed

lemma run_locked:
  "locked now c \<Longrightarrow> admissible_run valid lease acq tch rel now es c \<Longrightarrow>
   \<exists>t. locked t (chat_run acq tch rel es c) \<and> now \<le> t \<and> (es \<noteq> [] \<longrightarrow> t = fst (snd (last es)))"
proof (induction es arbitrary: now c)
  case Nil
  then show ?case by auto
next
  case (Cons x es)
  obtain l t e where x: "x = (l, t, e)" by (cases x)
  from Cons.prems x have a: "now \<le> t" "list_all (\<lambda>(k, s, t0). lease t0 t) (conns c)" "admissible_event valid e c"
    "admissible_run valid lease acq tch rel t es (chat_step acq tch rel l t e c)" by simp_all
  from Cons.IH [OF step_locked [OF Cons.prems(1) a(1-3)] a(4)] obtain t' where
    "locked t' (chat_run acq tch rel es (chat_step acq tch rel l t e c))" "t \<le> t'" "es \<noteq> [] \<longrightarrow> t' = fst (snd (last es))" by blast
  moreover have "es = [] \<Longrightarrow> \<exists>t''. locked t'' (chat_run acq tch rel [x] c) \<and> t'' = t"
    using step_locked [OF Cons.prems(1) a(1-3)] x by simp
  ultimately show ?case using a(1) x by (cases "es = []") auto
qed

lemma exclusive:
  assumes "conns c = []" "admissible_run valid lease acq tch rel now es c" "es \<noteq> [] \<longrightarrow> fst (snd (last es)) \<le> t" "now \<le> t"
    "list_all (\<lambda>(k, s, t0). lease t0 t) (conns (chat_run acq tch rel es c))"
  shows "distinct (map fst (conns (chat_run acq tch rel es c)))"
proof (cases "es = []")
  case True
  with assms(1) show ?thesis by simp
next
  case False
  have "locked now c" by (rule lockedI) (simp_all add: assms(1))
  from run_locked [OF this assms(2)] False obtain t0 where "locked t0 (chat_run acq tch rel es c)" "t0 = fst (snd (last es))"
    by blast
  with locked_exclusive [of t0 _ t] assms(3,5) False show ?thesis by simp
qed

end

section \<open>The interface is kept\<close>

definition mem_acquire :: "memory_registry acquire_op" where
  "mem_acquire l t key sid m = (case mem_TryAcquire key sid m of (b, m') \<Rightarrow> (Inr b, m'))"

definition mem_touch :: "memory_registry lock_op" where "mem_touch l t key sid m = (Inr (), mem_Touch key sid m)"
definition mem_release :: "memory_registry lock_op" where "mem_release l t key sid m = (Inr (), mem_Release key sid m)"

interpretation mem_lock: session_lock mem_acquire mem_touch mem_release "\<lambda>t m k. m k" "\<lambda>t0 t. True" "\<lambda>sid. sid \<noteq> []"
  by unfold_locales
    (auto simp: mem_acquire_def mem_touch_def mem_release_def mem_TryAcquire_def mem_Touch_def mem_Release_def
      split: option.splits if_splits)

definition redis_lease :: "duration \<Rightarrow> time \<Rightarrow> time \<Rightarrow> bool" where
  "redis_lease ttl t0 t \<longleftrightarrow> t < t0 + milliseconds (rr_ttl (NewRedisSessionRegistry True ttl))"

definition redis_holder :: "time \<Rightarrow> redis \<Rightarrow> string \<Rightarrow> string option" where
  "redis_holder t m k = redis_get t m (redisSessionPrefix @ k)"

lemma redis_client [simp]: "rr_client (NewRedisSessionRegistry b ttl) = b"
  by (simp add: NewRedisSessionRegistry_def)

lemmas redis_lua = acquireLua_def touchLua_def releaseLua_def redis_get_def over_def redis_holder_def redis_lease_def

interpretation redis_lock: session_lock "redis_TryAcquire (NewRedisSessionRegistry True ttl)"
    "redis_Touch (NewRedisSessionRegistry True ttl)" "redis_Release (NewRedisSessionRegistry True ttl)"
    redis_holder "redis_lease ttl" "\<lambda>sid. sid \<noteq> []"
  for ttl :: duration
  by unfold_locales
    (auto simp: redis_TryAcquire_def redis_Touch_def redis_Release_def redis_lua Let_def
      split: option.splits if_splits delivery.splits sum.splits prod.splits)

section \<open>Properties\<close>

definition redis_run :: "duration \<Rightarrow> (delivery \<times> time \<times> conn_event) list \<Rightarrow> redis chat \<Rightarrow> redis chat" where
  "redis_run ttl = chat_run (redis_TryAcquire (NewRedisSessionRegistry True ttl))
     (redis_Touch (NewRedisSessionRegistry True ttl)) (redis_Release (NewRedisSessionRegistry True ttl))"

definition redis_admissible :: "duration \<Rightarrow> time \<Rightarrow> (delivery \<times> time \<times> conn_event) list \<Rightarrow> redis chat \<Rightarrow> bool" where
  "redis_admissible ttl = admissible_run (\<lambda>sid. sid \<noteq> []) (redis_lease ttl)
     (redis_TryAcquire (NewRedisSessionRegistry True ttl)) (redis_Touch (NewRedisSessionRegistry True ttl))
     (redis_Release (NewRedisSessionRegistry True ttl))"

text \<open>
  Property C19. An interview has at most one live connection, whatever connects, sends heartbeats and disconnects
  in whatever order and whichever calls to Redis fail, before or after they took effect: as long as no session
  identity is used by two connections at once and every live connection has refreshed its lock within its
  lifetime, no two of the live connections are of the same interview.
\<close>

theorem one_connection_per_interview:
  assumes "conns c = []" "redis_admissible ttl now es c"
    and "now \<le> t" "es \<noteq> [] \<longrightarrow> fst (snd (last es)) \<le> t"
    and "list_all (\<lambda>(k, s, t0). redis_lease ttl t0 t) (conns (redis_run ttl es c))"
  shows "distinct (map fst (conns (redis_run ttl es c)))"
  using assms unfolding redis_run_def redis_admissible_def by (intro redis_lock.exclusive [of c ttl now es t])

definition demo_connects :: "(delivery \<times> time \<times> conn_event) list" where
  "demo_connects = [(Answered, 0, Connect ''iv'' ''s1''), (Answered, 10, Connect ''iv'' ''s2''),
     (ReplyLost ErrNoTx, 20, Heartbeat ''iv'' ''s1''), (Answered, 30, Connect ''iv2'' ''s2'')]"

lemma one_connection_per_interview_witness:
  "map (\<lambda>(k, s, t). (k, s)) (conns (redis_run minute demo_connects \<lparr>registry = Map.empty, conns = []\<rparr>))
     = [(''iv2'', ''s2''), (''iv'', ''s1'')]
   \<and> distinct (map fst (conns (redis_run minute demo_connects \<lparr>registry = Map.empty, conns = []\<rparr>)))"
proof -
  let ?c = "\<lparr>registry = Map.empty, conns = []\<rparr> :: redis chat"
  have a: "redis_admissible minute 0 demo_connects ?c" by code_simp
  have m: "map (\<lambda>(k, s, t). (k, s)) (conns (redis_run minute demo_connects ?c)) = [(''iv2'', ''s2''), (''iv'', ''s1'')]"
    by code_simp
  have l: "list_all (\<lambda>(k, s, t0). redis_lease minute t0 40) (conns (redis_run minute demo_connects ?c))" by code_simp
  have "fst (snd (last demo_connects)) \<le> 40" by (simp add: demo_connects_def)
  with one_connection_per_interview [of ?c minute 0 demo_connects 40] a l m show ?thesis by simp
qed

text \<open>
  The in-memory registry keeps the same promise, without leases. The condition on session identities is needed:
  a second connection with the ticket of the first is admitted as a reconnect, and when the first one goes away
  its release drops the lock of the second.
\<close>

lemma one_memory_connection:
  assumes "conns c = []" "admissible_run (\<lambda>sid. sid \<noteq> []) (\<lambda>t0 t. True) mem_acquire mem_touch mem_release now es c"
  shows "distinct (map fst (conns (chat_run mem_acquire mem_touch mem_release es c)))"
proof -
  have "list_all (\<lambda>(k, s, t0). True) (conns (chat_run mem_acquire mem_touch mem_release es c))"
    by (simp add: list_all_iff split_beta)
  then show ?thesis
    by (intro mem_lock.exclusive [OF assms, of "max now (fst (snd (last es)))"]) simp_all
qed

lemma reconnect_loses_lock:
  "(case mem_TryAcquire ''iv'' ''s'' Map.empty of (a, m) \<Rightarrow> case mem_TryAcquire ''iv'' ''s'' m of (b, m) \<Rightarrow>
     (a, b, fst (mem_TryAcquire ''iv'' ''other'' (mem_Release ''iv'' ''s'' m)))) = (True, True, True)"
  by (simp add: mem_TryAcquire_def mem_Release_def)

end
