(* ===== verification/Evaluation.thy ===== *)
theory Evaluation
  imports Protocol Float64 Interview_Domain Entities "HOL-Library.Multiset"
begin

text \<open>
  The evaluation report: \<open>src/backend/internal/evaluation/domain/report.go\<close> (the roll-up of per-question scores
  into dimensions and the overall score) and \<open>infrastructure/llm/evaluator.go\<close> (what the program accepts from
  the model that scores a transcript). Arithmetic is float64: every operation rounds.

  A Go map is ranged over in no particular order, and float64 addition is not associative, so the orders in which
  the two summing loops visit the weights are arguments. What the model answers is an argument too: its JSON value.
\<close>

section \<open>The report\<close>

definition RecommendationProceed :: string where "RecommendationProceed = ''proceed''"
definition RecommendationReconsider :: string where "RecommendationReconsider = ''reconsider''"
definition RecommendationReject :: string where "RecommendationReject = ''reject''"

definition ValidRecommendation :: "string \<Rightarrow> bool" where
  "ValidRecommendation v \<longleftrightarrow> v = RecommendationProceed \<or> v = RecommendationReconsider \<or> v = RecommendationReject"

record Dimension =
  dm_Score :: rat
  dm_Weight :: rat

record QuestionScore =
  qs_QuestionIdx :: int
  qs_Score :: rat
  qs_Rationale :: string
  qs_Quotes :: "string list"
  qs_Strengths :: "string list"
  qs_Weaknesses :: "string list"
  qs_Category :: string

record Report =
  rp_OverallScore :: rat
  rp_Dimensions :: "(string \<times> Dimension) list"
  rp_PerQuestion :: "QuestionScore list"
  rp_Strengths :: "string list"
  rp_Weaknesses :: "string list"
  rp_Recommendation :: string

definition DefaultWeights :: "(string \<times> rat) list" where
  "DefaultWeights = [(''technical'', rnd64 (4 / 10)), (''communication'', rnd64 (2 / 10)),
     (''problem_solving'', 1 / 4), (''culture_fit'', rnd64 (15 / 100))]"

definition clamp :: "rat \<Rightarrow> rat \<Rightarrow> rat \<Rightarrow> rat" where
  "clamp v lo hi = (if hi < v then hi else if v < lo then lo else v)"

text \<open>One question: its dimension's running mean. A category that is no dimension is skipped.\<close>

definition roll_step :: "QuestionScore \<Rightarrow> (string \<times> Dimension) list \<times> (string \<Rightarrow> nat) \<Rightarrow> (string \<times> Dimension) list \<times> (string \<Rightarrow> nat)" where
  "roll_step q = (\<lambda>(dims, counts). case map_of dims (qs_Category q) of
     None \<Rightarrow> (dims, counts)
   | Some d \<Rightarrow>
       (let n = counts (qs_Category q) + 1;
            score = fdiv (fadd (fmul (dm_Score d) (of_nat (n - 1))) (qs_Score q)) (of_nat n)
        in (map (\<lambda>(k, x). if k = qs_Category q then (k, x\<lparr>dm_Score := score\<rparr>) else (k, x)) dims,
            counts(qs_Category q := n))))"

definition total_step :: "(string \<times> Dimension) list \<Rightarrow> (string \<Rightarrow> nat) \<Rightarrow> rat \<times> rat \<Rightarrow> string \<Rightarrow> rat \<times> rat" where
  "total_step dims counts = (\<lambda>(total, weightSum) name. case map_of dims name of
     None \<Rightarrow> (total, weightSum)
   | Some d \<Rightarrow> if 0 < counts name
       then (fadd total (fmul (clamp (dm_Score d) 0 100) (dm_Weight d)), fadd weightSum (dm_Weight d))
       else (total, weightSum))"

definition averageScore :: "rat \<times> rat \<Rightarrow> rat" where
  "averageScore = (\<lambda>(total, weightSum). if 0 < weightSum then fdiv total weightSum else 0)"

definition round2 :: "rat \<Rightarrow> rat" where
  "round2 x = fdiv (of_int (math_round (fmul x 100))) 100"

text \<open>The verb \<open>%f\<close>: six decimals.\<close>

definition fmt_f :: "rat \<Rightarrow> string" where
  "fmt_f v = (let n = nat (round_even (\<bar>v\<bar> * 10 ^ 6)); frac = itoa_nat (n mod 10 ^ 6) in
     (if v < 0 then ''-'' else []) @ itoa_nat (n div 10 ^ 6) @ ''.'' @ replicate (6 - length frac) CHR ''0'' @ frac)"

text \<open>\<open>order1\<close> and \<open>order2\<close> are the orders of the two loops that add weights.\<close>

definition Evaluate ::
  "string list \<Rightarrow> string list \<Rightarrow> QuestionScore list \<Rightarrow> (string \<times> rat) list \<Rightarrow> Report result" where
  "Evaluate order1 order2 perQuestion weights =
     (let sum = foldl (\<lambda>s n. fadd s (the (map_of weights n))) 0 order1 in
      if rnd64 (1 / 10 ^ 9) < \<bar>fsub sum 1\<bar> then Inl (DomainError ''EVAL_WEIGHTS'' (''weights must sum to 1.0, got '' @ fmt_f sum))
      else
        (let (dims, counts) = fold roll_step perQuestion
               (map (\<lambda>(n, w). (n, \<lparr>dm_Score = 0, dm_Weight = w\<rparr>)) weights, \<lambda>_. 0);
             avg = averageScore (foldl (total_step dims counts) (0, 0) order2);
             filled = map (\<lambda>(n, d). if counts n = 0 then (n, d\<lparr>dm_Score := avg\<rparr>) else (n, d)) dims
         in Inr \<lparr>rp_OverallScore = round2 avg, rp_Dimensions = filled, rp_PerQuestion = perQuestion,
              rp_Strengths = [], rp_Weaknesses = [], rp_Recommendation = []\<rparr>))"

section \<open>The evaluator\<close>

definition EvalWindow :: nat where "EvalWindow = 100"

definition clampScore :: "rat \<Rightarrow> rat" where
  "clampScore v = (if 100 < v then 100 else if v < 0 then 0 else v)"

text \<open>A JSON number as a float64, the nearest one; a literal beyond the range is refused.\<close>

definition ten_pow :: "int \<Rightarrow> rat" where
  "ten_pow i = (if 0 \<le> i then 10 ^ nat i else 1 / 10 ^ nat (- i))"

definition literal_value :: "string \<Rightarrow> rat" where
  "literal_value s =
     (let neg = has_prefix s ''-''; body = (if neg then tl s else s);
          mantissa = takeWhile (\<lambda>c. c \<noteq> CHR ''e'' \<and> c \<noteq> CHR ''E'') body;
          expo = drop (length mantissa + 1) body;
          e = (if has_prefix expo ''-'' then - digits_value (tl expo) else if has_prefix expo ''+'' then digits_value (tl expo)
               else digits_value expo);
          whole = takeWhile (\<lambda>c. c \<noteq> CHR ''.'') mantissa;
          frac = drop (length whole + 1) mantissa;
          v = of_int (digits_value (whole @ frac)) * ten_pow (e - int (length frac))
      in if neg then - v else v)"

definition max_float :: rat where "max_float = (2 - 1 / 2 ^ 52) * 2 ^ 1023"

definition parse_float :: "string \<Rightarrow> rat option" where
  "parse_float s = (let v = rnd64 (literal_value s) in if \<bar>v\<bar> \<le> max_float then Some v else None)"

fun dec_number :: "string \<Rightarrow> rat \<Rightarrow> json \<Rightarrow> rat result" where
  "dec_number f _ (JNum n) = (case parse_float n of Some v \<Rightarrow> Inr v | None \<Rightarrow> type_error f)"
| "dec_number f _ _ = type_error f"

fun dec_element :: "json \<Rightarrow> string result" where
  "dec_element (JStr s) = Inr s"
| "dec_element JNull = Inr []"
| "dec_element _ = type_error ''element''"

fun dec_strings :: "string \<Rightarrow> string list \<Rightarrow> json \<Rightarrow> string list result" where
  "dec_strings f _ (JArr vs) = dec_list dec_element vs"
| "dec_strings f _ _ = type_error f"

definition strings_field :: "string \<Rightarrow> (string \<times> json) list \<Rightarrow> string list result" where
  "strings_field f kvs = decode_members (dec_strings f) (members f kvs) []"

definition dec_score :: "json \<Rightarrow> QuestionScore result" where
  "dec_score v =
     and_then (as_object ''per_question'' v) (\<lambda>o1.
     and_then (int_field ''question_idx'' o1 0) (\<lambda>i.
     and_then (decode_members (dec_number ''score'') (members ''score'' o1) 0) (\<lambda>s.
     and_then (str_field ''rationale'' o1 []) (\<lambda>r.
     and_then (strings_field ''quotes'' o1) (\<lambda>q.
     and_then (strings_field ''strengths'' o1) (\<lambda>st.
     and_then (strings_field ''weaknesses'' o1) (\<lambda>w.
     and_then (str_field ''category'' o1 []) (\<lambda>c.
     Inr \<lparr>qs_QuestionIdx = i, qs_Score = s, qs_Rationale = r, qs_Quotes = q, qs_Strengths = st, qs_Weaknesses = w,
        qs_Category = c\<rparr>))))))))"

fun dec_scores :: "QuestionScore list \<Rightarrow> json \<Rightarrow> QuestionScore list result" where
  "dec_scores _ (JArr vs) = dec_list dec_score vs"
| "dec_scores _ _ = type_error ''per_question''"

record evalSchema =
  es_PerQuestion :: "QuestionScore list"
  es_Strengths :: "string list"
  es_Weaknesses :: "string list"
  es_Recommendation :: string

definition dec_schema :: "json \<Rightarrow> evalSchema result" where
  "dec_schema v =
     and_then (as_object ''report'' v) (\<lambda>o1.
     and_then (decode_members dec_scores (members ''per_question'' o1) []) (\<lambda>p.
     and_then (strings_field ''strengths'' o1) (\<lambda>s.
     and_then (strings_field ''weaknesses'' o1) (\<lambda>w.
     and_then (str_field ''recommendation'' o1 []) (\<lambda>r.
     Inr \<lparr>es_PerQuestion = p, es_Strengths = s, es_Weaknesses = w, es_Recommendation = r\<rparr>)))))"

text \<open>The loop over the scores: indices in range and none twice; scores clamped in place.\<close>

fun accept_scores :: "nat \<Rightarrow> int list \<Rightarrow> QuestionScore list \<Rightarrow> QuestionScore list result" where
  "accept_scores n seen [] = Inr []"
| "accept_scores n seen (q # qs) =
     (if qs_QuestionIdx q < 1 \<or> int n < qs_QuestionIdx q \<or> qs_QuestionIdx q \<in> set seen then
        Inl (DomainError ''EVAL_SCHEMA'' ''evaluator returned inconsistent per-question indices'')
      else and_then (accept_scores n (qs_QuestionIdx q # seen) qs)
        (\<lambda>rest. Inr (q\<lparr>qs_Score := clampScore (qs_Score q)\<rparr> # rest)))"

definition evaluation_window :: "'a list \<Rightarrow> 'a list" where
  "evaluation_window pairs = (if EvalWindow < length pairs then drop (length pairs - EvalWindow) pairs else pairs)"

text \<open>
  \<open>marshal\<close> encodes the transcript, \<open>ask\<close> is the structured completion: the provider may fail, and its output
  may fail to encode; otherwise it is a JSON value.
\<close>

definition evaluate_transcript ::
  "(TranscriptPair list \<Rightarrow> string result) \<Rightarrow> (string \<Rightarrow> json result result) \<Rightarrow> string list \<Rightarrow> string list
     \<Rightarrow> TranscriptPair list \<Rightarrow> Report result" where
  "evaluate_transcript marshal ask order1 order2 pairs0 =
     (let pairs = evaluation_window pairs0 in
      case marshal pairs of Inl e \<Rightarrow> Inl (Wrapped ''evaluate: marshal transcript'' e)
      | Inr raw \<Rightarrow>
     (case ask (''Transcript (last '' @ itoa_nat (length pairs) @ '' Q&A):'' @ newline @ raw) of
        Inl e \<Rightarrow> Inl (Wrapped ''evaluate'' e)
      | Inr (Inl e) \<Rightarrow> Inl (Wrapped ''evaluate: marshal output'' e)
      | Inr (Inr out) \<Rightarrow>
     (case dec_schema out of
        Inl e \<Rightarrow> Inl (DomainError ''EVAL_PARSE'' ''evaluator returned invalid JSON'')
      | Inr scored \<Rightarrow>
          if es_PerQuestion scored = [] then
            Inl (DomainError ''EVAL_EMPTY'' ''evaluator returned no per-question scores'')
          else
            and_then (accept_scores (length pairs) [] (es_PerQuestion scored)) (\<lambda>scores.
            and_then (Evaluate order1 order2 scores DefaultWeights) (\<lambda>report.
            Inr (report\<lparr>rp_Strengths := es_Strengths scored, rp_Weaknesses := es_Weaknesses scored,
              rp_Recommendation := (if ValidRecommendation (es_Recommendation scored) then es_Recommendation scored
                else RecommendationReconsider)\<rparr>))))))"

section \<open>Bounds\<close>

lemma clamp_bounds: "lo \<le> hi \<Longrightarrow> lo \<le> clamp v lo hi \<and> clamp v lo hi \<le> hi"
  by (simp add: clamp_def)

lemma fl_mono: "x \<le> y \<Longrightarrow> rnd64 x \<le> rnd64 y"
  by (rule rnd64_mono)

lemma fl_nonneg: "0 \<le> x \<Longrightarrow> 0 \<le> rnd64 x"
  using rnd64_mono [of 0 x] rnd64_int [of 0] by simp

text \<open>The sums when every score is 100: what the actual ones are below.\<close>

definition full_sums :: "rat list \<Rightarrow> rat \<times> rat" where
  "full_sums ws = foldl (\<lambda>(t, s) w. (fadd t (fmul 100 w), fadd s w)) (0, 0) ws"

definition hit_weights :: "(string \<times> Dimension) list \<Rightarrow> (string \<Rightarrow> nat) \<Rightarrow> string list \<Rightarrow> rat list" where
  "hit_weights dims counts order = map (\<lambda>n. dm_Weight (the (map_of dims n)))
     (filter (\<lambda>n. map_of dims n \<noteq> None \<and> 0 < counts n) order)"

lemma total_below:
  assumes "0 \<le> t" "t \<le> t'" "\<And>n d. map_of dims n = Some d \<Longrightarrow> 0 \<le> dm_Weight d"
  shows "0 \<le> fst (foldl (total_step dims counts) (t, s) order)
    \<and> fst (foldl (total_step dims counts) (t, s) order) \<le> fst (foldl (\<lambda>(t, s) w. (fadd t (fmul 100 w), fadd s w)) (t', s) (hit_weights dims counts order))
    \<and> snd (foldl (total_step dims counts) (t, s) order) = snd (foldl (\<lambda>(t, s) w. (fadd t (fmul 100 w), fadd s w)) (t', s) (hit_weights dims counts order))"
  using assms(1,2) unfolding hit_weights_def
proof (induction order arbitrary: t t' s)
  case (Cons n order)
  show ?case
  proof (cases "map_of dims n")
    case None
    with Cons show ?thesis by (simp add: total_step_def)
  next
    case (Some d)
    show ?thesis
    proof (cases "0 < counts n")
      case False
      with Some Cons show ?thesis by (simp add: total_step_def)
    next
      case True
      let ?c = "clamp (dm_Score d) 0 100"
      have w: "0 \<le> dm_Weight d" by (rule assms(3) [OF Some])
      have c: "0 \<le> ?c" "?c \<le> 100" using clamp_bounds [of 0 100] by simp_all
      have "0 \<le> fmul ?c (dm_Weight d)" unfolding fmul_def by (intro fl_nonneg mult_nonneg_nonneg c w)
      moreover have "fmul ?c (dm_Weight d) \<le> fmul 100 (dm_Weight d)"
        unfolding fmul_def by (intro fl_mono mult_right_mono c w)
      ultimately have "0 \<le> fadd t (fmul ?c (dm_Weight d))"
        "fadd t (fmul ?c (dm_Weight d)) \<le> fadd t' (fmul 100 (dm_Weight d))"
        unfolding fadd_def using Cons.prems by (auto intro!: fl_nonneg fl_mono)
      from Cons.IH [OF this] Some True show ?thesis by (simp add: total_step_def)
    qed
  qed
qed simp

text \<open>Rounding errors: a step of the sums costs at most a factor \<open>eps ^ 3\<close>.\<close>

definition eps :: rat where "eps = 1 + 1 / 10 ^ 6"

lemma eps_pos [simp]: "0 < eps" "1 \<le> eps" "0 \<le> eps"
  by (simp_all add: eps_def)

lemma fl_up: "1 / 1000 \<le> x \<Longrightarrow> rnd64 x \<le> x * eps"
  using rnd64_near(1) [of x] by (simp add: eps_def)

lemma fl_down: "1 / 1000 \<le> x \<Longrightarrow> x \<le> rnd64 x * eps ^ 2"
proof -
  assume x: "1 / 1000 \<le> x"
  have "x * 1 \<le> x * ((1 - 1 / 10 ^ 6) * eps ^ 2)"
    by (rule mult_left_mono) (use x in \<open>simp_all add: eps_def power2_eq_square\<close>)
  also have "\<dots> = (x * (1 - 1 / 10 ^ 6)) * eps ^ 2" by simp
  also have "\<dots> \<le> rnd64 x * eps ^ 2" by (rule mult_right_mono [OF rnd64_near(2) [OF x]]) simp
  finally show ?thesis by simp
qed

lemma sums_step:
  assumes "0 \<le> t" "0 \<le> s" "t \<le> 100 * s * c" "eps \<le> c" "1 / 100 \<le> w" "w \<le> 1"
  shows "fadd t (fmul 100 w) \<le> 100 * fadd s w * (c * eps ^ 3)" "0 \<le> fadd t (fmul 100 w)" "0 < fadd s w"
proof -
  have m: "fmul 100 w \<le> 100 * w * eps" "1 / 1000 \<le> fmul 100 w"
  proof -
    show "fmul 100 w \<le> 100 * w * eps" unfolding fmul_def by (rule fl_up) (use assms in simp)
    have "rnd64 (of_int 1) \<le> rnd64 (100 * w)" by (rule fl_mono) (use assms in simp)
    then show "1 / 1000 \<le> fmul 100 w" unfolding fmul_def by (simp add: rnd64_int [of 1, simplified])
  qed
  have "100 * w * eps \<le> 100 * w * c" using assms by (intro mult_left_mono) simp_all
  then have sum: "t + fmul 100 w \<le> 100 * (s + w) * c" using m(1) assms(3) by (simp add: algebra_simps)
  have pos: "1 / 1000 \<le> t + fmul 100 w" using m(2) assms(1) by simp
  have "fadd t (fmul 100 w) \<le> (t + fmul 100 w) * eps" unfolding fadd_def by (rule fl_up [OF pos])
  also have "\<dots> \<le> 100 * (s + w) * c * eps" by (rule mult_right_mono [OF sum]) simp
  also have "\<dots> = (s + w) * (100 * c * eps)" by simp
  also have "\<dots> \<le> (fadd s w * eps ^ 2) * (100 * c * eps)"
  proof (rule mult_right_mono)
    show "s + w \<le> fadd s w * eps ^ 2" unfolding fadd_def by (rule fl_down) (use assms in simp)
    note c0 = order.trans [OF eps_pos(3) assms(4)]
    show "0 \<le> 100 * c * eps" using c0 by simp
  qed
  also have "\<dots> = 100 * fadd s w * (c * eps ^ 3)" by (simp add: power2_eq_square power3_eq_cube)
  finally show "fadd t (fmul 100 w) \<le> 100 * fadd s w * (c * eps ^ 3)" .
  show "0 \<le> fadd t (fmul 100 w)" unfolding fadd_def by (rule fl_nonneg) (use pos in simp)
  have "s + w \<le> fadd s w * eps ^ 2" unfolding fadd_def by (rule fl_down) (use assms in simp)
  moreover have "0 < s + w" using assms by simp
  ultimately have "0 < fadd s w * eps ^ 2" by simp
  then show "0 < fadd s w" by (simp add: zero_less_mult_iff)
qed

lemma full_sums_ratio:
  assumes "0 \<le> t" "0 \<le> s" "t \<le> 100 * s * c" "eps \<le> c" "\<And>w. w \<in> set ws \<Longrightarrow> 1 / 100 \<le> w \<and> w \<le> 1"
  shows "fst (foldl (\<lambda>(t, s) w. (fadd t (fmul 100 w), fadd s w)) (t, s) ws)
    \<le> 100 * snd (foldl (\<lambda>(t, s) w. (fadd t (fmul 100 w), fadd s w)) (t, s) ws) * (c * eps ^ (3 * length ws))"
  using assms
proof (induction ws arbitrary: t s c)
  case (Cons w ws)
  from Cons.prems(5) have w: "1 / 100 \<le> w" "w \<le> 1" by simp_all
  note st = sums_step [OF Cons.prems(1-4) w]
  have "eps * 1 \<le> c * eps ^ 3" by (rule mult_mono [OF Cons.prems(4)]) (use order.trans [OF eps_pos(3) Cons.prems(4)] in simp_all)
  then have c: "eps \<le> c * eps ^ 3" by simp
  have "c * eps ^ 3 * eps ^ (3 * length ws) = c * eps ^ (3 * length (w # ws))" by (simp add: power_add)
  with Cons.IH [OF st(2) less_imp_le [OF st(3)] st(1) c] Cons.prems(5) show ?case by simp
qed simp

text \<open>The average of what was scored: hardly above 100 and, rounded to two decimals, not above it at all.\<close>

lemma average_bounds:
  fixes counts :: "string \<Rightarrow> nat"
  assumes w: "\<And>n d. map_of dims n = Some d \<Longrightarrow> 1 / 100 \<le> dm_Weight d \<and> dm_Weight d \<le> 1" and o4: "length order \<le> 4"
  defines "avg \<equiv> averageScore (foldl (total_step dims counts) (0, 0) order)"
  shows "0 \<le> avg" "avg \<le> 100 * eps ^ 14"
proof -
  let ?ws = "hit_weights dims counts order"
  let ?f = "foldl (\<lambda>(t, s) w. (fadd t (fmul 100 w), fadd s w)) (0, 0) ?ws"
  obtain t s where ts: "foldl (total_step dims counts) (0, 0) order = (t, s)" by fastforce
  have w0: "0 \<le> dm_Weight d" if "map_of dims n = Some d" for n d using w [OF that] by simp
  from total_below [of 0 0 dims, OF _ _ w0, where counts = counts and order = order and s = 0] ts
  have b: "0 \<le> t" "t \<le> fst ?f" "s = snd ?f" by simp_all
  have ws: "1 / 100 \<le> x \<and> x \<le> 1" if "x \<in> set ?ws" for x
    using that w by (auto simp: hit_weights_def)
  have "fst ?f \<le> 100 * snd ?f * (eps * eps ^ (3 * length ?ws))"
    by (rule full_sums_ratio [OF _ _ _ _ ws]) simp_all
  moreover have "0 \<le> avg \<and> avg \<le> 100 * eps ^ 14" if "0 < s"
  proof -
    have "length ?ws \<le> 4" using o4 length_filter_le [of _ order] unfolding hit_weights_def length_map by (meson order.trans)
    then have "eps ^ (1 + 3 * length ?ws) \<le> eps ^ 13" by (intro power_increasing) simp_all
    then have "100 * s * eps ^ (1 + 3 * length ?ws) \<le> 100 * s * eps ^ 13" using that by (intro mult_left_mono) simp_all
    moreover have "t \<le> 100 * s * eps ^ (1 + 3 * length ?ws)" using b calculation
        \<open>fst ?f \<le> 100 * snd ?f * (eps * eps ^ (3 * length ?ws))\<close> by simp
    ultimately have t: "t \<le> 100 * eps ^ 13 * s" by (simp add: mult_ac)
    have "t / s \<le> 100 * eps ^ 13" using that t by (simp add: pos_divide_le_eq)
    then have "fdiv t s \<le> rnd64 (100 * eps ^ 13)" unfolding fdiv_def by (rule fl_mono)
    also have "\<dots> \<le> 100 * eps ^ 13 * eps" by (rule fl_up) (use one_le_power [OF eps_pos(2), of 13] in linarith)
    also have "\<dots> = 100 * eps ^ 14" by (simp only: mult.assoc power_Suc2 [symmetric]) simp
    finally have "fdiv t s \<le> 100 * eps ^ 14" .
    moreover have "0 \<le> fdiv t s" unfolding fdiv_def by (rule fl_nonneg) (use b(1) that in simp)
    ultimately show ?thesis using that by (simp add: avg_def averageScore_def ts)
  qed
  moreover have "avg = 0" if "\<not> 0 < s" using that by (simp add: avg_def averageScore_def ts)
  ultimately have "0 \<le> avg \<and> avg \<le> 100 * eps ^ 14" by (cases "0 < s") simp_all
  then show "0 \<le> avg" "avg \<le> 100 * eps ^ 14" by blast+
qed

lemma round2_bounds:
  assumes "0 \<le> x" "x \<le> 100 * eps ^ 14"
  shows "0 \<le> round2 x" "round2 x \<le> 100"
proof -
  have "fmul x 100 \<le> rnd64 (100 * eps ^ 14 * 100)" unfolding fmul_def by (rule fl_mono) (use assms in simp)
  also have "\<dots> \<le> 100 * eps ^ 14 * 100 * eps" by (rule fl_up) (use one_le_power [OF eps_pos(2), of 14] in linarith)
  also have "\<dots> < 10000 + 1 / 2" by (simp add: eps_def power_divide)
  finally have hi: "fmul x 100 < 10000 + 1 / 2" .
  have lo: "0 \<le> fmul x 100" unfolding fmul_def by (rule fl_nonneg) (use assms in simp)
  have m: "0 \<le> math_round (fmul x 100)" "math_round (fmul x 100) \<le> 10000"
    using hi lo by (simp_all add: math_round_def)
  have "(of_int (math_round (fmul x 100)) :: rat) / 100 \<le> 100" "(0 :: rat) \<le> of_int (math_round (fmul x 100)) / 100"
    using m by simp_all
  then show "0 \<le> round2 x" "round2 x \<le> 100" unfolding round2_def fdiv_def by (auto intro: fl_nonneg fl.le_numeral)
qed


section \<open>The report of an accepted answer\<close>

lemma roll_step_keys: "map fst (fst (roll_step q a)) = map fst (fst a)"
  by (auto simp: roll_step_def Let_def split: prod.splits option.splits)

lemma roll_keys: "map fst (fst (fold roll_step qs a)) = map fst (fst a)"
  by (induction qs arbitrary: a) (simp_all add: roll_step_keys)

lemma roll_step_weights:
  "map (dm_Weight \<circ> snd) (fst (roll_step q a)) = map (dm_Weight \<circ> snd) (fst a)"
  by (auto simp: roll_step_def Let_def split: prod.splits option.splits)

lemma roll_weights: "map (dm_Weight \<circ> snd) (fst (fold roll_step qs a)) = map (dm_Weight \<circ> snd) (fst a)"
  by (induction qs arbitrary: a) (simp_all add: roll_step_weights)

lemma DefaultWeights_range: "w \<in> snd ` set DefaultWeights \<Longrightarrow> 1 / 100 \<le> w \<and> w \<le> 1"
proof -
  have r: "1 / 100 \<le> rnd64 x \<and> rnd64 x \<le> 1" if "2 / 100 \<le> x" "x \<le> 1 / 2" for x
    using rnd64_near [of x] that by (auto simp: field_simps)
  assume "w \<in> snd ` set DefaultWeights"
  then show ?thesis using r [of "4 / 10"] r [of "2 / 10"] r [of "15 / 100"] by (auto simp: DefaultWeights_def)
qed

lemma Evaluate_overall_bounds:
  assumes "Evaluate order1 order2 qs DefaultWeights = Inr r" "length order2 \<le> 4"
  shows "0 \<le> rp_OverallScore r \<and> rp_OverallScore r \<le> 100"
proof -
  let ?start = "(map (\<lambda>(n, w). (n, \<lparr>dm_Score = 0, dm_Weight = w\<rparr>)) DefaultWeights, \<lambda>_. 0 :: nat)"
  obtain dims counts where roll: "fold roll_step qs ?start = (dims, counts)" by fastforce
  have "map (dm_Weight \<circ> snd) dims = map snd DefaultWeights"
    using roll_weights [of qs ?start] roll by (simp add: case_prod_beta comp_def)
  then have "(dm_Weight \<circ> snd) ` set dims = snd ` set DefaultWeights" by (metis list.set_map)
  then have "1 / 100 \<le> dm_Weight d \<and> dm_Weight d \<le> 1" if "map_of dims n = Some d" for n d
    using map_of_SomeD [OF that] by (intro DefaultWeights_range) force
  from average_bounds [of dims, OF this assms(2), where counts = counts]
  have "0 \<le> round2 (averageScore (foldl (total_step dims counts) (0, 0) order2))
    \<and> round2 (averageScore (foldl (total_step dims counts) (0, 0) order2)) \<le> 100"
    by (intro conjI round2_bounds)
  then show ?thesis using assms(1) roll by (auto simp: Evaluate_def Let_def split: if_splits)
qed

lemma Evaluate_parts:
  assumes "Evaluate order1 order2 qs weights = Inr r"
  shows "rp_PerQuestion r = qs" "map fst (rp_Dimensions r) = map fst weights"
proof -
  let ?start = "(map (\<lambda>(n, w). (n, \<lparr>dm_Score = 0, dm_Weight = w\<rparr>)) weights, \<lambda>_. 0 :: nat)"
  obtain dims counts where roll: "fold roll_step qs ?start = (dims, counts)" by fastforce
  have k: "map fst dims = map fst weights"
    using roll_keys [of qs ?start] roll by (simp add: case_prod_beta comp_def)
  show "rp_PerQuestion r = qs" using assms roll by (auto simp: Evaluate_def Let_def split: if_splits)
  show "map fst (rp_Dimensions r) = map fst weights"
    using assms roll k by (auto simp: Evaluate_def Let_def comp_def case_prod_beta if_distrib split: if_splits cong: if_cong)
qed

lemma accept_scores_sound:
  "accept_scores n seen qs = Inr out \<Longrightarrow>
     map qs_QuestionIdx out = map qs_QuestionIdx qs \<and> distinct (map qs_QuestionIdx qs)
     \<and> set (map qs_QuestionIdx qs) \<inter> set seen = {}
     \<and> (\<forall>q \<in> set out. 1 \<le> qs_QuestionIdx q \<and> qs_QuestionIdx q \<le> int n \<and> 0 \<le> qs_Score q \<and> qs_Score q \<le> 100)"
proof (induction qs arbitrary: seen out)
  case (Cons q qs)
  from Cons.prems obtain rest where r: "accept_scores n (qs_QuestionIdx q # seen) qs = Inr rest"
    and o: "out = q\<lparr>qs_Score := clampScore (qs_Score q)\<rparr> # rest"
    and g: "1 \<le> qs_QuestionIdx q" "qs_QuestionIdx q \<le> int n" "qs_QuestionIdx q \<notin> set seen"
    by (auto split: if_splits simp: and_then_Inr)
  from Cons.IH [OF r] o g show ?case by (auto simp: clampScore_def)
qed simp


text \<open>The default weights pass the check whatever the order of the map: the rounding is far below the tolerance.\<close>

lemma rnd64_close: "1 / 100 \<le> x \<Longrightarrow> x \<le> 2 \<Longrightarrow> \<bar>rnd64 x - x\<bar> \<le> 1 / 10 ^ 15"
proof -
  assume x: "1 / 100 \<le> x" "x \<le> 2"
  have "\<bar>rnd64 x - x\<bar> \<le> x / 2 ^ 53" using x by (intro rnd64_error) simp
  also have "\<dots> \<le> 1 / 10 ^ 15" using x by simp
  finally show ?thesis .
qed

lemma weight_sum_close:
  assumes "\<And>n. n \<in> set ns \<Longrightarrow> 1 / 10 \<le> e n \<and> \<bar>v n - e n\<bar> \<le> 1 / 10 ^ 15"
    and "0 \<le> a" "a + sum_list (map e ns) \<le> 1" "\<bar>s - a\<bar> \<le> k / 10 ^ 14" "0 \<le> k" "k + of_nat (length ns) \<le> 100"
  shows "\<bar>foldl (\<lambda>s n. fadd s (v n)) s ns - (a + sum_list (map e ns))\<bar> \<le> (k + of_nat (length ns)) / 10 ^ 14"
  using assms
proof (induction ns arbitrary: a s k)
  case (Cons n ns)
  have e: "1 / 10 \<le> e n" "\<bar>v n - e n\<bar> \<le> 1 / 10 ^ 15" using Cons.prems(1) [of n] by simp_all
  have rest: "0 \<le> sum_list (map e ns)"
    by (rule sum_list_nonneg) (use Cons.prems(1) in \<open>fastforce intro: order.trans [rotated]\<close>)
  have near: "\<bar>(s + v n) - (a + e n)\<bar> \<le> k / 10 ^ 14 + 1 / 10 ^ 15" using Cons.prems(4) e(2) by linarith
  have k: "k / 10 ^ 14 \<le> 1 / 10 ^ 12" using Cons.prems(6) by simp
  have "1 / 100 \<le> s + v n" "s + v n \<le> 2"
    using near k e(1) Cons.prems(2,3) rest by (simp_all add: abs_le_iff)
  from rnd64_close [OF this] near have "\<bar>fadd s (v n) - (a + e n)\<bar> \<le> k / 10 ^ 14 + 2 / 10 ^ 15"
    unfolding fadd_def by linarith
  then have step: "\<bar>fadd s (v n) - (a + e n)\<bar> \<le> (k + 1) / 10 ^ 14" by (simp add: add_divide_distrib)
  have ae: "0 \<le> a + e n" using e(1) Cons.prems(2) by linarith
  have "\<bar>foldl (\<lambda>s n. fadd s (v n)) (fadd s (v n)) ns - ((a + e n) + sum_list (map e ns))\<bar> \<le> ((k + 1) + of_nat (length ns)) / 10 ^ 14"
    by (rule Cons.IH [OF _ ae _ step]) (use Cons.prems(1) [of n] Cons.prems(1) Cons.prems(2,3,5,6) e(1) in simp_all)
  then show ?case by (simp only: foldl_Cons list.simps sum_list.Cons length_Cons of_nat_Suc add.assoc)
qed simp


definition weight_names :: "string list" where "weight_names = map fst DefaultWeights"

definition exact_weight :: "string \<Rightarrow> rat" where
  "exact_weight n = the (map_of [(''technical'', 4 / 10), (''communication'', 2 / 10), (''problem_solving'', 1 / 4), (''culture_fit'', 15 / 100)] n)"

lemma default_weight_close:
  "n \<in> set weight_names \<Longrightarrow> 1 / 10 \<le> exact_weight n \<and> \<bar>the (map_of DefaultWeights n) - exact_weight n\<bar> \<le> 1 / 10 ^ 15"
  using rnd64_close [of "4 / 10"] rnd64_close [of "2 / 10"] rnd64_close [of "15 / 100"]
  by (auto simp: weight_names_def DefaultWeights_def exact_weight_def)

lemma weights_check_passes:
  assumes "mset order1 = mset weight_names"
  shows "\<bar>fsub (foldl (\<lambda>s n. fadd s (the (map_of DefaultWeights n))) 0 order1) 1\<bar> \<le> rnd64 (1 / 10 ^ 9)"
proof -
  let ?s = "foldl (\<lambda>s n. fadd s (the (map_of DefaultWeights n))) 0 order1"
  have set: "set order1 = set weight_names" and len: "length order1 = 4"
    using assms mset_eq_setD [OF assms] mset_eq_length [OF assms] by (simp_all add: weight_names_def DefaultWeights_def)
  have "sum_list (map exact_weight order1) = sum_mset (image_mset exact_weight (mset order1))"
    unfolding sum_mset_sum_list [symmetric] mset_map by (rule refl)
  also have "\<dots> = 1" unfolding assms by (simp add: weight_names_def DefaultWeights_def exact_weight_def)
  finally have one: "sum_list (map exact_weight order1) = 1" .
  have "\<bar>?s - (0 + sum_list (map exact_weight order1))\<bar> \<le> (0 + of_nat (length order1)) / 10 ^ 14"
    by (rule weight_sum_close) (use default_weight_close in \<open>simp_all add: one len set\<close>)
  then have "\<bar>?s - 1\<bar> \<le> 4 / 10 ^ 14" unfolding one len by simp
  moreover have "(4 :: rat) / 10 ^ 14 \<le> 1 / 10 ^ 9" by simp
  ultimately have "?s - 1 \<le> 1 / 10 ^ 9" "1 - ?s \<le> 1 / 10 ^ 9" by linarith+
  then have "rnd64 (?s - 1) \<le> rnd64 (1 / 10 ^ 9)" "rnd64 (- (1 / 10 ^ 9)) \<le> rnd64 (?s - 1)"
    by (auto intro!: rnd64_mono)
  moreover have "rnd64 (- (1 / 10 ^ 9)) = - rnd64 (1 / 10 ^ 9)" by (simp add: rnd64_def)
  ultimately show ?thesis by (simp add: fsub_def abs_le_iff)
qed

text \<open>The dimensions: running means of scores in range stay in range, because \<open>100 n\<close> is exact.\<close>

definition rolled :: "nat \<Rightarrow> (string \<times> Dimension) list \<times> (string \<Rightarrow> nat) \<Rightarrow> bool" where
  "rolled k a \<longleftrightarrow> (\<forall>x \<in> set (fst a). 0 \<le> dm_Score (snd x) \<and> dm_Score (snd x) \<le> 100) \<and> (\<forall>n. snd a n \<le> k)"

lemma mean_step_bounds:
  assumes "0 \<le> d" "d \<le> 100" "0 \<le> q" "q \<le> 100" "0 < n" "n \<le> 2 ^ 40"
  shows "0 \<le> fdiv (fadd (fmul d (of_nat (n - 1))) q) (of_nat n) \<and> fdiv (fadd (fmul d (of_nat (n - 1))) q) (of_nat n) \<le> 100"
proof -
  have up: "rnd64 x \<le> 100 * of_nat m" if "x \<le> 100 * of_nat m" "m \<le> 2 ^ 40" for x and m :: nat
    using fl.at_most [of "100 * int m" x] that by simp
  have "d * of_nat (n - 1) \<le> 100 * of_nat (n - 1)" using assms by (intro mult_right_mono) simp_all
  then have "fmul d (of_nat (n - 1)) \<le> 100 * of_nat (n - 1)" unfolding fmul_def by (rule up) (use assms in simp)
  then have "fmul d (of_nat (n - 1)) + q \<le> 100 * of_nat n" using assms by (simp add: of_nat_diff)
  then have s: "fadd (fmul d (of_nat (n - 1))) q \<le> 100 * of_nat n" unfolding fadd_def by (rule up) (use assms in simp)
  then have "fdiv (fadd (fmul d (of_nat (n - 1))) q) (of_nat n) \<le> 100"
    unfolding fdiv_def using assms by (intro fl.le_numeral) (simp_all add: pos_divide_le_eq)
  moreover have "0 \<le> fadd (fmul d (of_nat (n - 1))) q"
    unfolding fadd_def fmul_def using assms by (intro fl.nonneg add_nonneg_nonneg mult_nonneg_nonneg) simp_all
  ultimately show ?thesis unfolding fdiv_def by (auto intro: fl.nonneg)
qed

lemma rolled_step:
  assumes "rolled k a" "0 \<le> qs_Score q" "qs_Score q \<le> 100" "k < 2 ^ 40"
  shows "rolled (Suc k) (roll_step q a)"
proof (cases "map_of (fst a) (qs_Category q)")
  case None
  with assms(1) show ?thesis by (auto simp: rolled_def roll_step_def case_prod_beta le_Suc_eq)
next
  case (Some d)
  let ?n = "snd a (qs_Category q) + 1"
  have "0 \<le> dm_Score d \<and> dm_Score d \<le> 100" using map_of_SomeD [OF Some] assms(1) by (force simp: rolled_def)
  moreover have "snd a (qs_Category q) \<le> k" using assms(1) by (simp add: rolled_def)
  then have "?n \<le> 2 ^ 40" using assms(4) by simp
  ultimately have "0 \<le> fdiv (fadd (fmul (dm_Score d) (of_nat (?n - 1))) (qs_Score q)) (of_nat ?n)
    \<and> fdiv (fadd (fmul (dm_Score d) (of_nat (?n - 1))) (qs_Score q)) (of_nat ?n) \<le> 100"
    using assms(2,3) by (intro mean_step_bounds) simp_all
  with Some assms(1) show ?thesis
    by (auto simp: rolled_def roll_step_def case_prod_beta Let_def le_SucI split: if_splits)
qed

lemma rolled_fold:
  "rolled k a \<Longrightarrow> (\<And>q. q \<in> set qs \<Longrightarrow> 0 \<le> qs_Score q \<and> qs_Score q \<le> 100) \<Longrightarrow> k + length qs \<le> 2 ^ 40
     \<Longrightarrow> rolled (k + length qs) (fold roll_step qs a)"
proof (induction qs arbitrary: k a)
  case (Cons q qs)
  have "rolled (Suc k) (roll_step q a)" using Cons.prems by (intro rolled_step) simp_all
  from Cons.IH [OF this] Cons.prems show ?case by simp
qed simp


lemma roll_counts:
  "n \<in> set (map fst (fst a)) \<Longrightarrow> n \<in> qs_Category ` set qs \<or> 0 < snd a n \<Longrightarrow> 0 < snd (fold roll_step qs a) n"
proof (induction qs arbitrary: a)
  case (Cons q qs)
  have "n \<in> set (map fst (fst (roll_step q a)))" using Cons.prems(1) by (simp only: roll_step_keys)
  moreover have "n \<in> qs_Category ` set qs \<or> 0 < snd (roll_step q a) n"
  proof (cases "n = qs_Category q")
    case True
    then obtain d where "map_of (fst a) (qs_Category q) = Some d"
      using Cons.prems(1) by (auto simp: map_of_eq_None_iff dest: weak_map_of_SomeI)
    with True show ?thesis by (simp add: roll_step_def case_prod_beta Let_def)
  next
    case False
    with Cons.prems(2) show ?thesis by (auto simp: roll_step_def case_prod_beta Let_def split: option.splits)
  qed
  ultimately show ?case using Cons.IH by simp
qed simp

lemma Evaluate_passes:
  assumes "\<bar>fsub (foldl (\<lambda>s n. fadd s (the (map_of weights n))) 0 order1) 1\<bar> \<le> rnd64 (1 / 10 ^ 9)"
  shows "\<exists>r. Evaluate order1 order2 qs weights = Inr r"
proof -
  have "\<not> rnd64 (1 / 10 ^ 9) < \<bar>fsub (foldl (\<lambda>s n. fadd s (the (map_of weights n))) 0 order1) 1\<bar>" using assms by (simp only: not_less)
  then show ?thesis unfolding Evaluate_def Let_def by (simp only: if_False case_prod_beta) blast
qed

lemma Evaluate_default:
  assumes "mset order1 = mset weight_names" "mset order2 = mset weight_names" "length qs \<le> 2 ^ 40"
    and qs: "\<And>q. q \<in> set qs \<Longrightarrow> 0 \<le> qs_Score q \<and> qs_Score q \<le> 100"
  shows "\<exists>r. Evaluate order1 order2 qs DefaultWeights = Inr r \<and> rp_PerQuestion r = qs
    \<and> map fst (rp_Dimensions r) = weight_names \<and> 0 \<le> rp_OverallScore r \<and> rp_OverallScore r \<le> 100
    \<and> (\<forall>(n, d) \<in> set (rp_Dimensions r). 0 \<le> dm_Score d \<and> (n \<in> qs_Category ` set qs \<longrightarrow> dm_Score d \<le> 100))"
proof -
  obtain r where r: "Evaluate order1 order2 qs DefaultWeights = Inr r"
    using Evaluate_passes [OF weights_check_passes [OF assms(1)]] by blast
  let ?start = "(map (\<lambda>(n, w). (n, \<lparr>dm_Score = 0, dm_Weight = w\<rparr>)) DefaultWeights, \<lambda>_. 0 :: nat)"
  obtain dims counts where roll: "fold roll_step qs ?start = (dims, counts)" by fastforce
  let ?avg = "averageScore (foldl (total_step dims counts) (0, 0) order2)"
  have o2: "length order2 \<le> 4" using mset_eq_length [OF assms(2)] by (simp add: weight_names_def DefaultWeights_def)
  have "rolled (0 + length qs) (fold roll_step qs ?start)"
    by (rule rolled_fold) (use qs assms(3) in \<open>auto simp: rolled_def\<close>)
  then have dims: "0 \<le> dm_Score d \<and> dm_Score d \<le> 100" if "(n, d) \<in> set dims" for n d
    using that roll by (force simp: rolled_def)
  have "map (dm_Weight \<circ> snd) dims = map snd DefaultWeights"
    using roll_weights [of qs ?start] roll by (simp add: case_prod_beta comp_def)
  then have "(dm_Weight \<circ> snd) ` set dims = snd ` set DefaultWeights" by (metis list.set_map)
  then have "1 / 100 \<le> dm_Weight d \<and> dm_Weight d \<le> 1" if "map_of dims n = Some d" for n d
    using map_of_SomeD [OF that] by (intro DefaultWeights_range) force
  from average_bounds(1) [of dims, OF this o2, where counts = counts] have avg: "0 \<le> ?avg" .
  have keys: "map fst dims = weight_names"
    using roll_keys [of qs ?start] roll by (simp add: case_prod_beta comp_def weight_names_def)
  have counted: "0 < counts n" if "n \<in> qs_Category ` set qs" "n \<in> set weight_names" for n
    using roll_counts [of n ?start qs] that roll by (simp add: case_prod_beta comp_def weight_names_def)
  have D: "rp_Dimensions r = map (\<lambda>(n, d). if counts n = 0 then (n, d\<lparr>dm_Score := ?avg\<rparr>) else (n, d)) dims"
    using r roll by (auto simp: Evaluate_def Let_def split: if_splits)
  have "0 \<le> dm_Score d \<and> (n \<in> qs_Category ` set qs \<longrightarrow> dm_Score d \<le> 100)" if "(n, d) \<in> set (rp_Dimensions r)" for n d
  proof -
    have "(n, d) \<in> (\<lambda>(n, d). if counts n = 0 then (n, d\<lparr>dm_Score := ?avg\<rparr>) else (n, d)) ` set dims"
      using that unfolding D set_map .
    then obtain x where "x \<in> set dims"
      "(n, d) = (\<lambda>(n, d). if counts n = 0 then (n, d\<lparr>dm_Score := ?avg\<rparr>) else (n, d)) x" by (elim imageE)
    moreover obtain n0 d0 where "x = (n0, d0)" by fastforce
    moreover have "n0 = n" using calculation by (simp split: if_splits)
    ultimately have d0: "(n, d0) \<in> set dims"
      and d: "d = (if counts n = 0 then d0\<lparr>dm_Score := ?avg\<rparr> else d0)" by (simp_all split: if_splits)
    have "n \<in> set weight_names" using d0 keys by (metis fst_conv image_eqI list.set_map)
    with counted have "n \<in> qs_Category ` set qs \<Longrightarrow> counts n \<noteq> 0" by blast
    then show ?thesis using d dims [OF d0] avg by (cases "counts n = 0") auto
  qed
  with r Evaluate_parts [OF r] Evaluate_overall_bounds [OF r o2] show ?thesis
    by (intro exI [of _ r]) (auto simp: weight_names_def)
qed

lemma accept_scores_error: "accept_scores n seen qs = Inl e \<Longrightarrow> \<exists>m. e = DomainError ''EVAL_SCHEMA'' m"
  by (induction n seen qs rule: accept_scores.induct) (auto split: if_splits simp: and_then_Inl)

lemma accept_scores_length:
  assumes "accept_scores n seen qs = Inr out" shows "length out = length qs" "length out \<le> n"
proof -
  note s = accept_scores_sound [OF assms]
  then have l: "length out = length qs" by (metis length_map)
  have "\<forall>q \<in> set out. 1 \<le> qs_QuestionIdx q \<and> qs_QuestionIdx q \<le> int n" using s by blast
  then have "set (map qs_QuestionIdx out) \<subseteq> {1..int n}" by auto
  then have "card (set (map qs_QuestionIdx out)) \<le> card {1..int n}" by (intro card_mono) simp_all
  moreover have "distinct (map qs_QuestionIdx out)" using s by metis
  ultimately show "length out = length qs" "length out \<le> n" using l distinct_card [of "map qs_QuestionIdx out"] by simp_all
qed

lemma evaluate_transcript_error:
  assumes "mset order1 = mset weight_names" "evaluate_transcript marshal ask order1 order2 pairs = Inl e"
  shows "(\<exists>m. \<exists>code \<in> {''EVAL_PARSE'', ''EVAL_EMPTY'', ''EVAL_SCHEMA''}. e = DomainError code m)
    \<or> (\<exists>c. \<exists>what \<in> {''evaluate'', ''evaluate: marshal transcript'', ''evaluate: marshal output''}. e = Wrapped what c)"
proof -
  have "Evaluate order1 order2 qs DefaultWeights \<noteq> Inl x" for qs x
    using Evaluate_passes [OF weights_check_passes [OF assms(1)], of order2 qs] by auto
  then show ?thesis
    using assms(2) by (auto simp: evaluate_transcript_def Let_def and_then_Inl split: sum.splits if_splits dest: accept_scores_error)
qed

lemma evaluate_transcript_report:
  assumes "mset order1 = mset weight_names" "mset order2 = mset weight_names"
    and "evaluate_transcript marshal ask order1 order2 pairs = Inr r"
  defines "n \<equiv> length (evaluation_window pairs)"
  shows "0 \<le> rp_OverallScore r \<and> rp_OverallScore r \<le> 100 \<and> ValidRecommendation (rp_Recommendation r)
    \<and> rp_PerQuestion r \<noteq> [] \<and> distinct (map qs_QuestionIdx (rp_PerQuestion r))
    \<and> (\<forall>q \<in> set (rp_PerQuestion r). 1 \<le> qs_QuestionIdx q \<and> qs_QuestionIdx q \<le> int n \<and> 0 \<le> qs_Score q \<and> qs_Score q \<le> 100)
    \<and> map fst (rp_Dimensions r) = weight_names
    \<and> (\<forall>(n, d) \<in> set (rp_Dimensions r). 0 \<le> dm_Score d
         \<and> (n \<in> qs_Category ` set (rp_PerQuestion r) \<longrightarrow> dm_Score d \<le> 100))"
proof -
  obtain raw where m: "marshal (evaluation_window pairs) = Inr raw"
    using assms(3) by (cases "marshal (evaluation_window pairs)") (simp_all add: evaluate_transcript_def)
  let ?prompt = "''Transcript (last '' @ itoa_nat n @ '' Q&A):'' @ newline @ raw"
  obtain out where a: "ask ?prompt = Inr (Inr out)"
    using assms(3) m by (cases "ask ?prompt"; cases "projr (ask ?prompt)") (simp_all add: evaluate_transcript_def n_def Let_def)
  obtain scored where d: "dec_schema out = Inr scored"
    using assms(3) m a by (cases "dec_schema out") (simp_all add: evaluate_transcript_def n_def Let_def)
  have e: "es_PerQuestion scored \<noteq> []"
    using assms(3) m a d by (auto simp add: evaluate_transcript_def n_def Let_def)
  have "and_then (accept_scores n [] (es_PerQuestion scored)) (\<lambda>scores.
      and_then (Evaluate order1 order2 scores DefaultWeights) (\<lambda>report.
      Inr (report\<lparr>rp_Strengths := es_Strengths scored, rp_Weaknesses := es_Weaknesses scored,
        rp_Recommendation := (if ValidRecommendation (es_Recommendation scored) then es_Recommendation scored
          else RecommendationReconsider)\<rparr>))) = Inr r"
    using assms(3) m a d e unfolding evaluate_transcript_def n_def Let_def by simp
  then obtain scores report where parts: "es_PerQuestion scored \<noteq> []"
      "accept_scores n [] (es_PerQuestion scored) = Inr scores" "Evaluate order1 order2 scores DefaultWeights = Inr report"
    and r: "r = report\<lparr>rp_Strengths := es_Strengths scored, rp_Weaknesses := es_Weaknesses scored,
      rp_Recommendation := (if ValidRecommendation (es_Recommendation scored) then es_Recommendation scored
        else RecommendationReconsider)\<rparr>"
    using e unfolding and_then_Inr by blast
  note s = accept_scores_sound [OF parts(2)]
  have "length scores \<le> 100"
    using accept_scores_length(2) [OF parts(2)] by (simp add: n_def evaluation_window_def EvalWindow_def split: if_splits)
  then have "length scores \<le> 2 ^ 40" by simp
  from Evaluate_default [OF assms(1,2) this, unfolded parts(3)] s
  have e: "rp_PerQuestion report = scores" "map fst (rp_Dimensions report) = weight_names"
    "0 \<le> rp_OverallScore report" "rp_OverallScore report \<le> 100"
    "\<forall>(n, d) \<in> set (rp_Dimensions report). 0 \<le> dm_Score d \<and> (n \<in> qs_Category ` set scores \<longrightarrow> dm_Score d \<le> 100)"
    by auto
  have "scores \<noteq> []" using parts(1) accept_scores_length(1) [OF parts(2)] by auto
  moreover have "distinct (map qs_QuestionIdx scores)" using s by metis
  moreover have "ValidRecommendation (rp_Recommendation r)" by (simp add: r ValidRecommendation_def)
  ultimately show ?thesis using e s by (simp add: r)
qed

text \<open>
  Property C20. The evaluation report is sound whatever the model answers: with the default weights the sum check
  never fails, in any iteration order of the map; if the evaluator returns a report, then its overall score lies
  between 0 and 100, its verdict is one of the three known ones, the questions it scores are distinct, at least one,
  numbered within the transcript window of at most 100 pairs, each score lies between 0 and 100, and the dimensions
  are exactly the weighted ones, those with a scored question between 0 and 100. If it does not, the error is one of
  the provider's or the encoder's, or EVAL_PARSE, EVAL_EMPTY or EVAL_SCHEMA: never a panic and never EVAL_WEIGHTS.
\<close>

theorem evaluation_report_sound:
  assumes "mset order1 = mset weight_names" "mset order2 = mset weight_names"
  shows "case evaluate_transcript marshal ask order1 order2 pairs of
     Inr r \<Rightarrow> 0 \<le> rp_OverallScore r \<and> rp_OverallScore r \<le> 100 \<and> ValidRecommendation (rp_Recommendation r)
       \<and> rp_PerQuestion r \<noteq> [] \<and> distinct (map qs_QuestionIdx (rp_PerQuestion r))
       \<and> (\<forall>q \<in> set (rp_PerQuestion r). 1 \<le> qs_QuestionIdx q \<and> qs_QuestionIdx q \<le> int (min 100 (length pairs))
            \<and> 0 \<le> qs_Score q \<and> qs_Score q \<le> 100)
       \<and> map fst (rp_Dimensions r) = weight_names
       \<and> (\<forall>(n, d) \<in> set (rp_Dimensions r). 0 \<le> dm_Score d
            \<and> (n \<in> qs_Category ` set (rp_PerQuestion r) \<longrightarrow> dm_Score d \<le> 100))
   | Inl (DomainError code _) \<Rightarrow> code \<in> {''EVAL_PARSE'', ''EVAL_EMPTY'', ''EVAL_SCHEMA''}
   | Inl (Wrapped what _) \<Rightarrow> what \<in> {''evaluate'', ''evaluate: marshal transcript'', ''evaluate: marshal output''}
   | Inl _ \<Rightarrow> False"
proof -
  let ?P = "evaluation_window pairs"
  have window: "length ?P = min 100 (length pairs)" by (simp add: evaluation_window_def EvalWindow_def)
  show ?thesis
  proof (cases "evaluate_transcript marshal ask order1 order2 pairs")
    case (Inl e)
    then show ?thesis using evaluate_transcript_error [OF assms(1) Inl] by auto
  next
    case (Inr r)
    from evaluate_transcript_report [OF assms Inr] show ?thesis unfolding Inr window by auto
  qed
qed


definition demo_answer :: json where
  "demo_answer = JObj [(''per_question'', JArr [JObj [(''question_idx'', JNum ''1''), (''score'', JNum ''180''), (''category'', JStr ''technical'')]]),
     (''recommendation'', JStr ''hire'')]"

lemma demo_accepted:
  "dec_schema demo_answer = Inr \<lparr>es_PerQuestion = [\<lparr>qs_QuestionIdx = 1, qs_Score = 180, qs_Rationale = [], qs_Quotes = [],
     qs_Strengths = [], qs_Weaknesses = [], qs_Category = ''technical''\<rparr>], es_Strengths = [], es_Weaknesses = [],
     es_Recommendation = ''hire''\<rparr>"
proof -
  have "rnd64 180 = 180" using rnd64_int [of 180] by simp
  moreover have "literal_value ''180'' = 180" by code_simp
  ultimately have "parse_float ''180'' = Some 180" by (simp add: parse_float_def max_float_def Let_def)
  then show ?thesis
    by (simp add: demo_answer_def dec_schema_def dec_score_def members_def strings_field_def str_field_def int_field_def to_lower_def
      parse_int_def has_prefix_def is_digit_def digits_value_def byte_def Let_def)
qed


text \<open>A transcript of one answer, scored 180 with the verdict \<open>hire\<close>: the report has 100 and \<open>reconsider\<close>.\<close>

definition demo_report :: "Report result" where
  "demo_report = evaluate_transcript (\<lambda>_. Inr ''[]'') (\<lambda>_. Inr (Inr demo_answer)) weight_names weight_names
     [\<lparr>tp_Idx = 1, tp_Category = ''technical'', tp_Question = ''q'', tp_Answer = ''a''\<rparr>]"

lemma demo_report_exists: "\<exists>r. demo_report = Inr r \<and> map qs_Score (rp_PerQuestion r) = [100] \<and> rp_Recommendation r = ''reconsider''"
proof -
  obtain r where r: "Evaluate weight_names weight_names [\<lparr>qs_QuestionIdx = 1, qs_Score = 100, qs_Rationale = [], qs_Quotes = [],
      qs_Strengths = [], qs_Weaknesses = [], qs_Category = ''technical''\<rparr>] DefaultWeights = Inr r"
    using Evaluate_passes [OF weights_check_passes] by blast
  from Evaluate_parts(1) [OF r] r show ?thesis
    by (simp add: demo_report_def evaluate_transcript_def demo_accepted evaluation_window_def EvalWindow_def clampScore_def
      ValidRecommendation_def RecommendationProceed_def RecommendationReconsider_def RecommendationReject_def Let_def)
qed

theorem evaluation_report_sound_witness:
  "\<exists>r. demo_report = Inr r \<and> map qs_Score (rp_PerQuestion r) = [100] \<and> rp_Recommendation r = ''reconsider''
     \<and> 0 \<le> rp_OverallScore r \<and> rp_OverallScore r \<le> 100"
proof -
  obtain r where r: "demo_report = Inr r" "map qs_Score (rp_PerQuestion r) = [100]" "rp_Recommendation r = ''reconsider''"
    using demo_report_exists by (elim exE conjE) (rule that)
  have "0 \<le> rp_OverallScore r \<and> rp_OverallScore r \<le> 100"
    using evaluation_report_sound [of weight_names weight_names, OF refl refl, where marshal = "\<lambda>_. Inr ''[]''" and ask = "\<lambda>_. Inr (Inr demo_answer)"
      and pairs = "[\<lparr>tp_Idx = 1, tp_Category = ''technical'', tp_Question = ''q'', tp_Answer = ''a''\<rparr>]", folded demo_report_def]
    unfolding r(1) by simp
  then show ?thesis using r by (intro exI [of _ r] conjI) simp_all
qed

end
