(* ===== verification/Sandbox.thy ===== *)
theory Sandbox
  imports Evaluation
begin

text \<open>
  Running a candidate's code: \<open>src/backend/internal/sandbox\<close>. The domain types, the service with its cap on
  simultaneous executions, the gRPC client and server with the conversions on both sides of the wire, and the
  sidecar's runner, which starts one throwaway container per test case.

  Docker is a parameter: what the n-th container does. Every docker command the runner issues is recorded.
  A machine integer that crosses the wire keeps its 32 bits.
\<close>

section \<open>Types\<close>

record TestCase =
  sb_ID :: string
  sb_Input :: string
  sb_ExpectedOutput :: string
  sb_Hidden :: bool

record TestCaseResult =
  sb_TestCase :: TestCase
  sb_ActualOutput :: string
  sb_Passed :: bool
  sb_CaseMs :: int
  sb_CaseError :: string

record ExecutionRequest =
  sb_Language :: string
  sb_Code :: string
  sb_Stdin :: string
  sb_TestCases :: "TestCase list"
  sb_TimeoutSec :: int

record SandboxResult =
  sb_Stdout :: string
  sb_Stderr :: string
  sb_ExitCode :: int
  sb_DurationMs :: int
  sb_AllPassed :: bool
  sb_Error :: string
  sb_TestResults :: "TestCaseResult list"

fun replace_crlf :: "string \<Rightarrow> string" where
  "replace_crlf (a # b # s) = (if a = char_of (13 :: nat) \<and> b = char_of (10 :: nat) then b # replace_crlf s else a # replace_crlf (b # s))"
| "replace_crlf s = s"

definition compareOutputs :: "string \<Rightarrow> string \<Rightarrow> bool" where
  "compareOutputs actual expected \<longleftrightarrow> trim_space (replace_crlf actual) = trim_space (replace_crlf expected)"

section \<open>Base64\<close>

text \<open>\<open>base64.StdEncoding\<close>: six bits a character, padded with equals signs.\<close>

definition alphabet :: string where
  "alphabet = ''ABCDEFGHIJKLMNOPQRSTUVWXYZabcdefghijklmnopqrstuvwxyz0123456789+/''"

definition digit64 :: "nat \<Rightarrow> char" where "digit64 n = alphabet ! n"

fun encode64 :: "string \<Rightarrow> string" where
  "encode64 [] = []"
| "encode64 [a] = [digit64 (byte a div 4), digit64 (byte a mod 4 * 16), CHR ''='', CHR ''='']"
| "encode64 [a, b] = [digit64 (byte a div 4), digit64 (byte a mod 4 * 16 + byte b div 16), digit64 (byte b mod 16 * 4), CHR ''='']"
| "encode64 (a # b # c # s) = digit64 (byte a div 4) # digit64 (byte a mod 4 * 16 + byte b div 16)
     # digit64 (byte b mod 16 * 4 + byte c div 64) # digit64 (byte c mod 64) # encode64 s"

text \<open>What the container's \<open>base64 -d\<close> is documented to do on an encoding.\<close>

definition value64 :: "char \<Rightarrow> nat" where
  "value64 c = length (takeWhile (\<lambda>x. x \<noteq> c) alphabet)"

fun decode64 :: "string \<Rightarrow> string" where
  "decode64 (a # b # c # d # s) =
     (if c = CHR ''='' then [char_of (value64 a * 4 + value64 b div 16)]
      else if d = CHR ''='' then [char_of (value64 a * 4 + value64 b div 16), char_of (value64 b mod 16 * 16 + value64 c div 4)]
      else char_of (value64 a * 4 + value64 b div 16) # char_of (value64 b mod 16 * 16 + value64 c div 4)
        # char_of (value64 c mod 4 * 64 + value64 d) # decode64 s)"
| "decode64 _ = []"

section \<open>The runner\<close>

definition MaxOutputBytes :: nat where "MaxOutputBytes = 64 * 1024"
definition maxPayloadBytes :: nat where "maxPayloadBytes = 512 * 1024"
definition DefaultTimeoutSec :: int where "DefaultTimeoutSec = 10"

record languageSpec =
  ls_image :: string
  ls_filename :: string
  ls_execCmd :: string

definition languageSpecs :: "(string \<times> languageSpec) list" where
  "languageSpecs =
    [(''go'', \<lparr>ls_image = ''intivai-sandbox-go'', ls_filename = ''main.go'', ls_execCmd = ''cd /tmp && go run main.go < /tmp/input.txt''\<rparr>),
     (''python'', \<lparr>ls_image = ''intivai-sandbox-python'', ls_filename = ''main.py'', ls_execCmd = ''cd /tmp && python3 main.py < /tmp/input.txt''\<rparr>),
     (''javascript'', \<lparr>ls_image = ''intivai-sandbox-node'', ls_filename = ''main.js'', ls_execCmd = ''cd /tmp && node main.js < /tmp/input.txt''\<rparr>),
     (''typescript'', \<lparr>ls_image = ''intivai-sandbox-ts'', ls_filename = ''main.ts'', ls_execCmd = ''cd /tmp && tsx main.ts < /tmp/input.txt''\<rparr>)]"

definition dockerRunArgs :: "string \<Rightarrow> string \<Rightarrow> string list \<Rightarrow> string list" where
  "dockerRunArgs img name command =
    [''run'', ''--rm'', ''-i'', ''--name'', name, ''--network=none'', ''--memory=512m'', ''--cpus=1'', ''--pids-limit=128'',
     ''--read-only'', ''--tmpfs'', ''/tmp:rw,size=128m,exec'', ''-e'', ''GOCACHE=/tmp/gocache'', ''-e'', ''GOPATH=/tmp/gopath'',
     ''-e'', ''GOMEMLIMIT=256MiB'', img] @ command"

text \<open>The output buffer: what is kept, and whether something was dropped.\<close>

type_synonym cappedBuffer = "string \<times> bool"

definition buffer_Write :: "string \<Rightarrow> cappedBuffer \<Rightarrow> cappedBuffer" where
  "buffer_Write p = (\<lambda>(buf, dropped). if length buf < MaxOutputBytes
     then (let n = min (length p) (MaxOutputBytes - length buf) in (buf @ take n p, dropped \<or> n < length p))
     else (buf, True))"

definition truncated_mark :: string where "truncated_mark = newline @ ''...[output truncated due to length cap]''"

definition buffer_String :: "cappedBuffer \<Rightarrow> string" where
  "buffer_String = (\<lambda>(buf, dropped). if dropped then buf @ truncated_mark else buf)"

text \<open>
  One container: its writes, how the docker command ended (the exit status of the process, or another failure),
  whether its deadline had passed when the runner looked, before and after the kill, and how long it took.
\<close>

datatype run_error = ExitStatus int string | OtherFailure string

record container =
  ct_Stdout :: "string list"
  ct_Stderr :: "string list"
  ct_Err :: "run_error option"
  ct_Expired :: "bool \<times> bool"
  ct_Ms :: int

datatype docker_command = DockerRun "string list" string | DockerKill string

text \<open>The docker host: names drawn so far, what each container does, the commands issued.\<close>

record docker =
  dk_names :: "nat \<Rightarrow> string"
  dk_run :: "nat \<Rightarrow> string list \<Rightarrow> string \<Rightarrow> container"
  dk_next :: nat
  dk_issued :: "docker_command list"

definition timeout_text :: "int \<Rightarrow> string" where
  "timeout_text timeout = ''Execution timed out ('' @ itoa timeout @ ''s limit exceeded)''"

definition result_of :: "int \<Rightarrow> container \<Rightarrow> SandboxResult" where
  "result_of timeout c =
     (let out = buffer_String (foldl (\<lambda>b p. buffer_Write p b) ([], False) (ct_Stdout c));
          err = buffer_String (foldl (\<lambda>b p. buffer_Write p b) ([], False) (ct_Stderr c));
          r = \<lparr>sb_Stdout = out, sb_Stderr = err, sb_ExitCode = 0, sb_DurationMs = 0, sb_AllPassed = False,
             sb_Error = [], sb_TestResults = []\<rparr>
      in if snd (ct_Expired c) then r\<lparr>sb_Error := timeout_text timeout, sb_ExitCode := - 1\<rparr>
         else (case ct_Err c of
             Some e \<Rightarrow> r\<lparr>sb_ExitCode := (case e of ExitStatus n m \<Rightarrow> n | OtherFailure m \<Rightarrow> 1),
               sb_Error := (if err \<noteq> [] then err else (case e of ExitStatus n m \<Rightarrow> m | OtherFailure m \<Rightarrow> m))\<rparr>
           | None \<Rightarrow> r\<lparr>sb_AllPassed := True\<rparr>))"

definition shell_around :: "languageSpec \<Rightarrow> string \<Rightarrow> string" where
  "shell_around spec input64 = ''cat > /tmp/'' @ ls_filename spec @ ''; echo '' @ input64 @
     '' | base64 -d > /tmp/input.txt; '' @ ls_execCmd spec"

definition shell_line :: "languageSpec \<Rightarrow> string \<Rightarrow> string" where
  "shell_line spec stdin = shell_around spec (encode64 stdin)"

definition runOne :: "languageSpec \<Rightarrow> int \<Rightarrow> string \<Rightarrow> string \<Rightarrow> docker \<Rightarrow> (SandboxResult \<times> int) result \<times> docker" where
  "runOne spec timeout code stdin d =
     (if maxPayloadBytes < length code + length stdin
      then (Inl (Sentinel (''payload too large (max '' @ itoa (int maxPayloadBytes) @ '' bytes)'')), d)
      else (let name = ''sandbox-'' @ take 12 (dk_names d (dk_next d));
                args = dockerRunArgs (ls_image spec) name [''sh'', ''-c'', shell_line spec stdin];
                c = dk_run d (dk_next d) args code
            in (Inr (result_of timeout c, ct_Ms c),
                d\<lparr>dk_next := dk_next d + 1,
                  dk_issued := dk_issued d @ DockerRun args code # (if fst (ct_Expired c) then [DockerKill name] else [])\<rparr>)))"

fun run_cases :: "languageSpec \<Rightarrow> int \<Rightarrow> string \<Rightarrow> TestCase list \<Rightarrow> docker \<Rightarrow> TestCaseResult list result \<times> docker" where
  "run_cases spec timeout code [] d = (Inr [], d)"
| "run_cases spec timeout code (tc # tcs) d = (case runOne spec timeout code (sb_Input tc) d of
     (Inl e, d1) \<Rightarrow> (Inl e, d1)
   | (Inr (res, dur), d1) \<Rightarrow> (case run_cases spec timeout code tcs d1 of
       (Inl e, d2) \<Rightarrow> (Inl e, d2)
     | (Inr rs, d2) \<Rightarrow> (Inr (\<lparr>sb_TestCase = tc, sb_ActualOutput = sb_Stdout res,
          sb_Passed = (sb_ExitCode res = 0 \<and> sb_Error res = [] \<and> compareOutputs (sb_Stdout res) (sb_ExpectedOutput tc)),
          sb_CaseMs = dur, sb_CaseError = sb_Error res\<rparr> # rs), d2)))"

text \<open>\<open>langs\<close> is the order in which the map of languages is listed in the error.\<close>

definition runner_Execute :: "string list \<Rightarrow> ExecutionRequest \<Rightarrow> docker \<Rightarrow> SandboxResult result \<times> docker" where
  "runner_Execute langs req d = (case map_of languageSpecs (sb_Language req) of
     None \<Rightarrow> (Inl (Sentinel (''unsupported language '' @ go_quote (sb_Language req) @ '' (supported: '' @ join_with '', '' langs @ '')'')), d)
   | Some spec \<Rightarrow>
       if trim_space (sb_Code req) = [] then (Inl (Sentinel ''code cannot be empty''), d)
       else (let timeout = (if 0 < sb_TimeoutSec req \<and> sb_TimeoutSec req \<le> 10 then sb_TimeoutSec req else DefaultTimeoutSec) in
         if sb_TestCases req \<noteq> [] then
           (case run_cases spec timeout (sb_Code req) (sb_TestCases req) d of
              (Inl e, d1) \<Rightarrow> (Inl e, d1)
            | (Inr rs, d1) \<Rightarrow> (Inr \<lparr>sb_Stdout = [], sb_Stderr = [], sb_ExitCode = 0, sb_DurationMs = (\<Sum>r\<leftarrow>rs. sb_CaseMs r),
                sb_AllPassed = list_all sb_Passed rs, sb_Error = [], sb_TestResults = rs\<rparr>, d1))
         else (case runOne spec timeout (sb_Code req) (sb_Stdin req) d of
              (Inl e, d1) \<Rightarrow> (Inl e, d1)
            | (Inr (res, dur), d1) \<Rightarrow> (Inr (res\<lparr>sb_DurationMs := dur\<rparr>), d1))))"


section \<open>Over the wire\<close>

definition int32 :: "int \<Rightarrow> int" where
  "int32 n = (n + 2 ^ 31) mod 2 ^ 32 - 2 ^ 31"

record pb_TestCaseResult =
  pb_TestCaseId :: string
  pb_Input :: string
  pb_ExpectedOutput :: string
  pb_ActualOutput :: string
  pb_Passed :: bool
  pb_DurationMs :: int
  pb_Error :: string

record pb_ExecutionResult =
  pr_Stdout :: string
  pr_Stderr :: string
  pr_ExitCode :: int
  pr_DurationMs :: int
  pr_AllPassed :: bool
  pr_Error :: string
  pr_TestResults :: "pb_TestCaseResult list"

text \<open>The request on the wire has the fields of the request; its timeout has 32 bits.\<close>

definition client_request :: "ExecutionRequest \<Rightarrow> ExecutionRequest" where
  "client_request req = req\<lparr>sb_TimeoutSec := int32 (sb_TimeoutSec req)\<rparr>"

definition pb_case :: "TestCaseResult \<Rightarrow> pb_TestCaseResult" where
  "pb_case r = \<lparr>pb_TestCaseId = sb_ID (sb_TestCase r), pb_Input = sb_Input (sb_TestCase r),
     pb_ExpectedOutput = sb_ExpectedOutput (sb_TestCase r), pb_ActualOutput = sb_ActualOutput r, pb_Passed = sb_Passed r,
     pb_DurationMs = sb_CaseMs r, pb_Error = sb_CaseError r\<rparr>"

definition server_Execute :: "string list \<Rightarrow> ExecutionRequest \<Rightarrow> docker \<Rightarrow> pb_ExecutionResult result \<times> docker" where
  "server_Execute langs req d = (case runner_Execute langs req d of
     (Inl e, d1) \<Rightarrow> (Inl e, d1)
   | (Inr r, d1) \<Rightarrow> (Inr \<lparr>pr_Stdout = sb_Stdout r, pr_Stderr = sb_Stderr r, pr_ExitCode = int32 (sb_ExitCode r),
        pr_DurationMs = sb_DurationMs r, pr_AllPassed = sb_AllPassed r, pr_Error = sb_Error r,
        pr_TestResults = map pb_case (sb_TestResults r)\<rparr>, d1))"

definition unpb_case :: "pb_TestCaseResult \<Rightarrow> TestCaseResult" where
  "unpb_case r = \<lparr>sb_TestCase = \<lparr>sb_ID = pb_TestCaseId r, sb_Input = pb_Input r, sb_ExpectedOutput = pb_ExpectedOutput r,
       sb_Hidden = False\<rparr>,
     sb_ActualOutput = pb_ActualOutput r, sb_Passed = pb_Passed r, sb_CaseMs = pb_DurationMs r, sb_CaseError = pb_Error r\<rparr>"

text \<open>\<open>rpc\<close> is the transport: it may fail before the server sees the call, or after it has served it.\<close>

datatype rpc = Delivered | Unsent error | Unanswered error

definition client_Execute :: "rpc \<Rightarrow> string list \<Rightarrow> ExecutionRequest \<Rightarrow> docker \<Rightarrow> SandboxResult result \<times> docker" where
  "client_Execute link langs req d =
     (let failed = (\<lambda>e. Inl (Wrapped ''sandbox sidecar'' e)) in
      case link of
        Unsent e \<Rightarrow> (failed e, d)
      | Unanswered e \<Rightarrow> (failed e, snd (server_Execute langs (client_request req) d))
      | Delivered \<Rightarrow> (case server_Execute langs (client_request req) d of
            (Inl e, d1) \<Rightarrow> (failed e, d1)
          | (Inr r, d1) \<Rightarrow> (Inr \<lparr>sb_Stdout = pr_Stdout r, sb_Stderr = pr_Stderr r, sb_ExitCode = pr_ExitCode r,
              sb_DurationMs = pr_DurationMs r, sb_AllPassed = pr_AllPassed r, sb_Error = pr_Error r,
              sb_TestResults = map unpb_case (pr_TestResults r)\<rparr>, d1)))"

section \<open>The service\<close>

definition maxConcurrentExecutions :: nat where "maxConcurrentExecutions = 4"
definition maxTestCasesPerRequest :: nat where "maxTestCasesPerRequest = 20"

text \<open>\<open>Execute\<close> up to the runner, and after it: \<open>held\<close> is the number of slots of the semaphore in use.\<close>

definition ErrSandboxBusy :: error where
  "ErrSandboxBusy = DomainError ''SANDBOX_BUSY'' ''too many sandbox executions in progress; try again in a moment''"

definition svc_Execute :: "ExecutionRequest \<Rightarrow> nat \<Rightarrow> ExecutionRequest result \<times> nat" where
  "svc_Execute req held = (if held < maxConcurrentExecutions
     then (Inr (if maxTestCasesPerRequest < length (sb_TestCases req)
         then req\<lparr>sb_TestCases := take maxTestCasesPerRequest (sb_TestCases req)\<rparr> else req), held + 1)
     else (Inl ErrSandboxBusy, held))"

definition svc_ExecuteDone :: "nat \<Rightarrow> nat" where "svc_ExecuteDone held = held - 1"

record AICodeReview =
  ar_TimeComplexity :: string
  ar_SpaceComplexity :: string
  ar_QualityScore :: int
  ar_Summary :: string
  ar_Strengths :: "string list"
  ar_Improvements :: "string list"

definition dec_review :: "json \<Rightarrow> AICodeReview result" where
  "dec_review v =
     and_then (as_object ''review'' v) (\<lambda>o1.
     and_then (str_field ''time_complexity'' o1 []) (\<lambda>t.
     and_then (str_field ''space_complexity'' o1 []) (\<lambda>s.
     and_then (int_field ''quality_score'' o1 0) (\<lambda>q.
     and_then (str_field ''summary'' o1 []) (\<lambda>m.
     and_then (strings_field ''strengths'' o1) (\<lambda>st.
     and_then (strings_field ''improvements'' o1) (\<lambda>im.
     Inr \<lparr>ar_TimeComplexity = t, ar_SpaceComplexity = s, ar_QualityScore = q, ar_Summary = m, ar_Strengths = st,
       ar_Improvements = im\<rparr>)))))))"

text \<open>\<open>ask\<close> is the structured completion, if a provider is configured; its output may fail to encode.\<close>

definition EvaluateCode :: "(string \<Rightarrow> json result result) option \<Rightarrow> string \<Rightarrow> string \<Rightarrow> string \<Rightarrow> AICodeReview result" where
  "EvaluateCode llm language code problem = (case llm of
     None \<Rightarrow> Inr \<lparr>ar_TimeComplexity = ''N/A'', ar_SpaceComplexity = ''N/A'', ar_QualityScore = 0,
       ar_Summary = ''AI evaluation skipped due to missing provider configuration.'', ar_Strengths = [], ar_Improvements = []\<rparr>
   | Some ask \<Rightarrow> (case ask (''Problem Description: '' @ problem @ newline @ newline @ ''Language: '' @ language
          @ newline @ newline @ ''Candidate Code:'' @ newline @ code) of
       Inl e \<Rightarrow> Inl (Wrapped ''ai code review failed'' e)
     | Inr (Inl e) \<Rightarrow> Inl (Wrapped ''marshal ai review'' e)
     | Inr (Inr out) \<Rightarrow> (case dec_review out of
         Inl e \<Rightarrow> Inl (Wrapped ''unmarshal ai review'' e)
       | Inr review \<Rightarrow> Inr (review\<lparr>ar_QualityScore := (if ar_QualityScore review < 0 then 0
            else if 100 < ar_QualityScore review then 100 else ar_QualityScore review)\<rparr>))))"


section \<open>Inputs are data\<close>

lemma alphabet_length [simp]: "length alphabet = 64"
  by (simp add: alphabet_def)

lemma alphabet_distinct: "distinct alphabet"
  by (simp add: alphabet_def)

lemma digit64_in: "n < 64 \<Longrightarrow> digit64 n \<in> set alphabet"
  by (simp add: digit64_def)

lemma no_padding: "n < 64 \<Longrightarrow> digit64 n \<noteq> CHR ''=''"
proof
  assume "n < 64" "digit64 n = CHR ''=''"
  then have "CHR ''='' \<in> set alphabet" using digit64_in by metis
  then show False by (simp add: alphabet_def)
qed

lemma takeWhile_nth_distinct: "distinct xs \<Longrightarrow> n < length xs \<Longrightarrow> length (takeWhile (\<lambda>x. x \<noteq> xs ! n) xs) = n"
proof (induction xs arbitrary: n)
  case (Cons x xs)
  then show ?case by (cases n) auto
qed simp

lemma value64_digit64 [simp]: "n < 64 \<Longrightarrow> value64 (digit64 n) = n"
  unfolding value64_def digit64_def by (rule takeWhile_nth_distinct [OF alphabet_distinct]) simp

lemma byte_less [simp]: "byte c < 256"
  by (simp add: byte_def)

lemma char_of_byte [simp]: "char_of (byte c) = c"
  by (simp add: byte_def)

lemma byte_parts [simp]: "byte a div 4 < 64" "byte a div 16 < 16" "byte a div 64 < 4"
  using byte_less [of a] by (simp_all add: less_mult_imp_div_less)

lemma six_bits: "byte a div 4 < 64" "byte a mod 4 * 16 < 64" "byte a mod 4 * 16 + byte b div 16 < 64" "byte b mod 16 * 4 < 64"
  "byte b mod 16 * 4 + byte c div 64 < 64" "byte c mod 64 < 64"
proof -
  have "byte a mod 4 < 4" "byte b mod 16 < 16" "byte b div 16 < 16" "byte c div 64 < 4" by simp_all
  then show "byte a div 4 < 64" "byte a mod 4 * 16 < 64" "byte a mod 4 * 16 + byte b div 16 < 64" "byte b mod 16 * 4 < 64"
    "byte b mod 16 * 4 + byte c div 64 < 64" "byte c mod 64 < 64" using byte_parts(1) [of a] by linarith+
qed

lemma packed: "y < (n :: nat) \<Longrightarrow> (x * n + y) div n = x" "y < n \<Longrightarrow> (x * n + y) mod n = y"
  by simp_all

lemma bytes_again: "byte a div 4 * 4 + (byte a mod 4 * 16 + byte b div 16) div 16 = byte a"
  "(byte a mod 4 * 16 + byte b div 16) mod 16 * 16 + (byte b mod 16 * 4 + byte c div 64) div 4 = byte b"
  "(byte b mod 16 * 4 + byte c div 64) mod 4 * 64 + byte c mod 64 = byte c"
  "byte a div 4 * 4 + byte a mod 4 * 16 div 16 = byte a"
  "(byte a mod 4 * 16 + byte b div 16) mod 16 * 16 + byte b mod 16 * 4 div 4 = byte b"
  by (simp_all only: packed byte_parts div_mult_mod_eq nonzero_mult_div_cancel_right zero_neq_numeral numeral_neq_zero simp_thms)

lemma base64_round_trip: "decode64 (encode64 s) = s"
proof (induction s rule: encode64.induct)
  case (2 a)
  then show ?case by (simp add: six_bits bytes_again)
next
  case (3 a b)
  then show ?case by (simp add: six_bits no_padding bytes_again)
next
  case (4 a b c s)
  then show ?case by (simp add: six_bits no_padding bytes_again)
qed simp

definition plain64 :: "string \<Rightarrow> bool" where
  "plain64 s \<longleftrightarrow> list_all (\<lambda>c. c \<in> set alphabet \<or> c = CHR ''='') s"

lemma encode64_plain: "plain64 (encode64 s)"
  by (induction s rule: encode64.induct) (simp_all add: plain64_def digit64_in six_bits)

text \<open>A hardened command for one of the inputs, or the kill of a container that was started.\<close>

definition runs_input :: "string \<Rightarrow> string set \<Rightarrow> docker_command \<Rightarrow> bool" where
  "runs_input code inputs c = (case c of
     DockerKill name \<Rightarrow> has_prefix name ''sandbox-''
   | DockerRun args stdin \<Rightarrow> stdin = code \<and> (\<exists>spec \<in> snd ` set languageSpecs. \<exists>name input b64.
       input \<in> inputs \<and> length code + length input \<le> maxPayloadBytes \<and> plain64 b64 \<and> decode64 b64 = input
       \<and> has_prefix name ''sandbox-''
       \<and> args = dockerRunArgs (ls_image spec) name [''sh'', ''-c'', shell_around spec b64]))"

definition issues :: "docker \<Rightarrow> (docker_command \<Rightarrow> bool) \<Rightarrow> docker \<Rightarrow> bool" where
  "issues d ok d' \<longleftrightarrow> (\<exists>new. dk_issued d' = dk_issued d @ new \<and> list_all ok new)"

lemma issues_refl [simp]: "issues d ok d"
  by (simp add: issues_def)

lemma issues_trans: "issues d ok d1 \<Longrightarrow> issues d1 ok d2 \<Longrightarrow> issues d ok d2"
  by (auto simp: issues_def)

lemma snd_mapped:
  "snd (case x of (Inl e, d1) \<Rightarrow> (Inl e, d1) | (Inr r, d1) \<Rightarrow> (Inr (f r), d1)) = snd x"
  by (cases x; cases "fst x") auto

lemma snd_mapped_pair:
  "snd (case x of (Inl e, d1) \<Rightarrow> (Inl e, d1) | (Inr (r, t), d1) \<Rightarrow> (Inr (f r t), d1)) = snd x"
  by (cases x; cases "fst x") auto

lemma runs_input_run:
  assumes "spec \<in> snd ` set languageSpecs" "input \<in> inputs" "length code + length input \<le> maxPayloadBytes"
  shows "runs_input code inputs
    (DockerRun (dockerRunArgs (ls_image spec) (''sandbox-'' @ n) [''sh'', ''-c'', shell_line spec input]) code)"
  unfolding runs_input_def docker_command.case shell_line_def
  by (intro conjI refl bexI [OF _ assms(1)] exI [of _ "''sandbox-'' @ n"] exI [of _ input] exI [of _ "encode64 input"]
    assms(2,3) encode64_plain base64_round_trip) (simp add: has_prefix_def)

lemma runOne_issues:
  assumes "spec \<in> snd ` set languageSpecs" "input \<in> inputs"
  shows "issues d (runs_input code inputs) (snd (runOne spec timeout code input d))"
proof (cases "maxPayloadBytes < length code + length input")
  case False
  then have "runs_input code inputs
    (DockerRun (dockerRunArgs (ls_image spec) (''sandbox-'' @ n) [''sh'', ''-c'', shell_line spec input]) code)" for n
    by (intro runs_input_run assms) simp
  moreover have "runs_input code inputs (DockerKill (''sandbox-'' @ n))" for n
    unfolding runs_input_def docker_command.case has_prefix_def by simp
  ultimately show ?thesis using False unfolding issues_def runOne_def Let_def
    by (simp del: append.simps)
qed (simp add: runOne_def)

lemma run_cases_issues:
  assumes "spec \<in> snd ` set languageSpecs" "sb_Input ` set tcs \<subseteq> inputs"
  shows "issues d (runs_input code inputs) (snd (run_cases spec timeout code tcs d))"
  using assms(2)
proof (induction tcs arbitrary: d)
  case (Cons tc tcs)
  have "issues d (runs_input code inputs) (snd (runOne spec timeout code (sb_Input tc) d))"
    by (rule runOne_issues [OF assms(1)]) (use Cons.prems in simp)
  then show ?case using Cons.IH Cons.prems
    by (auto split: prod.splits sum.splits) (metis issues_trans snd_conv)+
qed simp



section \<open>Results\<close>

lemma buffer_writes:
  assumes "[] \<notin> set ps" "b = (take MaxOutputBytes x, MaxOutputBytes < length x)"
  shows "foldl (\<lambda>b p. buffer_Write p b) b ps = (take MaxOutputBytes (x @ concat ps), MaxOutputBytes < length (x @ concat ps))"
  using assms
proof (induction ps arbitrary: b x)
  case (Cons p ps)
  have "buffer_Write p b = (take MaxOutputBytes (x @ p), MaxOutputBytes < length (x @ p))"
    using Cons.prems by (auto simp: buffer_Write_def Let_def min_def)
  from Cons.IH [OF _ this] Cons.prems(1) show ?case by simp
qed simp

text \<open>The output of a container: at most 64 KB of what it wrote, marked when cut.\<close>

definition capped :: "string \<Rightarrow> string" where
  "capped s = (if MaxOutputBytes < length s then take MaxOutputBytes s @ truncated_mark else s)"

lemma buffer_String_writes:
  assumes "[] \<notin> set ps"
  shows "buffer_String (foldl (\<lambda>b p. buffer_Write p b) ([], False) ps) = capped (concat ps)"
  using buffer_writes [OF assms, of "([], False)" "[]"] by (simp add: buffer_String_def capped_def)

definition well_behaved :: "container \<Rightarrow> bool" where
  "well_behaved c \<longleftrightarrow> [] \<notin> set (ct_Stdout c) \<and> [] \<notin> set (ct_Stderr c)
     \<and> (case ct_Err c of Some (ExitStatus n m) \<Rightarrow> n \<noteq> 0 | _ \<Rightarrow> True)"

definition container_of :: "languageSpec \<Rightarrow> string \<Rightarrow> docker \<Rightarrow> nat \<Rightarrow> string \<Rightarrow> container" where
  "container_of spec code d n input = dk_run d n
     (dockerRunArgs (ls_image spec) (''sandbox-'' @ take 12 (dk_names d n)) [''sh'', ''-c'', shell_line spec input]) code"

lemma result_of_well_behaved:
  assumes "well_behaved c"
  shows "sb_Stdout (result_of t c) = capped (concat (ct_Stdout c))"
    "sb_ExitCode (result_of t c) = 0 \<and> sb_Error (result_of t c) = [] \<longleftrightarrow> \<not> snd (ct_Expired c) \<and> ct_Err c = None"
  using assms buffer_String_writes [of "ct_Stdout c"]
  by (auto simp: well_behaved_def result_of_def Let_def timeout_text_def split: option.splits run_error.splits)

lemma runOne_InrD:
  assumes "runOne spec t code input d = (Inr (res, ms), d')"
  shows "res = result_of t (container_of spec code d (dk_next d) input)" "ms = ct_Ms (container_of spec code d (dk_next d) input)"
    "dk_next d' = dk_next d + 1" "dk_run d' = dk_run d" "dk_names d' = dk_names d"
  using assms by (auto simp: runOne_def container_of_def Let_def split: if_splits)

lemma run_cases_InrD:
  "run_cases spec t code tcs d = (Inr rs, d') \<Longrightarrow>
     map sb_TestCase rs = tcs \<and> dk_next d' = dk_next d + length tcs
     \<and> (\<forall>i < length tcs. let res = result_of t (container_of spec code d (dk_next d + i) (sb_Input (tcs ! i))) in
          sb_ActualOutput (rs ! i) = sb_Stdout res
          \<and> sb_Passed (rs ! i) = (sb_ExitCode res = 0 \<and> sb_Error res = [] \<and> compareOutputs (sb_Stdout res) (sb_ExpectedOutput (tcs ! i))))"
proof (induction tcs arbitrary: d rs)
  case (Cons tc tcs)
  from Cons.prems obtain res ms d1 rs1 where r1: "runOne spec t code (sb_Input tc) d = (Inr (res, ms), d1)"
    and r2: "run_cases spec t code tcs d1 = (Inr rs1, d')"
    and rs: "rs = \<lparr>sb_TestCase = tc, sb_ActualOutput = sb_Stdout res,
          sb_Passed = (sb_ExitCode res = 0 \<and> sb_Error res = [] \<and> compareOutputs (sb_Stdout res) (sb_ExpectedOutput tc)),
          sb_CaseMs = ms, sb_CaseError = sb_Error res\<rparr> # rs1"
    by (auto split: prod.splits sum.splits)
  note o = runOne_InrD [OF r1]
  have c: "container_of spec code d1 n x = container_of spec code d n x" for n x
    using o by (simp add: container_of_def)
  note ih = Cons.IH [OF r2, unfolded o(3) c]
  show ?case
  proof (intro conjI)
    show "map sb_TestCase rs = tc # tcs" using rs ih by simp
    show "dk_next d' = dk_next d + length (tc # tcs)" using ih by simp
  next
    show "\<forall>i < length (tc # tcs). let res = result_of t (container_of spec code d (dk_next d + i) (sb_Input ((tc # tcs) ! i))) in
          sb_ActualOutput (rs ! i) = sb_Stdout res
          \<and> sb_Passed (rs ! i) = (sb_ExitCode res = 0 \<and> sb_Error res = [] \<and> compareOutputs (sb_Stdout res) (sb_ExpectedOutput ((tc # tcs) ! i)))"
      unfolding length_Cons All_less_Suc2 using ih o(1) rs by (simp add: Let_def)
  qed
qed simp


lemma runner_cases_InrD:
  assumes "runner_Execute langs req d = (Inr r, d')" "sb_TestCases req \<noteq> []"
  obtains spec t where "map_of languageSpecs (sb_Language req) = Some spec"
    "run_cases spec t (sb_Code req) (sb_TestCases req) d = (Inr (sb_TestResults r), d')"
    "sb_AllPassed r = list_all sb_Passed (sb_TestResults r)"
  using assms unfolding runner_Execute_def
  by (fastforce simp: Let_def split: option.splits if_splits prod.splits sum.splits)


definition demo_container :: "nat \<Rightarrow> container" where
  "demo_container n = \<lparr>ct_Stdout = [''42'', newline], ct_Stderr = [], ct_Err = (if n = 0 then None else Some (ExitStatus 1 ''exit status 1'')),
     ct_Expired = (False, False), ct_Ms = 7\<rparr>"

definition demo_docker :: docker where
  "demo_docker = \<lparr>dk_names = \<lambda>n. ''0123456789abcdef'', dk_run = \<lambda>n args stdin. demo_container n, dk_next = 0, dk_issued = []\<rparr>"

definition demo_code_run :: ExecutionRequest where
  "demo_code_run = \<lparr>sb_Language = ''python'', sb_Code = ''print(42)'', sb_Stdin = [], sb_TestCases =
     [\<lparr>sb_ID = ''a'', sb_Input = ''1'', sb_ExpectedOutput = ''42'', sb_Hidden = False\<rparr>,
      \<lparr>sb_ID = ''b'', sb_Input = ''2'', sb_ExpectedOutput = ''42'', sb_Hidden = True\<rparr>], sb_TimeoutSec = 5\<rparr>"

lemma demo_code_runs:
  "\<exists>r d'. runner_Execute [] demo_code_run demo_docker = (Inr r, d') \<and> map sb_Passed (sb_TestResults r) = [True, False]
     \<and> sb_ExitCode r = 0"
proof -
  have c: "sb_ExitCode (result_of t (demo_container 0)) = 0" "sb_Error (result_of t (demo_container 0)) = []"
    "sb_Stdout (result_of t (demo_container 0)) = ''42'' @ newline" "sb_ExitCode (result_of t (demo_container (Suc 0))) \<noteq> 0" for t
    by (simp_all add: demo_container_def result_of_def buffer_String_def buffer_Write_def MaxOutputBytes_def newline_def Let_def)
  have o: "compareOutputs (''42'' @ newline) ''42''" by code_simp
  have t: "trim_space ''print(42)'' \<noteq> []" by code_simp
  show ?thesis
    using c o t by (simp add: runner_Execute_def demo_code_run_def demo_docker_def languageSpecs_def runOne_def maxPayloadBytes_def
      Let_def split: prod.splits)
qed


section \<open>The remote call\<close>

definition hide_hidden :: "TestCaseResult \<Rightarrow> TestCaseResult" where
  "hide_hidden r = r\<lparr>sb_TestCase := (sb_TestCase r)\<lparr>sb_Hidden := False\<rparr>\<rparr>"

lemma pb_case_round_trip: "unpb_case (pb_case r) = hide_hidden r"
  by (simp add: unpb_case_def pb_case_def hide_hidden_def)

lemma int32_id: "- (2 ^ 31) \<le> n \<Longrightarrow> n < 2 ^ 31 \<Longrightarrow> int32 n = n"
  by (simp add: int32_def)

text \<open>
  Property C23. The trip over the wire loses nothing but the hidden marks: when the transport delivers, the client gets
  exactly what the runner answers to the request it sent, with every exit code in the 32-bit range and every timeout
  unchanged in it, and the test cases no longer marked as hidden; an error of the runner comes back as an error, and
  whatever the transport does, the containers of at most one execution were started.
\<close>

theorem remote_execution_transparent:
  assumes "- (2 ^ 31) \<le> sb_TimeoutSec req" "sb_TimeoutSec req < 2 ^ 31"
    and "\<And>r d'. runner_Execute langs req d = (Inr r, d') \<Longrightarrow> - (2 ^ 31) \<le> sb_ExitCode r \<and> sb_ExitCode r < 2 ^ 31"
  shows "client_Execute Delivered langs req d = (case runner_Execute langs req d of
      (Inl e, d') \<Rightarrow> (Inl (Wrapped ''sandbox sidecar'' e), d')
    | (Inr r, d') \<Rightarrow> (Inr (r\<lparr>sb_TestResults := map hide_hidden (sb_TestResults r)\<rparr>), d'))
    \<and> snd (client_Execute link langs req d) \<in> {d, snd (runner_Execute langs req d)}"
proof -
  have req: "client_request req = req" by (simp add: client_request_def int32_id [OF assms(1,2)])
  obtain x d' where x: "runner_Execute langs req d = (x, d')" by fastforce
  have "client_Execute Delivered langs req d = (case runner_Execute langs req d of
      (Inl e, d') \<Rightarrow> (Inl (Wrapped ''sandbox sidecar'' e), d')
    | (Inr r, d') \<Rightarrow> (Inr (r\<lparr>sb_TestResults := map hide_hidden (sb_TestResults r)\<rparr>), d'))"
    using assms(3) x
    by (cases x) (simp_all add: client_Execute_def server_Execute_def req Let_def int32_id comp_def pb_case_round_trip)
  moreover have "snd (client_Execute link langs req d) \<in> {d, snd (runner_Execute langs req d)}"
    by (cases link; cases x) (simp_all add: client_Execute_def server_Execute_def req x Let_def)
  ultimately show ?thesis by blast
qed

lemma remote_execution_transparent_witness:
  "\<exists>r d'. client_Execute Delivered [] demo_code_run demo_docker = (Inr r, d') \<and> map sb_Passed (sb_TestResults r) = [True, False]
     \<and> map (sb_Hidden \<circ> sb_TestCase) (sb_TestResults r) = [False, False]"
proof -
  obtain r d' where r: "runner_Execute [] demo_code_run demo_docker = (Inr r, d')" "map sb_Passed (sb_TestResults r) = [True, False]"
    "sb_ExitCode r = 0"
    using demo_code_runs by (elim exE conjE) (rule that)
  have "client_Execute Delivered [] demo_code_run demo_docker = (Inr (r\<lparr>sb_TestResults := map hide_hidden (sb_TestResults r)\<rparr>), d')"
    using remote_execution_transparent [of demo_code_run "[]" demo_docker] r by (simp add: demo_code_run_def)
  moreover have "map (sb_Passed \<circ> hide_hidden) (sb_TestResults r) = [True, False]"
    using r(2) by (auto simp: hide_hidden_def map_eq_Cons_conv)
  moreover have "map (sb_Hidden \<circ> sb_TestCase \<circ> hide_hidden) (sb_TestResults r) = [False, False]"
    using r(2) by (auto simp: hide_hidden_def map_eq_Cons_conv)
  ultimately show ?thesis by (auto simp: comp_def)
qed

end
