(* ===== verification/Session.thy ===== *)
theory Session
  imports Interview_Promises Sandbox
begin

text \<open>
  One candidate's connection: \<open>src/backend/internal/interview/application/session\<close> and the read loop of
  \<open>interview/api/chat_handler.go\<close>.

  Goroutines of a connection: the read loop, the stream of one answer's response, the answer to one candidate
  question, one code run, the debounced touch. Each is cut at the points where it waits for something outside
  (a frame, the language model, the sandbox, the end of another goroutine); a step of the model runs one of them
  from one such point to the next. What a step meets outside is its event and the \<open>engine\<close> record, which may
  differ from step to step: the service's operations at that instant, whether a model is configured, the clock.
\<close>

section \<open>Remaining time\<close>

text \<open>
  \<open>SessionRemaining\<close>: the variable is set inside the transaction, so it keeps its value when the commit fails.
\<close>

definition remaining_of :: "time \<Rightarrow> Interview result \<Rightarrow> int" where
  "remaining_of now r = (case r of Inl e \<Rightarrow> int_seconds MaxInterviewDuration | Inr iv \<Rightarrow> SessionRemaining now iv)"

definition svc_SessionRemaining :: "time \<Rightarrow> uuid \<Rightarrow> uuid \<Rightarrow> 'm iv_state \<Rightarrow> int \<times> 'm iv_state" where
  "svc_SessionRemaining now orgID interviewID d =
     ((if in_tx d then remaining_of now (fst (iv_GetByID interviewID d))
       else (case next_fault d of
          (Some e, d1) \<Rightarrow> int_seconds MaxInterviewDuration
        | (None, d1) \<Rightarrow> remaining_of now (fst (bindE (SetTenant orgID) (\<lambda>_. iv_GetByID interviewID)
             (d1\<lparr>in_tx := True, aborted := False, saved := [], pending := []\<rparr>))))),
      snd (RunInTx orgID (bindE (attempt (iv_GetByID interviewID)) (\<lambda>_. ret ())) d))"

section \<open>The interface\<close>

record 'w service =
  sv_ProcessTopicDialogue :: "uuid \<Rightarrow> uuid \<Rightarrow> string \<Rightarrow> string \<Rightarrow> PacingMetrics option \<Rightarrow> ('w, TopicDialogueResult) op"
  sv_SessionRemaining :: "uuid \<Rightarrow> uuid \<Rightarrow> 'w \<Rightarrow> int \<times> 'w"
  sv_TouchInterview :: "uuid \<Rightarrow> uuid \<Rightarrow> ('w, unit) op"
  sv_RecordTelemetry :: "uuid \<Rightarrow> uuid \<Rightarrow> ProctoringEvent \<Rightarrow> ('w, unit) op"
  sv_RecordCandidateQA :: "uuid \<Rightarrow> uuid \<Rightarrow> string \<Rightarrow> string \<Rightarrow> ('w, unit) op"
  sv_CandidateQARemaining :: "uuid \<Rightarrow> uuid \<Rightarrow> ('w, int) op"
  sv_CurrentState :: "uuid \<Rightarrow> uuid \<Rightarrow> ('w, Question option \<times> nat \<times> Status) op"
  sv_Transcript :: "uuid \<Rightarrow> uuid \<Rightarrow> ('w, TranscriptPair list) op"
  sv_EvaluateAndPersist :: "uuid \<Rightarrow> uuid \<Rightarrow> string \<Rightarrow> ('w, unit) op"
  sv_EnqueueEvaluation :: "uuid \<Rightarrow> uuid \<Rightarrow> ('w, unit) op"
  sv_RecordCodingSession :: "uuid \<Rightarrow> uuid \<Rightarrow> CodingSession \<Rightarrow> ('w, unit) op"

text \<open>The interview service, at a clock of the process and one of the database.\<close>

definition interview_service :: "externals \<Rightarrow> time \<Rightarrow> time \<Rightarrow> 'm iv_state service" where
  "interview_service x now dbnow =
    \<lparr>sv_ProcessTopicDialogue = svc_ProcessTopicDialogue x now dbnow,
     sv_SessionRemaining = svc_SessionRemaining now,
     sv_TouchInterview = TouchInterview dbnow,
     sv_RecordTelemetry = RecordTelemetry dbnow,
     sv_RecordCandidateQA = RecordCandidateQA x now dbnow,
     sv_CandidateQARemaining = CandidateQARemaining x now dbnow,
     sv_CurrentState = CurrentState now,
     sv_Transcript = Transcript,
     sv_EvaluateAndPersist = EvaluateAndPersist dbnow,
     sv_EnqueueEvaluation = EnqueueEvaluation x,
     sv_RecordCodingSession = svc_RecordCodingSession dbnow\<rparr>"

record 'w engine =
  en_svc :: "'w service"
  en_llm :: bool
  en_CountTokens :: "string \<Rightarrow> int"
  en_Ask :: "string \<Rightarrow> json result result"
  en_MarshalPairs :: "TranscriptPair list \<Rightarrow> string result"
  en_MarshalReport :: "Report \<Rightarrow> string result"
  en_Orders :: "string list \<times> string list"
  en_Scan :: "string \<Rightarrow> json result"
  en_ParseTime :: "string \<Rightarrow> time result"
  en_Now :: time
  en_CodeRunner :: bool
  en_AcquireCodeRun :: "bool option"

section \<open>State\<close>

definition MaxSandboxTestCases :: nat where "MaxSandboxTestCases = 20"
definition maxWSFrameBytes :: nat where "maxWSFrameBytes = 512 * 1024"
definition DefaultTokenBudget :: int where "DefaultTokenBudget = 8000"

record TurnState =
  ts_QuestionSent :: bool
  ts_Next :: "Question option"
  ts_Total :: nat
  ts_RemainingSec :: int
  ts_IsTopicComplete :: bool
  ts_TopicTurn :: nat
  ts_MaxTopicTurns :: nat

text \<open>The goroutine of a response: its arguments, whether the model's stream is open, the tokens so far.\<close>

record stream =
  st_answer :: string
  st_next :: "Question option"
  st_open :: bool
  st_cancelled :: bool
  st_final :: string

datatype reader = Reading | InterruptWaits | ResumeWaits | Left

datatype qa_task = QAStarts string | QAAsks string

text \<open>
  The response goroutine works on the turn the session points to: no other turn is installed while it runs
  (an answer is refused, an interrupt and a resume wait for it). \<open>s_live\<close>: the connection's context is not cancelled.
\<close>

record session =
  s_orgID :: uuid
  s_interviewID :: uuid
  s_sessionID :: string
  s_prompt :: string
  s_qaContext :: string
  s_groundingUnavailable :: bool
  s_history :: "ContextMessage list"
  s_lastQuestion :: "Question option"
  s_questionInHistory :: bool
  s_archetype :: string
  s_lastTouch :: time
  s_touchTimer :: bool
  s_streamCancel :: bool
  s_streamDone :: bool
  s_turn :: "TurnState option"
  s_turnActive :: bool
  s_qaActive :: bool
  s_codeRunActive :: bool
  s_stream :: "stream option"
  s_qa :: "qa_task option"
  s_run :: "CodeRunMessage option"
  s_slot :: bool
  s_reader :: reader
  s_live :: bool
  s_sent :: "server_message list"

definition NewSession :: "uuid \<Rightarrow> uuid \<Rightarrow> string \<Rightarrow> string \<Rightarrow> string \<Rightarrow> bool \<Rightarrow> ContextMessage list \<Rightarrow> session" where
  "NewSession orgID interviewID sessionID prompt qaContext groundingUnavailable history =
    \<lparr>s_orgID = orgID, s_interviewID = interviewID, s_sessionID = sessionID, s_prompt = prompt, s_qaContext = qaContext,
     s_groundingUnavailable = groundingUnavailable, s_history = history, s_lastQuestion = None, s_questionInHistory = False,
     s_archetype = [], s_lastTouch = zero_time, s_touchTimer = False, s_streamCancel = False, s_streamDone = False,
     s_turn = None, s_turnActive = False, s_qaActive = False, s_codeRunActive = False, s_stream = None, s_qa = None,
     s_run = None, s_slot = False, s_reader = Reading, s_live = True, s_sent = []\<rparr>"

section \<open>Frames\<close>

definition error_frame :: "error \<Rightarrow> server_message" where
  "error_frame e = ErrorFrame (case as_domain e of None \<Rightarrow> [] | Some (c, m) \<Rightarrow> c) (error_text e)"

definition QARefusal :: "string \<Rightarrow> string \<Rightarrow> server_message" where
  "QARefusal question message = QAAnswer question message True"

definition isErrInterviewNotActive :: "error \<Rightarrow> bool" where
  "isErrInterviewNotActive e \<longleftrightarrow> (case as_domain e of None \<Rightarrow> False | Some (c, m) \<Rightarrow> c = ''INTERVIEW_NOT_ACTIVE'')"

definition send :: "server_message \<Rightarrow> session \<Rightarrow> session" where
  "send f s = (if s_live s then s\<lparr>s_sent := s_sent s @ [f]\<rparr> else s)"

definition onQuestion :: "Question \<Rightarrow> session \<Rightarrow> session" where
  "onQuestion q s = s\<lparr>s_lastQuestion := Some q, s_questionInHistory := False, s_archetype := fst (DetermineQuestionArchetype q)\<rparr>"

definition question_frame :: "TurnState \<Rightarrow> Question \<Rightarrow> server_message" where
  "question_frame t q = QuestionFrame \<lparr>qm_Content = q_Content q, qm_Idx = q_Idx q, qm_TotalQuestions = ts_Total t,
     qm_IsProbe = q_IsProbe q, qm_Archetype = fst (DetermineQuestionArchetype q), qm_TimeLimitSec = snd (DetermineQuestionArchetype q),
     qm_SessionRemainingSec = ts_RemainingSec t, qm_TopicTurn = 1, qm_MaxTopicTurns = ts_MaxTopicTurns t\<rparr>"

definition SendQuestionOnce :: "TurnState \<Rightarrow> session \<Rightarrow> session" where
  "SendQuestionOnce t s = (if ts_QuestionSent t \<or> \<not> ts_IsTopicComplete t then s
     else (case ts_Next t of None \<Rightarrow> s
       | Some q \<Rightarrow> onQuestion q (send (question_frame t q) (s\<lparr>s_turn := Some (t\<lparr>ts_QuestionSent := True\<rparr>)\<rparr>))))"

definition turn_state :: "TopicDialogueResult \<Rightarrow> int \<Rightarrow> TurnState" where
  "turn_state res rem = \<lparr>ts_QuestionSent = False, ts_Next = tdr_NextQuestion res, ts_Total = tdr_TotalQuestions res,
     ts_RemainingSec = rem, ts_IsTopicComplete = tdr_IsTopicComplete res, ts_TopicTurn = tdr_CurrentTurn res,
     ts_MaxTopicTurns = tdr_MaxTurns res\<rparr>"

definition transition_error :: "TopicDialogueResult \<Rightarrow> session \<Rightarrow> session" where
  "transition_error res s = (case tdr_TransitionErr res of None \<Rightarrow> s | Some e \<Rightarrow> send (error_frame e) s)"


section \<open>Evaluation\<close>

definition pending_frame :: server_message where "pending_frame = Evaluation [] 0 [] EvalPending"

definition PendingEvaluation :: "'w engine \<Rightarrow> session \<times> 'w \<Rightarrow> session \<times> 'w" where
  "PendingEvaluation en = (\<lambda>(s, w). case sv_EnqueueEvaluation (en_svc en) (s_orgID s) (s_interviewID s) w of
     (r, w') \<Rightarrow> (send pending_frame s, w'))"

definition evaluation_frame :: "Report \<Rightarrow> server_message" where
  "evaluation_frame report = Evaluation (map (\<lambda>(n, d). (n, dm_Score d)) (rp_Dimensions report)) (rp_OverallScore report)
     (rp_Recommendation report) EvalComplete"

definition SendEvaluation :: "'w engine \<Rightarrow> session \<times> 'w \<Rightarrow> session \<times> 'w" where
  "SendEvaluation en = (\<lambda>(s, w).
     if \<not> en_llm en then PendingEvaluation en (s, w)
     else (case sv_Transcript (en_svc en) (s_orgID s) (s_interviewID s) w of
       (Inl e, w1) \<Rightarrow> PendingEvaluation en (s, w1)
     | (Inr pairs, w1) \<Rightarrow>
       (case evaluate_transcript (en_MarshalPairs en) (en_Ask en) (fst (en_Orders en)) (snd (en_Orders en)) pairs of
          Inl e \<Rightarrow> PendingEvaluation en (s, w1)
        | Inr report \<Rightarrow> (case en_MarshalReport en report of
            Inl e \<Rightarrow> PendingEvaluation en (s, w1)
          | Inr raw \<Rightarrow> (case sv_EvaluateAndPersist (en_svc en) (s_orgID s) (s_interviewID s) raw w1 of
              (Inl e, w2) \<Rightarrow> PendingEvaluation en (s, w2)
            | (Inr u, w2) \<Rightarrow> (send (evaluation_frame report) s, w2))))))"

section \<open>The response to an answer\<close>

definition quoted :: "string \<Rightarrow> string" where
  "quoted t = char_of (34 :: nat) # t @ [char_of (34 :: nat)]"

definition topic_prompt :: "Question option \<Rightarrow> string" where
  "topic_prompt lastQ = (case lastQ of None \<Rightarrow> ''the current question''
     | Some q \<Rightarrow> ''Question '' @ itoa_nat (q_Idx q) @ '': '' @ quoted (q_Content q))"

definition turn_instruction :: "Question option \<Rightarrow> string \<Rightarrow> Question option \<Rightarrow> TurnState \<Rightarrow> string" where
  "turn_instruction lastQ answer nxt t =
     (if \<not> ts_IsTopicComplete t then
        ''You are an expert AI technical interviewer currently exploring '' @ topic_prompt lastQ @
        '' with the candidate (Turn '' @ itoa_nat (ts_TopicTurn t) @ '' of '' @ itoa_nat (ts_MaxTopicTurns t) @ '').'' @ newline @
        ''The candidate just replied: '' @ quoted answer @ ''.'' @ newline @ newline @ ''Instructions:'' @ newline @
        ''1. If the candidate asked a clarifying question (e.g. scoping, expected scale, assumptions), answer it directly, clearly, and concisely without advancing or changing the topic.'' @ newline @
        ''2. If the candidate gave a technical solution, acknowledge their specific points and probe deeper into trade-offs, race conditions, edge cases, failure modes, or bottlenecks on THIS SAME TOPIC.'' @ newline @
        ''3. Keep your response focused and conversational (2-4 sentences). Do NOT transition to any other question.''
      else (case nxt of
        Some q \<Rightarrow> ''The discussion on the previous question is now finalized. Briefly acknowledge the candidate''
          @ [char_of (39 :: nat)] @ ''s final response and provide a natural, 1-sentence transition to the next topic: ''
          @ quoted (q_Content q) @ ''. Do NOT ask the next question yourself.''
      | None \<Rightarrow> ''The entire technical interview is now complete. Thank the candidate warmly for their time and conclude the session. Do NOT ask any further questions.''))"

definition stream_messages :: "session \<Rightarrow> stream \<Rightarrow> TurnState \<Rightarrow> ContextMessage list" where
  "stream_messages s st t = \<lparr>cm_Role = RoleSystem, cm_Content = s_prompt s\<rparr> # TrimContext (s_history s) DefaultContextWindow
     @ [\<lparr>cm_Role = RoleSystem, cm_Content = turn_instruction (s_lastQuestion s) (st_answer st) (st_next st) t\<rparr>]"

text \<open>The end of the goroutine: its deferred statements.\<close>

definition end_stream :: "session \<Rightarrow> session" where
  "end_stream s = s\<lparr>s_stream := None, s_turnActive := False\<rparr>"

text \<open>The branches that do without the model: an error frame, then the next question or the evaluation.\<close>

definition stream_fallback :: "'w engine \<Rightarrow> string \<Rightarrow> stream \<Rightarrow> TurnState \<Rightarrow> session \<times> 'w \<Rightarrow> session \<times> 'w" where
  "stream_fallback en message st t = (\<lambda>(s, w).
     (let s1 = SendQuestionOnce t (send (ErrorFrame [] message) s);
          (s2, w2) = (if ts_IsTopicComplete t \<and> st_next st = None then SendEvaluation en (s1, w) else (s1, w))
      in (end_stream s2, w2)))"

text \<open>Up to the open stream; \<open>opened\<close> is what \<open>ChatStream\<close> returns.\<close>

definition stream_open :: "'w engine \<Rightarrow> unit result \<Rightarrow> stream \<Rightarrow> TurnState \<Rightarrow> session \<times> 'w \<Rightarrow> session \<times> 'w" where
  "stream_open en opened st t = (\<lambda>(s, w).
     if ExceedsBudget (stream_messages s st t) DefaultTokenBudget (if en_llm en then en_CountTokens en else (\<lambda>_. 0))
     then stream_fallback en ''context budget exceeded'' st t (s, w)
     else if \<not> en_llm en then stream_fallback en ''llm unavailable'' st t (s, w)
     else (case opened of
         Inl e \<Rightarrow> stream_fallback en ''llm unavailable'' st t (s, w)
       | Inr u \<Rightarrow> (s\<lparr>s_stream := Some (st\<lparr>st_open := True\<rparr>)\<rparr>, w)))"

definition stream_token :: "string \<Rightarrow> stream \<Rightarrow> session \<Rightarrow> session" where
  "stream_token tok st s = send (Token tok) (s\<lparr>s_stream := Some (st\<lparr>st_final := st_final st @ tok\<rparr>)\<rparr>)"

definition response_frame :: "stream \<Rightarrow> TurnState \<Rightarrow> server_message" where
  "response_frame st t = Response \<lparr>rm_Content = st_final st, rm_IsTopicComplete = ts_IsTopicComplete t,
     rm_TopicTurn = ts_TopicTurn t, rm_MaxTopicTurns = ts_MaxTopicTurns t\<rparr>"

text \<open>After the last token.\<close>

definition stream_close :: "'w engine \<Rightarrow> stream \<Rightarrow> TurnState \<Rightarrow> session \<times> 'w \<Rightarrow> session \<times> 'w" where
  "stream_close en st t = (\<lambda>(s, w).
     if st_cancelled st then (end_stream s, w)
     else (let s1 = (if ts_IsTopicComplete t then s
                 else s\<lparr>s_history := s_history s @ [\<lparr>cm_Role = RoleAssistant, cm_Content = st_final st\<rparr>]\<rparr>);
               s2 = send (response_frame st t) s1;
               (s3, w3) = (if ts_IsTopicComplete t
                 then (let s' = SendQuestionOnce t s2 in if st_next st = None then SendEvaluation en (s', w) else (s', w))
                 else (s2, w))
           in (end_stream s3, w3)))"


section \<open>The read loop\<close>

definition SendStartAndQuestion :: "'w engine \<Rightarrow> session \<times> 'w \<Rightarrow> session \<times> 'w" where
  "SendStartAndQuestion en = (\<lambda>(s, w). case sv_CurrentState (en_svc en) (s_orgID s) (s_interviewID s) w of
     (Inl e, w1) \<Rightarrow> (send (error_frame e) s, w1)
   | (Inr (nxt, n, status), w1) \<Rightarrow>
       (let (rem, w2) = sv_SessionRemaining (en_svc en) (s_orgID s) (s_interviewID s) w1;
            s1 = send (InterviewStart (s_sessionID s) n (int_seconds MaxInterviewDuration)) s
        in (case nxt of
            Some q \<Rightarrow> if status = InProgress
              then (onQuestion q (send (QuestionFrame \<lparr>qm_Content = q_Content q, qm_Idx = q_Idx q, qm_TotalQuestions = n,
                 qm_IsProbe = q_IsProbe q, qm_Archetype = fst (DetermineQuestionArchetype q),
                 qm_TimeLimitSec = snd (DetermineQuestionArchetype q), qm_SessionRemainingSec = rem, qm_TopicTurn = 1,
                 qm_MaxTopicTurns = MaxTurnsPerTopic\<rparr>) s1), w2)
              else (s1, w2)
          | None \<Rightarrow> (s1, w2))))"

text \<open>\<open>streamCancel\<close>, if one is stored.\<close>

definition cancel_stream :: "session \<Rightarrow> session" where
  "cancel_stream s = (if s_streamCancel s then s\<lparr>s_stream := map_option (\<lambda>st. st\<lparr>st_cancelled := True\<rparr>) (s_stream s)\<rparr> else s)"

definition stream_joined :: "session \<Rightarrow> bool" where
  "stream_joined s \<longleftrightarrow> (s_streamDone s \<longrightarrow> s_stream s = None)"

definition HandleResume :: "'w engine \<Rightarrow> session \<times> 'w \<Rightarrow> session \<times> 'w" where
  "HandleResume en = (\<lambda>(s, w).
     SendStartAndQuestion en (s\<lparr>s_streamDone := False, s_streamCancel := False, s_turn := None, s_reader := Reading\<rparr>, w))"

definition interrupted_answer :: string where "interrupted_answer = ''The candidate interrupted the AI response.''"

text \<open>The end of an interrupt: what the turn still owes the candidate.\<close>

definition interrupt_dispatch :: "'w engine \<Rightarrow> TurnState \<Rightarrow> session \<times> 'w \<Rightarrow> session \<times> 'w" where
  "interrupt_dispatch en t = (\<lambda>(s, w).
     (let (s1, w1) = (if ts_Next t \<noteq> None then (SendQuestionOnce t s, w)
                      else if ts_IsTopicComplete t then SendEvaluation en (s, w) else (s, w))
      in (s1\<lparr>s_turn := None\<rparr>, w1)))"

definition HandleInterrupt :: "'w engine \<Rightarrow> session \<times> 'w \<Rightarrow> session \<times> 'w" where
  "HandleInterrupt en = (\<lambda>(s0, w).
     (let s = send (Response \<lparr>rm_Content = ''Interrupted.'', rm_IsTopicComplete = False, rm_TopicTurn = 0, rm_MaxTopicTurns = 0\<rparr>)
                (s0\<lparr>s_streamDone := False, s_streamCancel := False, s_reader := Reading\<rparr>)
      in (case s_turn s of
          None \<Rightarrow> (s, w)
        | Some t \<Rightarrow>
            if ts_QuestionSent t then (s\<lparr>s_turn := None\<rparr>, w)
            else if ts_IsTopicComplete t then interrupt_dispatch en t (s, w)
            else (case sv_ProcessTopicDialogue (en_svc en) (s_orgID s) (s_interviewID s) interrupted_answer advance None w of
                (Inl e, w1) \<Rightarrow> ((send (error_frame e) s)\<lparr>s_turn := None\<rparr>, w1)
              | (Inr res, w1) \<Rightarrow>
                  (let s1 = transition_error res s;
                       (rem, w2) = sv_SessionRemaining (en_svc en) (s_orgID s) (s_interviewID s) w1;
                       t1 = turn_state res rem
                   in interrupt_dispatch en t1 (s1\<lparr>s_turn := Some t1\<rparr>, w2))))))"

definition touch_now :: "'w engine \<Rightarrow> session \<times> 'w \<Rightarrow> session \<times> 'w" where
  "touch_now en = (\<lambda>(s, w). (s\<lparr>s_lastTouch := en_Now en\<rparr>, snd (sv_TouchInterview (en_svc en) (s_orgID s) (s_interviewID s) w)))"

definition DebouncedTouch :: "'w engine \<Rightarrow> session \<times> 'w \<Rightarrow> session \<times> 'w" where
  "DebouncedTouch en = (\<lambda>(s, w). if 500000000 < time_sub (en_Now en) (s_lastTouch s) \<and> \<not> s_touchTimer s
     then touch_now en (s, w) else (s\<lparr>s_touchTimer := True\<rparr>, w))"

definition HandleTelemetry :: "'w engine \<Rightarrow> TelemetryMessage \<Rightarrow> session \<times> 'w \<Rightarrow> session \<times> 'w" where
  "HandleTelemetry en m = (\<lambda>(s, w).
     (let parsed = (if tm_Timestamp m = [] then zero_time
            else (case en_ParseTime en (tm_Timestamp m) of Inl e \<Rightarrow> zero_time | Inr t \<Rightarrow> t));
          event = \<lparr>pe_Type = tm_EventType m, pe_Timestamp = (if parsed = zero_time then en_Now en else parsed),
            pe_QuestionIdx = tm_QuestionIdx m, pe_Details = tm_Details m\<rparr>
      in (s, snd (sv_RecordTelemetry (en_svc en) (s_orgID s) (s_interviewID s) event w))))"

text \<open>The read loop has returned: the deferred \<open>Close\<close>, then the teardown of the writer cancels everything.\<close>

definition leave :: "session \<Rightarrow> session" where
  "leave s = (let s1 = cancel_stream (s\<lparr>s_touchTimer := False\<rparr>) in
     s1\<lparr>s_streamCancel := False, s_reader := Left, s_live := False,
        s_stream := map_option (\<lambda>st. st\<lparr>st_cancelled := True\<rparr>) (s_stream s1)\<rparr>)"

definition remember_answer :: "string \<Rightarrow> session \<Rightarrow> session" where
  "remember_answer content s =
     (let user = \<lparr>cm_Role = RoleUser, cm_Content = content\<rparr> in
      case s_lastQuestion s of
        Some q \<Rightarrow> if \<not> s_questionInHistory s
          then s\<lparr>s_history := s_history s @ [\<lparr>cm_Role = RoleAssistant, cm_Content = q_Content q\<rparr>, user], s_questionInHistory := True\<rparr>
          else s\<lparr>s_history := s_history s @ [user]\<rparr>
      | None \<Rightarrow> s\<lparr>s_history := s_history s @ [user]\<rparr>)"

definition turn_in_progress :: error where
  "turn_in_progress = DomainError ErrCodeTurnInProgress ''previous answer is still being processed; wait for the response or interrupt''"

definition HandleAnswer :: "'w engine \<Rightarrow> AnswerMessage \<Rightarrow> session \<times> 'w \<Rightarrow> session \<times> 'w" where
  "HandleAnswer en m = (\<lambda>(s, w).
     if s_turnActive s then (send (error_frame turn_in_progress) s, w)
     else (case sv_ProcessTopicDialogue (en_svc en) (s_orgID s) (s_interviewID s) (am_Content m) (am_Action m) (am_Pacing m) w of
         (Inl e, w1) \<Rightarrow> (leave (send (error_frame e) s), w1)
       | (Inr res, w1) \<Rightarrow>
           (let s1 = remember_answer (am_Content m) (transition_error res (s\<lparr>s_turnActive := True\<rparr>));
                (rem, w2) = sv_SessionRemaining (en_svc en) (s_orgID s) (s_interviewID s) w1
            in (s1\<lparr>s_turn := Some (turn_state res rem), s_streamCancel := True, s_streamDone := True,
                  s_stream := Some \<lparr>st_answer = am_Content m, st_next = tdr_NextQuestion res, st_open = False,
                    st_cancelled = False, st_final = []\<rparr>\<rparr>, w2))))"


section \<open>Questions of the candidate\<close>

definition qa_limit_text :: string where
  "qa_limit_text = ''You'' @ [char_of (39 :: nat)] @ ''ve reached the limit of questions I can answer about this role for this interview. A recruiter will follow up with any further details.''"

definition qa_ended_text :: string where
  "qa_ended_text = ''This interview has ended, so I can'' @ [char_of (39 :: nat)] @ ''t answer further questions. A recruiter will follow up.''"

definition HandleCandidateQuestion :: "string \<Rightarrow> session \<Rightarrow> session" where
  "HandleCandidateQuestion q s = (if s_qaActive s
     then send (QARefusal q (''Please wait '' @ map char_of [226, 128, 148 :: nat] @ '' I'' @ [char_of (39 :: nat)] @ ''m still answering your previous question.'')) s
     else s\<lparr>s_qaActive := True, s_qa := Some (QAStarts q)\<rparr>)"

text \<open>The end of the goroutine: one frame, and the slot is free again.\<close>

definition qa_done :: "server_message \<Rightarrow> session \<Rightarrow> session" where
  "qa_done f s = (send f s)\<lparr>s_qa := None, s_qaActive := False\<rparr>"

text \<open>Up to the language model.\<close>

definition qa_check :: "'w engine \<Rightarrow> string \<Rightarrow> session \<times> 'w \<Rightarrow> session \<times> 'w" where
  "qa_check en q = (\<lambda>(s, w). case sv_CandidateQARemaining (en_svc en) (s_orgID s) (s_interviewID s) w of
     (Inl e, w1) \<Rightarrow> (qa_done (QARefusal q (if isErrInterviewNotActive e then qa_ended_text
        else ''Sorry, I could not process that question right now.'')) s, w1)
   | (Inr remaining, w1) \<Rightarrow>
       if remaining \<le> 0 then (qa_done (QARefusal q qa_limit_text) s, w1)
       else if s_groundingUnavailable s then
         (qa_done (QARefusal q (''I can'' @ [char_of (39 :: nat)] @ ''t answer questions about this role right now. A recruiter will help you with the details.'')) s, w1)
       else if \<not> en_llm en then
         (qa_done (QARefusal q (''I can'' @ [char_of (39 :: nat)] @ ''t answer questions right now. A recruiter will help you with any details.'')) s, w1)
       else (s\<lparr>s_qa := Some (QAAsks q)\<rparr>, w1))"

text \<open>With the model's reply.\<close>

definition qa_reply :: "'w engine \<Rightarrow> string result \<Rightarrow> string \<Rightarrow> session \<times> 'w \<Rightarrow> session \<times> 'w" where
  "qa_reply en resp q = (\<lambda>(s, w).
     let failed = QARefusal q (''Sorry, I couldn'' @ [char_of (39 :: nat)] @ ''t retrieve an answer right now.'') in
     case resp of
       Inl e \<Rightarrow> (qa_done failed s, w)
     | Inr content \<Rightarrow>
         (let answer = (if trim_space content = [] then ''I'' @ [char_of (39 :: nat)] @ ''m unable to answer that from the information I have. A recruiter can help with more detail.''
                else trim_space content)
          in (case sv_RecordCandidateQA (en_svc en) (s_orgID s) (s_interviewID s) q answer w of
              (Inl e, w1) \<Rightarrow> (qa_done (if err_is e ErrQALimitExceeded then QARefusal q qa_limit_text
                 else if err_is e ErrInterviewNotActive then QARefusal q qa_ended_text else failed) s, w1)
            | (Inr u, w1) \<Rightarrow> (qa_done (QAAnswer q answer False) s, w1))))"

section \<open>Code runs\<close>

definition code_error :: "string \<Rightarrow> server_message" where
  "code_error e = CodeResult \<lparr>er_Stdout = [], er_Stderr = [], er_ExitCode = 0, er_DurationMs = 0, er_AllPassed = False,
     er_TestResults = [], er_Error = e\<rparr>"

definition HandleCodeRun :: "'w engine \<Rightarrow> CodeRunMessage \<Rightarrow> session \<Rightarrow> session" where
  "HandleCodeRun en m s =
     (if s_archetype s \<noteq> ArchetypeCoding then send (code_error ''code execution is only allowed on coding challenges'') s
      else if s_codeRunActive s then send (code_error ''a code execution is already in progress; please wait for it to finish'') s
      else if en_AcquireCodeRun en = Some False then send (code_error ''sandbox is busy; please try running again in a moment'') s
      else s\<lparr>s_codeRunActive := True, s_run := Some m, s_slot := (en_AcquireCodeRun en = Some True)\<rparr>)"

definition code_request :: "CodeRunMessage \<Rightarrow> ExecutionRequest" where
  "code_request m = \<lparr>sb_Language = cr_Language m, sb_Code = cr_Code m, sb_Stdin = cr_Stdin m,
     sb_TestCases = map (\<lambda>tc. \<lparr>sb_ID = tc_ID tc, sb_Input = tc_Input tc, sb_ExpectedOutput = tc_ExpectedOutput tc,
       sb_Hidden = tc_Hidden tc\<rparr>) (take MaxSandboxTestCases (cr_TestCases m)), sb_TimeoutSec = 0\<rparr>"

definition code_result :: "SandboxResult \<Rightarrow> ExecutionResult" where
  "code_result r = \<lparr>er_Stdout = sb_Stdout r, er_Stderr = sb_Stderr r, er_ExitCode = sb_ExitCode r, er_DurationMs = sb_DurationMs r,
     er_AllPassed = sb_AllPassed r,
     er_TestResults = map (\<lambda>tr. \<lparr>tr_ID = sb_ID (sb_TestCase tr), tr_Passed = sb_Passed tr, tr_ActualOutput = sb_ActualOutput tr,
       tr_ExpectedOutput = sb_ExpectedOutput (sb_TestCase tr), tr_Error = sb_CaseError tr\<rparr>) (sb_TestResults r),
     er_Error = sb_Error r\<rparr>"

text \<open>\<open>execute\<close>: what the code runner returns for the request, possibly a nil response without an error.\<close>

definition runCode :: "'w engine \<Rightarrow> (ExecutionRequest \<Rightarrow> SandboxResult option result) \<Rightarrow> CodeRunMessage \<Rightarrow> session \<times> 'w \<Rightarrow> session \<times> 'w" where
  "runCode en execute m = (\<lambda>(s0, w).
     let s = s0\<lparr>s_run := None, s_codeRunActive := False, s_slot := False\<rparr> in
     if \<not> en_CodeRunner en then (send (code_error ''code execution is unavailable'') s, w)
     else (case execute (code_request m) of
         Inl e \<Rightarrow> (send (code_error ''code execution unavailable; please retry'') s, w)
       | Inr None \<Rightarrow> (send (code_error ''code execution unavailable; please retry'') s, w)
       | Inr (Some r) \<Rightarrow>
           (send (CodeResult (code_result r)) s,
            snd (sv_RecordCodingSession (en_svc en) (s_orgID s) (s_interviewID s)
              \<lparr>cs_QuestionIdx = cr_QuestionIdx m, cs_Language = cr_Language m, cs_Code = cr_Code m,
               cs_FinalResult = Some (code_result r), cs_AICodeReview = None, cs_SubmittedAt = []\<rparr> w))))"

section \<open>Steps\<close>

text \<open>\<open>ReadFails\<close>: the deadline of the socket, or another error.\<close>

datatype ses_event =
    ReadFrame string
  | ReadFails bool
  | ReaderContinues
  | StreamOpens "unit result"
  | StreamToken string
  | StreamEnds
  | QAStep
  | QAReply "string result"
  | CodeStep "ExecutionRequest \<Rightarrow> SandboxResult option result"
  | TouchTimer

datatype 'a outcome = Next 'a | Disabled | Panic

definition handle_frame :: "'w engine \<Rightarrow> client_message \<Rightarrow> session \<times> 'w \<Rightarrow> session \<times> 'w" where
  "handle_frame en m = (\<lambda>(s, w). case m of
     Ping \<Rightarrow> (send Pong s, w)
   | Resume sid \<Rightarrow> if sid \<noteq> s_sessionID s then (send (ErrorFrame [] ''session mismatch'') s, w)
       else ((cancel_stream s)\<lparr>s_reader := ResumeWaits\<rparr>, w)
   | Telemetry t \<Rightarrow> HandleTelemetry en t (s, w)
   | CodeChange c \<Rightarrow> DebouncedTouch en (s, w)
   | CodeRun c \<Rightarrow> (HandleCodeRun en c s, w)
   | Answer a \<Rightarrow> HandleAnswer en a (s, w)
   | CandidateQuestion q \<Rightarrow> (HandleCandidateQuestion q s, w)
   | Interrupt \<Rightarrow> ((cancel_stream s)\<lparr>s_reader := InterruptWaits\<rparr>, w))"

definition read_frame :: "'w engine \<Rightarrow> string \<Rightarrow> session \<times> 'w \<Rightarrow> session \<times> 'w" where
  "read_frame en raw = (\<lambda>(s, w).
     if maxWSFrameBytes < length raw then (send (ErrorFrame [] ''frame too large'') s, w)
     else (case ParseClientMessage (en_Scan en) raw of
         Inl e \<Rightarrow> (send (ErrorFrame [] ''invalid message'') s, w)
       | Inr m \<Rightarrow> handle_frame en m (s, w)))"

text \<open>A response goroutine that finds no turn dereferences nil.\<close>

definition with_turn :: "session \<times> 'w \<Rightarrow> bool \<Rightarrow> (stream \<Rightarrow> TurnState \<Rightarrow> session \<times> 'w) \<Rightarrow> (session \<times> 'w) outcome" where
  "with_turn c isopen k = (case s_stream (fst c) of
     None \<Rightarrow> Disabled
   | Some st \<Rightarrow> if st_open st \<noteq> isopen then Disabled
       else (case s_turn (fst c) of None \<Rightarrow> Panic | Some t \<Rightarrow> Next (k st t)))"

fun ses_step :: "'w engine \<Rightarrow> ses_event \<Rightarrow> session \<times> 'w \<Rightarrow> (session \<times> 'w) outcome" where
  "ses_step en (ReadFrame raw) (s, w) = (if s_reader s = Reading then Next (read_frame en raw (s, w)) else Disabled)"
| "ses_step en (ReadFails timeout) (s, w) = (if s_reader s = Reading
     then Next (leave (if timeout then send (ErrorFrame [] ''question timeout'') s else s), w) else Disabled)"
| "ses_step en ReaderContinues (s, w) = (if \<not> stream_joined s then Disabled
     else (case s_reader s of
         InterruptWaits \<Rightarrow> Next (HandleInterrupt en (s, w))
       | ResumeWaits \<Rightarrow> Next (HandleResume en (s, w))
       | _ \<Rightarrow> Disabled))"
| "ses_step en (StreamOpens r) (s, w) = with_turn (s, w) False (\<lambda>st t. stream_open en r st t (s, w))"
| "ses_step en (StreamToken tok) (s, w) = with_turn (s, w) True (\<lambda>st t. (stream_token tok st s, w))"
| "ses_step en StreamEnds (s, w) = with_turn (s, w) True (\<lambda>st t. stream_close en st t (s, w))"
| "ses_step en QAStep (s, w) = (case s_qa s of Some (QAStarts q) \<Rightarrow> Next (qa_check en q (s, w)) | _ \<Rightarrow> Disabled)"
| "ses_step en (QAReply r) (s, w) = (case s_qa s of Some (QAAsks q) \<Rightarrow> Next (qa_reply en r q (s, w)) | _ \<Rightarrow> Disabled)"
| "ses_step en (CodeStep execute) (s, w) = (case s_run s of Some m \<Rightarrow> Next (runCode en execute m (s, w)) | None \<Rightarrow> Disabled)"
| "ses_step en TouchTimer (s, w) = (if s_touchTimer s then Next (touch_now en (s\<lparr>s_touchTimer := False\<rparr>, w)) else Disabled)"

text \<open>What a connection can reach; \<open>ok\<close> constrains the services, models and clocks it meets.\<close>

inductive ses_reach :: "('w engine \<Rightarrow> bool) \<Rightarrow> session \<times> 'w \<Rightarrow> session \<times> 'w \<Rightarrow> bool" for ok :: "'w engine \<Rightarrow> bool" and c0 where
  connected: "ok en \<Longrightarrow> ses_reach ok c0 (SendStartAndQuestion en c0)"
| stepped: "ses_reach ok c0 c \<Longrightarrow> ok en \<Longrightarrow> ses_step en e c = Next c' \<Longrightarrow> ses_reach ok c0 c'"

end
