(* ===== verification/Session_Guarantees.thy ===== *)
theory Session_Guarantees
  imports Session
begin

text \<open>
  What a connection keeps (\<open>ses_inv\<close>, over every step of every goroutine), what it owes the candidate when a turn
  ends, and that every request it accepts is answered once.
\<close>

section \<open>Fields that a step leaves alone\<close>

lemma send_simps [simp]:
  "s_turn (send f s) = s_turn s" "s_turnActive (send f s) = s_turnActive s" "s_stream (send f s) = s_stream s"
  "s_streamDone (send f s) = s_streamDone s" "s_streamCancel (send f s) = s_streamCancel s" "s_reader (send f s) = s_reader s"
  "s_live (send f s) = s_live s" "s_qa (send f s) = s_qa s" "s_qaActive (send f s) = s_qaActive s" "s_run (send f s) = s_run s"
  "s_codeRunActive (send f s) = s_codeRunActive s" "s_slot (send f s) = s_slot s" "s_orgID (send f s) = s_orgID s"
  "s_interviewID (send f s) = s_interviewID s" "s_lastQuestion (send f s) = s_lastQuestion s" "s_history (send f s) = s_history s" "s_groundingUnavailable (send f s) = s_groundingUnavailable s"
  by (simp_all add: send_def)

lemma onQuestion_simps [simp]:
  "s_turn (onQuestion q s) = s_turn s" "s_turnActive (onQuestion q s) = s_turnActive s" "s_stream (onQuestion q s) = s_stream s"
  "s_streamDone (onQuestion q s) = s_streamDone s" "s_streamCancel (onQuestion q s) = s_streamCancel s"
  "s_reader (onQuestion q s) = s_reader s" "s_live (onQuestion q s) = s_live s" "s_qa (onQuestion q s) = s_qa s"
  "s_qaActive (onQuestion q s) = s_qaActive s" "s_run (onQuestion q s) = s_run s"
  "s_codeRunActive (onQuestion q s) = s_codeRunActive s" "s_slot (onQuestion q s) = s_slot s"
  "s_orgID (onQuestion q s) = s_orgID s" "s_interviewID (onQuestion q s) = s_interviewID s"
  "s_lastQuestion (onQuestion q s) = Some q" "s_sent (onQuestion q s) = s_sent s" "s_history (onQuestion q s) = s_history s"
  by (simp_all add: onQuestion_def)

lemma remember_answer_simps [simp]:
  "s_turnActive (remember_answer a s) = s_turnActive s" "s_stream (remember_answer a s) = s_stream s"
  "s_reader (remember_answer a s) = s_reader s" "s_live (remember_answer a s) = s_live s" "s_qa (remember_answer a s) = s_qa s"
  "s_qaActive (remember_answer a s) = s_qaActive s" "s_run (remember_answer a s) = s_run s"
  "s_codeRunActive (remember_answer a s) = s_codeRunActive s" "s_slot (remember_answer a s) = s_slot s"
  "s_orgID (remember_answer a s) = s_orgID s" "s_interviewID (remember_answer a s) = s_interviewID s"
  "s_sent (remember_answer a s) = s_sent s" "s_turn (remember_answer a s) = s_turn s"
  by (simp_all add: remember_answer_def Let_def split: option.splits)

lemma transition_error_simps [simp]:
  "s_turn (transition_error r s) = s_turn s" "s_turnActive (transition_error r s) = s_turnActive s"
  "s_stream (transition_error r s) = s_stream s" "s_streamDone (transition_error r s) = s_streamDone s"
  "s_streamCancel (transition_error r s) = s_streamCancel s" "s_reader (transition_error r s) = s_reader s"
  "s_live (transition_error r s) = s_live s" "s_qa (transition_error r s) = s_qa s" "s_qaActive (transition_error r s) = s_qaActive s"
  "s_run (transition_error r s) = s_run s" "s_codeRunActive (transition_error r s) = s_codeRunActive s"
  "s_slot (transition_error r s) = s_slot s" "s_orgID (transition_error r s) = s_orgID s"
  "s_interviewID (transition_error r s) = s_interviewID s"
  by (simp_all add: transition_error_def split: option.splits)

text \<open>The frame that ends an interview: the report, or the promise of one.\<close>

definition is_evaluation :: "server_message \<Rightarrow> bool" where
  "is_evaluation f \<longleftrightarrow> (\<exists>sc ov rc st. f = Evaluation sc ov rc st)"

lemma SendEvaluation_sends:
  obtains f w' where "SendEvaluation en (s, w) = (send f s, w')" "is_evaluation f"
proof -
  have p: "\<exists>w'. PendingEvaluation en (s, w) = (send pending_frame s, w')" for w
    by (auto simp: PendingEvaluation_def split: prod.splits)
  have e: "is_evaluation pending_frame" "is_evaluation (evaluation_frame r)" for r
    by (simp_all add: is_evaluation_def pending_frame_def evaluation_frame_def)
  have "\<exists>f w'. SendEvaluation en (s, w) = (send f s, w') \<and> is_evaluation f"
  proof (cases "en_llm en")
    case False
    then show ?thesis using p [of w] e(1) by (auto simp: SendEvaluation_def)
  next
    case True
    obtain r1 w1 where t: "sv_Transcript (en_svc en) (s_orgID s) (s_interviewID s) w = (r1, w1)" by fastforce
    note u = True t
    show ?thesis
    proof (cases r1)
      case (Inl x)
      then show ?thesis using u p [of w1] e(1) by (auto simp: SendEvaluation_def)
    next
      case (Inr pairs)
      let ?ev = "evaluate_transcript (en_MarshalPairs en) (en_Ask en) (fst (en_Orders en)) (snd (en_Orders en)) pairs"
      show ?thesis
      proof (cases ?ev)
        case (Inl x)
        then show ?thesis using u \<open>r1 = Inr pairs\<close> p [of w1] e(1) by (auto simp: SendEvaluation_def)
      next
        case ev: (Inr report)
        show ?thesis
        proof (cases "en_MarshalReport en report")
          case (Inl x)
          then show ?thesis using u ev \<open>r1 = Inr pairs\<close> p [of w1] e(1) by (auto simp: SendEvaluation_def)
        next
          case (Inr raw)
          obtain r2 w2 where q: "sv_EvaluateAndPersist (en_svc en) (s_orgID s) (s_interviewID s) raw w1 = (r2, w2)" by fastforce
          show ?thesis
            by (cases r2) (use u ev Inr q \<open>r1 = Inr pairs\<close> p [of w2] e in \<open>auto simp: SendEvaluation_def\<close>)
        qed
      qed
    qed
  qed
  with that show thesis by blast
qed

lemma SendQuestionOnce_simps [simp]:
  "s_turnActive (SendQuestionOnce t s) = s_turnActive s" "s_stream (SendQuestionOnce t s) = s_stream s"
  "s_streamDone (SendQuestionOnce t s) = s_streamDone s" "s_streamCancel (SendQuestionOnce t s) = s_streamCancel s"
  "s_reader (SendQuestionOnce t s) = s_reader s" "s_live (SendQuestionOnce t s) = s_live s" "s_qa (SendQuestionOnce t s) = s_qa s"
  "s_qaActive (SendQuestionOnce t s) = s_qaActive s" "s_run (SendQuestionOnce t s) = s_run s"
  "s_codeRunActive (SendQuestionOnce t s) = s_codeRunActive s" "s_slot (SendQuestionOnce t s) = s_slot s"
  "s_orgID (SendQuestionOnce t s) = s_orgID s" "s_interviewID (SendQuestionOnce t s) = s_interviewID s"
  by (simp_all add: SendQuestionOnce_def split: option.splits)


section \<open>The invariant of a connection\<close>

text \<open>
  The flags agree with the goroutines that run; a running response has its turn, whose question is not sent yet,
  the join channel and, while the connection lives, the cancel function; it is cancelled exactly when the read loop
  no longer reads.
\<close>

definition ses_tasks :: "session \<Rightarrow> bool" where
  "ses_tasks s \<longleftrightarrow> (s_qaActive s \<longleftrightarrow> s_qa s \<noteq> None) \<and> (s_codeRunActive s \<longleftrightarrow> s_run s \<noteq> None) \<and> (s_slot s \<longrightarrow> s_run s \<noteq> None)
     \<and> (s_live s \<longleftrightarrow> s_reader s \<noteq> Left)"

definition stream_inv :: "session \<Rightarrow> stream \<Rightarrow> bool" where
  "stream_inv s st \<longleftrightarrow> s_streamDone s \<and> (s_live s \<longrightarrow> s_streamCancel s) \<and> (st_cancelled st \<longleftrightarrow> s_reader s \<noteq> Reading)
     \<and> (\<exists>t. s_turn s = Some t \<and> \<not> ts_QuestionSent t \<and> ts_Next t = st_next st)"

definition ses_inv :: "session \<Rightarrow> bool" where
  "ses_inv s \<longleftrightarrow> ses_tasks s \<and> (s_turnActive s \<longleftrightarrow> s_stream s \<noteq> None) \<and> (\<forall>st. s_stream s = Some st \<longrightarrow> stream_inv s st)"

lemma ses_tasks_simps [simp]:
  "ses_tasks (send f s) = ses_tasks s" "ses_tasks (onQuestion q s) = ses_tasks s" "ses_tasks (SendQuestionOnce t s) = ses_tasks s"
  "ses_tasks (transition_error r s) = ses_tasks s" "ses_tasks (remember_answer a s) = ses_tasks s"
  by (simp_all add: ses_tasks_def)

lemma ses_tasks_turn [simp]:
  "ses_tasks (s\<lparr>s_turn := t\<rparr>) = ses_tasks s" "ses_tasks (s\<lparr>s_turnActive := b\<rparr>) = ses_tasks s"
  "ses_tasks (s\<lparr>s_stream := st\<rparr>) = ses_tasks s" "ses_tasks (s\<lparr>s_streamDone := b\<rparr>) = ses_tasks s"
  "ses_tasks (s\<lparr>s_streamCancel := b\<rparr>) = ses_tasks s" "ses_tasks (s\<lparr>s_lastTouch := n\<rparr>) = ses_tasks s"
  "ses_tasks (s\<lparr>s_touchTimer := b\<rparr>) = ses_tasks s" "ses_tasks (s\<lparr>s_history := h\<rparr>) = ses_tasks s"
  by (simp_all add: ses_tasks_def)

lemma ses_inv_tasks: "ses_inv s \<Longrightarrow> ses_tasks s"
  by (simp add: ses_inv_def)

lemma ses_inv_idle: "ses_tasks s \<Longrightarrow> s_stream s = None \<Longrightarrow> \<not> s_turnActive s \<Longrightarrow> ses_inv s"
  by (simp add: ses_inv_def)

lemma ses_inv_end_stream: "ses_tasks s \<Longrightarrow> ses_inv (end_stream s)"
  by (intro ses_inv_idle) (simp_all add: end_stream_def ses_tasks_def)

lemma ses_inv_send [simp]: "ses_inv (send f s) = ses_inv s"
  by (simp add: ses_inv_def stream_inv_def)

lemma ses_inv_onQuestion [simp]: "ses_inv (onQuestion q s) = ses_inv s"
  by (simp add: ses_inv_def stream_inv_def)

lemma ses_inv_touch [simp]: "ses_inv (s\<lparr>s_lastTouch := n\<rparr>) = ses_inv s" "ses_inv (s\<lparr>s_touchTimer := b\<rparr>) = ses_inv s"
  by (simp_all add: ses_inv_def stream_inv_def)

lemma ses_inv_NewSession: "ses_inv (NewSession o1 i sid p q g h)"
  by (simp add: ses_inv_def ses_tasks_def NewSession_def)

lemma SendEvaluation_tasks: "ses_tasks s \<Longrightarrow> ses_tasks (fst (SendEvaluation en (s, w)))"
  by (rule SendEvaluation_sends [of en s w]) simp

lemma SendEvaluation_frame:
  "s_stream (fst (SendEvaluation en (s, w))) = s_stream s" "s_turnActive (fst (SendEvaluation en (s, w))) = s_turnActive s"
  by (rule SendEvaluation_sends [of en s w]; simp)+

lemma stream_fallback_inv: "ses_inv s \<Longrightarrow> ses_inv (fst (stream_fallback en m st t (s, w)))"
  using SendEvaluation_tasks [of "SendQuestionOnce t (send (ErrorFrame [] m) s)" en w] ses_inv_tasks [of s]
  by (auto simp: stream_fallback_def Let_def case_prod_beta intro!: ses_inv_end_stream)

lemma stream_open_inv:
  assumes "ses_inv s" "s_stream s = Some st"
  shows "ses_inv (fst (stream_open en r st t (s, w)))"
proof -
  have "ses_inv (s\<lparr>s_stream := Some (st\<lparr>st_open := True\<rparr>)\<rparr>)"
    using assms by (simp add: ses_inv_def stream_inv_def)
  then show ?thesis using assms(1) by (simp add: stream_open_def stream_fallback_inv split: sum.splits)
qed

lemma stream_token_inv: "ses_inv s \<Longrightarrow> s_stream s = Some st \<Longrightarrow> ses_inv (stream_token tok st s)"
  by (simp add: stream_token_def) (simp add: ses_inv_def stream_inv_def)

lemma stream_close_inv:
  assumes "ses_inv s"
  shows "ses_inv (fst (stream_close en st t (s, w)))"
proof -
  have k: "ses_tasks s" using assms by (rule ses_inv_tasks)
  have "ses_tasks (fst (SendEvaluation en (SendQuestionOnce t (send (response_frame st t) s), w)))"
    by (rule SendEvaluation_tasks) (simp add: k)
  then show ?thesis using k by (auto simp: stream_close_def Let_def case_prod_beta intro!: ses_inv_end_stream)
qed

lemma cancel_stream_inv:
  assumes "ses_inv s" "s_reader s = Reading" "r \<noteq> Reading" "r \<noteq> Left"
  shows "ses_inv ((cancel_stream s)\<lparr>s_reader := r\<rparr>)"
  using assms by (auto simp: ses_inv_def ses_tasks_def stream_inv_def cancel_stream_def)

lemma leave_inv: "ses_inv s \<Longrightarrow> ses_inv (leave s)"
  by (auto simp: ses_inv_def ses_tasks_def stream_inv_def leave_def cancel_stream_def Let_def)

lemma HandleAnswer_inv:
  assumes "ses_inv s" "s_reader s = Reading"
  shows "ses_inv (fst (HandleAnswer en m (s, w)))"
proof (cases "s_turnActive s")
  case False
  let ?c = "sv_ProcessTopicDialogue (en_svc en) (s_orgID s) (s_interviewID s) (am_Content m) (am_Action m) (am_Pacing m) w"
  obtain r w1 where r: "?c = (r, w1)" by fastforce
  show ?thesis
  proof (cases r)
    case (Inl e)
    with False r assms(1) show ?thesis by (simp add: HandleAnswer_def leave_inv)
  next
    case (Inr res)
    from assms have "ses_tasks s" by (simp add: ses_inv_tasks)
    with False r Inr assms(2) show ?thesis
      by (auto simp: HandleAnswer_def Let_def case_prod_beta ses_inv_def ses_tasks_def stream_inv_def turn_state_def)
  qed
qed (use assms in \<open>simp add: HandleAnswer_def\<close>)


lemma SendStartAndQuestion_frame:
  "s_stream (fst (SendStartAndQuestion en (s, w))) = s_stream s" "s_turnActive (fst (SendStartAndQuestion en (s, w))) = s_turnActive s"
  "s_reader (fst (SendStartAndQuestion en (s, w))) = s_reader s" "s_turn (fst (SendStartAndQuestion en (s, w))) = s_turn s"
  "ses_tasks (fst (SendStartAndQuestion en (s, w))) = ses_tasks s" "ses_inv (fst (SendStartAndQuestion en (s, w))) = ses_inv s"
  by (simp_all add: SendStartAndQuestion_def Let_def split: prod.splits sum.splits option.splits)

lemma HandleResume_inv:
  assumes "ses_inv s" "stream_joined s" "s_reader s = ResumeWaits"
  shows "ses_inv (fst (HandleResume en (s, w)))"
proof -
  have "s_stream s = None" using assms by (auto simp: ses_inv_def stream_inv_def stream_joined_def)
  with assms show ?thesis
    by (simp add: HandleResume_def SendStartAndQuestion_frame) (simp add: ses_inv_def ses_tasks_def)
qed

lemma interrupt_dispatch_inv:
  assumes "ses_tasks s" "s_stream s = None" "\<not> s_turnActive s"
  shows "ses_inv (fst (interrupt_dispatch en t (s, w)))"
  by (rule SendEvaluation_sends [of en s w])
    (use assms in \<open>auto simp: interrupt_dispatch_def Let_def case_prod_beta intro!: ses_inv_idle\<close>)

lemma HandleInterrupt_inv:
  assumes "ses_inv s" "stream_joined s" "s_reader s = InterruptWaits"
  shows "ses_inv (fst (HandleInterrupt en (s, w)))"
proof -
  have n: "s_stream s = None" using assms by (auto simp: ses_inv_def stream_inv_def stream_joined_def)
  then have a: "\<not> s_turnActive s" using assms(1) by (simp add: ses_inv_def)
  let ?s = "send (Response \<lparr>rm_Content = ''Interrupted.'', rm_IsTopicComplete = False, rm_TopicTurn = 0, rm_MaxTopicTurns = 0\<rparr>)
    (s\<lparr>s_streamDone := False, s_streamCancel := False, s_reader := Reading\<rparr>)"
  have t: "ses_tasks ?s" using assms(1,3) by (simp add: ses_inv_def ses_tasks_def)
  show ?thesis
  proof (cases "s_turn s")
    case None
    with n a t show ?thesis by (simp add: HandleInterrupt_def Let_def ses_inv_idle)
  next
    case (Some tn)
    obtain r w1 where r: "sv_ProcessTopicDialogue (en_svc en) (s_orgID s) (s_interviewID s) interrupted_answer advance None w = (r, w1)"
      by fastforce
    have d1: "ses_inv (fst (interrupt_dispatch en t1 (transition_error res ?s\<lparr>s_turn := u\<rparr>, w2)))"
      "ses_inv (fst (interrupt_dispatch en t1 (?s, w2)))" for t1 res u w2
      by (rule interrupt_dispatch_inv; use t n a in simp)+
    have d2: "ses_inv (?s\<lparr>s_turn := u\<rparr>)" "ses_inv (send f ?s\<lparr>s_turn := u\<rparr>)" for u f
      by (rule ses_inv_idle; use t n a in simp)+
    note d = d1 d2
    show ?thesis
      unfolding HandleInterrupt_def Let_def case_prod_conv
      using Some r d by (cases r) (simp_all add: case_prod_beta)
  qed
qed

lemma qa_done_inv: "ses_inv s \<Longrightarrow> ses_inv (qa_done f s)"
  by (simp add: qa_done_def ses_inv_def ses_tasks_def stream_inv_def)

lemma qa_check_inv: "ses_inv s \<Longrightarrow> s_qa s = Some x \<Longrightarrow> ses_inv (fst (qa_check en q (s, w)))"
  by (auto simp: qa_check_def qa_done_inv split: prod.splits sum.splits)
    (simp add: ses_inv_def ses_tasks_def stream_inv_def)

lemma qa_reply_inv: "ses_inv s \<Longrightarrow> ses_inv (fst (qa_reply en r q (s, w)))"
  by (auto simp: qa_reply_def Let_def qa_done_inv split: prod.splits sum.splits)

lemma HandleCandidateQuestion_inv: "ses_inv s \<Longrightarrow> ses_inv (HandleCandidateQuestion q s)"
  by (auto simp: HandleCandidateQuestion_def) (simp add: ses_inv_def ses_tasks_def stream_inv_def)

lemma HandleCodeRun_inv: "ses_inv s \<Longrightarrow> ses_inv (HandleCodeRun en m s)"
  by (auto simp: HandleCodeRun_def) (simp add: ses_inv_def ses_tasks_def stream_inv_def)

lemma runCode_inv:
  assumes "ses_inv s"
  shows "ses_inv (fst (runCode en ex m (s, w)))"
proof -
  have "ses_inv (s\<lparr>s_run := None, s_codeRunActive := False, s_slot := False\<rparr>)"
    using assms by (simp add: ses_inv_def ses_tasks_def stream_inv_def)
  then show ?thesis by (simp add: runCode_def Let_def split: sum.splits option.splits)
qed

lemma touch_now_inv: "ses_inv s \<Longrightarrow> ses_inv (fst (touch_now en (s, w)))"
  by (simp add: touch_now_def)

lemma handle_frame_inv:
  assumes "ses_inv s" "s_reader s = Reading"
  shows "ses_inv (fst (handle_frame en m (s, w)))"
  by (cases m) (use assms in \<open>simp_all add: handle_frame_def cancel_stream_inv HandleAnswer_inv HandleCandidateQuestion_inv
    HandleCodeRun_inv HandleTelemetry_def DebouncedTouch_def touch_now_inv Let_def\<close>)

lemma read_frame_inv: "ses_inv s \<Longrightarrow> s_reader s = Reading \<Longrightarrow> ses_inv (fst (read_frame en raw (s, w)))"
  by (simp add: read_frame_def handle_frame_inv split: sum.splits)

lemma with_turn_Next:
  assumes "with_turn c b k = Next c'"
  obtains st t where "s_stream (fst c) = Some st" "st_open st = b" "s_turn (fst c) = Some t" "c' = k st t"
  using assms by (auto simp: with_turn_def split: option.splits if_splits)

lemma ses_step_inv:
  assumes "ses_inv (fst c)" "ses_step en e c = Next c'"
  shows "ses_inv (fst c')"
proof -
  obtain s w where c: "c = (s, w)" by fastforce
  from assms c have inv: "ses_inv s" by simp
  show ?thesis
  proof (cases e)
    case (ReadFrame raw)
    with assms(2) c inv show ?thesis by (auto simp: read_frame_inv split: if_splits)
  next
    case (ReadFails b)
    with assms(2) c inv show ?thesis by (auto simp: leave_inv split: if_splits)
  next
    case ReaderContinues
    with assms(2) c inv show ?thesis by (auto simp: HandleInterrupt_inv HandleResume_inv split: if_splits reader.splits)
  next
    case (StreamOpens r)
    with assms(2) c inv show ?thesis by (auto simp: stream_open_inv elim!: with_turn_Next)
  next
    case (StreamToken tok)
    with assms(2) c inv show ?thesis by (auto simp: stream_token_inv elim!: with_turn_Next)
  next
    case StreamEnds
    with assms(2) c inv show ?thesis by (auto simp: stream_close_inv elim!: with_turn_Next)
  next
    case QAStep
    with assms(2) c inv show ?thesis by (auto simp: qa_check_inv split: option.splits qa_task.splits)
  next
    case (QAReply r)
    with assms(2) c inv show ?thesis by (auto simp: qa_reply_inv split: option.splits qa_task.splits)
  next
    case (CodeStep ex)
    with assms(2) c inv show ?thesis by (auto simp: runCode_inv split: option.splits)
  next
    case TouchTimer
    with assms(2) c inv show ?thesis by (auto simp: touch_now_inv split: if_splits)
  qed
qed

lemma reach_inv: "ses_reach ok c0 c \<Longrightarrow> ses_inv (fst c0) \<Longrightarrow> ses_inv (fst c)"
proof (induction rule: ses_reach.induct)
  case (connected en)
  then show ?case using SendStartAndQuestion_frame(6) [of en "fst c0" "snd c0"] by simp
next
  case (stepped c en e c')
  from ses_step_inv [OF stepped.IH [OF stepped.prems] stepped.hyps(3)] show ?case .
qed

lemma ses_inv_no_panic:
  assumes "ses_inv (fst c)"
  shows "ses_step en e c \<noteq> Panic"
proof -
  have "with_turn c b k \<noteq> Panic" for b k
    using assms by (auto simp: with_turn_def ses_inv_def stream_inv_def split: option.splits)
  moreover obtain s w where "c = (s, w)" by fastforce
  ultimately show ?thesis by (cases e) (auto split: option.splits reader.splits qa_task.splits if_splits)
qed


section \<open>Runs\<close>

fun ses_run :: "('w engine \<times> ses_event) list \<Rightarrow> session \<times> 'w \<Rightarrow> (session \<times> 'w) outcome" where
  "ses_run [] c = Next c"
| "ses_run ((en, e) # es) c = (case ses_step en e c of Next c' \<Rightarrow> ses_run es c' | r \<Rightarrow> r)"

lemma ses_run_reach:
  "ses_run es c = Next c' \<Longrightarrow> ses_reach ok c0 c \<Longrightarrow> (\<And>en e. (en, e) \<in> set es \<Longrightarrow> ok en) \<Longrightarrow> ses_reach ok c0 c'"
proof (induction es arbitrary: c)
  case (Cons p es)
  obtain en e where p: "p = (en, e)" by fastforce
  from Cons.prems(1) p obtain c1 where s: "ses_step en e c = Next c1" "ses_run es c1 = Next c'"
    by (auto split: outcome.splits)
  have "ok en" using Cons.prems(3) p by auto
  from Cons.IH [OF s(2) ses_reach.stepped [OF Cons.prems(2) this s(1)]] Cons.prems(3) show ?case by auto
qed simp

lemma ses_run_inv: "ses_run es c = Next c' \<Longrightarrow> ses_inv (fst c) \<Longrightarrow> ses_inv (fst c')"
proof (induction es arbitrary: c)
  case (Cons p es)
  then show ?case by (cases p) (auto split: outcome.splits dest: ses_step_inv)
qed simp

text \<open>A service with canned answers, for the examples: one question answered in two turns.\<close>

definition demo_question :: "nat \<Rightarrow> Question" where
  "demo_question n = \<lparr>q_Idx = n, q_Content = ''Write a function'', q_Category = ''coding'', q_Skill = [], q_IsProbe = False,
     q_Context = [], q_Expectation = []\<rparr>"

definition demo_turn :: "nat \<Rightarrow> TopicDialogueResult" where
  "demo_turn n = \<lparr>tdr_NextQuestion = (if n = 0 then Some (demo_question 2) else None), tdr_IsTopicComplete = True, tdr_CurrentTurn = 1,
     tdr_MaxTurns = 3, tdr_TotalQuestions = 2, tdr_TransitionErr = None\<rparr>"

definition demo_service :: "nat service" where
  "demo_service = \<lparr>sv_ProcessTopicDialogue = (\<lambda>o1 i c a p w. (Inr (demo_turn w), w + 1)),
     sv_SessionRemaining = (\<lambda>o1 i w. (900, w)), sv_TouchInterview = (\<lambda>o1 i w. (Inr (), w)),
     sv_RecordTelemetry = (\<lambda>o1 i e w. (Inr (), w)), sv_RecordCandidateQA = (\<lambda>o1 i q a w. (Inr (), w)),
     sv_CandidateQARemaining = (\<lambda>o1 i w. (Inr 3, w)), sv_CurrentState = (\<lambda>o1 i w. (Inr (Some (demo_question 1), 2, InProgress), w)),
     sv_Transcript = (\<lambda>o1 i w. (Inl ErrNoTx, w)), sv_EvaluateAndPersist = (\<lambda>o1 i r w. (Inr (), w)),
     sv_EnqueueEvaluation = (\<lambda>o1 i w. (Inr (), w)), sv_RecordCodingSession = (\<lambda>o1 i c w. (Inr (), w))\<rparr>"

definition demo_engine :: "nat engine" where
  "demo_engine = \<lparr>en_svc = demo_service, en_llm = True, en_CountTokens = (\<lambda>t. 0), en_Ask = (\<lambda>p. Inl ErrNoTx),
     en_MarshalPairs = (\<lambda>p. Inr []), en_MarshalReport = (\<lambda>r. Inr []), en_Orders = ([], []),
     en_Scan = (\<lambda>raw. Inr (JObj [(''type'', JStr raw), (''content'', JStr ''x'')])), en_ParseTime = (\<lambda>t. Inl ErrNoTx), en_Now = 0,
     en_CodeRunner = True, en_AcquireCodeRun = Some True\<rparr>"

definition demo_session :: session where
  "demo_session = NewSession ''org'' ''iv'' ''sid'' ''prompt'' ''ctx'' False []"

definition demo_steps :: "ses_event list \<Rightarrow> (session \<times> nat) outcome" where
  "demo_steps es = ses_run (map (\<lambda>e. (demo_engine, e)) es) (SendStartAndQuestion demo_engine (demo_session, 0))"

text \<open>
  Property C24. A connection is sound under every interleaving of its goroutines. From the start of a session, whatever
  frames, model outputs, service results and failures arrive in whatever order: no goroutine ever dereferences a missing
  turn; an answer is being processed exactly while a response goroutine runs, and then the session still holds that
  answer's turn with its question not sent; at most one candidate question and one code run are in flight, exactly when
  their slot is taken, and a place in the sandbox is held only during a code run; a response is cancelled exactly when
  the read loop has stopped reading to interrupt, resume or leave.
\<close>

theorem connection_sound:
  assumes "ses_reach ok (NewSession orgID interviewID sessionID prompt qaContext unavailable history, w) (s, w')"
  shows "ses_step en e (s, w') \<noteq> Panic
    \<and> (s_turnActive s \<longleftrightarrow> s_stream s \<noteq> None)
    \<and> (s_qaActive s \<longleftrightarrow> s_qa s \<noteq> None) \<and> (s_codeRunActive s \<longleftrightarrow> s_run s \<noteq> None) \<and> (s_slot s \<longrightarrow> s_run s \<noteq> None)
    \<and> (s_live s \<longleftrightarrow> s_reader s \<noteq> Left)
    \<and> (\<forall>st. s_stream s = Some st \<longrightarrow> (st_cancelled st \<longleftrightarrow> s_reader s \<noteq> Reading)
         \<and> (\<exists>t. s_turn s = Some t \<and> \<not> ts_QuestionSent t \<and> ts_Next t = st_next st))"
proof -
  have "ses_inv s" using reach_inv [OF assms] ses_inv_NewSession by simp
  with ses_inv_no_panic [of "(s, w')" en e] show ?thesis by (simp add: ses_inv_def ses_tasks_def stream_inv_def)
qed


lemma demo_parse: "ParseClientMessage (en_Scan demo_engine) ''answer'' = Inr (Answer \<lparr>am_Content = ''x'', am_Idx = 0, am_Action = [], am_Pacing = None\<rparr>)"
  "ParseClientMessage (en_Scan demo_engine) ''candidate_question'' = Inr (CandidateQuestion ''x'')"
  "ParseClientMessage (en_Scan demo_engine) ''interrupt'' = Inr Interrupt"
  by code_simp+

lemma demo_start: "\<exists>f g a. SendStartAndQuestion demo_engine (demo_session, 0) =
  (demo_session\<lparr>s_lastQuestion := Some (demo_question 1), s_archetype := a, s_sent := [f, QuestionFrame g]\<rparr>, 0)"
  by (simp add: SendStartAndQuestion_def demo_engine_def demo_service_def demo_session_def NewSession_def send_def onQuestion_def Let_def)

lemma demo_answering: "\<exists>s f g. demo_steps [ReadFrame ''answer'', StreamOpens (Inr ())] = Next (s, 1)
   \<and> s_sent s = [f, QuestionFrame g] \<and> s_live s \<and> s_turnActive s \<and> s_stream s \<noteq> None"
proof -
  have b: "\<not> ExceedsBudget m DefaultTokenBudget (en_CountTokens demo_engine)" for m
    by (simp add: ExceedsBudget_def CountContextTokens_def demo_engine_def DefaultTokenBudget_def)
  have e: "en_svc demo_engine = demo_service" "en_llm demo_engine"  by (simp_all add: demo_engine_def)
  have n: "length ''answer'' \<le> maxWSFrameBytes" by (simp add: maxWSFrameBytes_def)
  obtain f g a where s: "SendStartAndQuestion demo_engine (demo_session, 0) =
    (demo_session\<lparr>s_lastQuestion := Some (demo_question 1), s_archetype := a, s_sent := [f, QuestionFrame g]\<rparr>, 0)"
    using demo_start by (elim exE) (rule that)
  show ?thesis using b e demo_parse n unfolding demo_steps_def s
    by (simp add: read_frame_def handle_frame_def HandleAnswer_def demo_session_def NewSession_def demo_service_def
       remember_answer_def transition_error_def demo_turn_def turn_state_def with_turn_def stream_open_def Let_def)
qed

lemma demo_start_reach: "ses_reach (\<lambda>en. True) (demo_session, 0) (SendStartAndQuestion demo_engine (demo_session, 0))"
  by (rule ses_reach.connected) simp

lemma demo_reach: "demo_steps es = Next c \<Longrightarrow> ses_reach (\<lambda>en. True) (demo_session, 0) c"
  unfolding demo_steps_def by (erule ses_run_reach [OF _ demo_start_reach]) simp

lemma connection_sound_witness:
  "\<exists>s. demo_steps [ReadFrame ''answer'', StreamOpens (Inr ())] = Next (s, 1) \<and> s_stream s \<noteq> None
     \<and> (\<exists>t. s_turn s = Some t \<and> \<not> ts_QuestionSent t) \<and> ses_step demo_engine StreamEnds (s, 1) \<noteq> Panic"
proof -
  obtain s where s: "demo_steps [ReadFrame ''answer'', StreamOpens (Inr ())] = Next (s, 1)" "s_stream s \<noteq> None"
    using demo_answering by blast
  from demo_reach [OF s(1)] have "ses_reach (\<lambda>en. True) (NewSession ''org'' ''iv'' ''sid'' ''prompt'' ''ctx'' False [], 0 :: nat) (s, 1)"
    by (simp only: demo_session_def)
  from connection_sound [OF this, of demo_engine StreamEnds] s show ?thesis by (intro exI [of _ s] conjI) blast+
qed

section \<open>What a turn owes\<close>

text \<open>
  The frames that conclude a turn: one frame \<open>f\<close>, then for a closed topic the next question, which becomes the
  current one, or the evaluation when there is none.
\<close>

definition concludes :: "TurnState \<Rightarrow> server_message \<Rightarrow> session \<Rightarrow> session \<Rightarrow> bool" where
  "concludes t f s s' \<longleftrightarrow> (if ts_IsTopicComplete t
     then (case ts_Next t of
         Some q \<Rightarrow> s_sent s' = s_sent s @ [f, question_frame t q] \<and> s_lastQuestion s' = Some q
       | None \<Rightarrow> \<exists>g. is_evaluation g \<and> s_sent s' = s_sent s @ [f, g])
     else s_sent s' = s_sent s @ [f])"

lemma SendQuestionOnce_sends:
  assumes "s_live s" "\<not> ts_QuestionSent t" "ts_IsTopicComplete t" "ts_Next t = Some q"
  shows "s_sent (SendQuestionOnce t s) = s_sent s @ [question_frame t q]" "s_lastQuestion (SendQuestionOnce t s) = Some q"
  using assms by (simp_all add: SendQuestionOnce_def send_def)

lemma SendQuestionOnce_nothing:
  "\<not> ts_IsTopicComplete t \<or> ts_Next t = None \<Longrightarrow> SendQuestionOnce t s = s"
  by (auto simp: SendQuestionOnce_def)

lemma end_stream_sent [simp]: "s_sent (end_stream s) = s_sent s" "s_lastQuestion (end_stream s) = s_lastQuestion s"
  "s_stream (end_stream s) = None" "s_turn (end_stream s) = s_turn s"
  by (simp_all add: end_stream_def)

lemma SendEvaluation_sent:
  assumes "s_live s"
  shows "\<exists>g. is_evaluation g \<and> s_sent (fst (SendEvaluation en (s, w))) = s_sent s @ [g]"
  by (rule SendEvaluation_sends [of en s w]) (use assms in \<open>auto simp: send_def\<close>)

lemma stream_fallback_concludes:
  assumes "s_live s" "\<not> ts_QuestionSent t" "ts_Next t = st_next st"
  shows "concludes t (ErrorFrame [] m) s (fst (stream_fallback en m st t (s, w)))"
proof (cases "ts_IsTopicComplete t")
  case True
  show ?thesis
  proof (cases "ts_Next t")
    case None
    then show ?thesis
      using True assms SendEvaluation_sent [of "send (ErrorFrame [] m) s" en w]
      by (auto simp: concludes_def stream_fallback_def SendQuestionOnce_nothing Let_def case_prod_beta send_def)
  next
    case (Some q)
    then show ?thesis using True assms SendQuestionOnce_sends [of "send (ErrorFrame [] m) s" t q]
      by (simp add: concludes_def stream_fallback_def Let_def case_prod_beta send_def)
  qed
qed (simp add: concludes_def stream_fallback_def SendQuestionOnce_nothing Let_def send_def assms)

lemma stream_close_concludes:
  assumes "s_live s" "\<not> ts_QuestionSent t" "ts_Next t = st_next st" "\<not> st_cancelled st"
  shows "concludes t (response_frame st t) s (fst (stream_close en st t (s, w)))"
proof (cases "ts_IsTopicComplete t")
  case True
  show ?thesis
  proof (cases "ts_Next t")
    case None
    then show ?thesis
      using True assms SendEvaluation_sent [of "send (response_frame st t) s" en w]
      by (auto simp: concludes_def stream_close_def SendQuestionOnce_nothing Let_def case_prod_beta send_def)
  next
    case (Some q)
    then show ?thesis using True assms SendQuestionOnce_sends [of "send (response_frame st t) s" t q]
      by (simp add: concludes_def stream_close_def Let_def case_prod_beta send_def)
  qed
qed (use assms in \<open>simp add: concludes_def stream_close_def Let_def case_prod_beta send_def\<close>)

lemma stream_close_cancelled:
  "st_cancelled st \<Longrightarrow> s_sent (fst (stream_close en st t (s, w))) = s_sent s \<and> s_turn (fst (stream_close en st t (s, w))) = s_turn s"
  by (simp add: stream_close_def)

text \<open>Only its own goroutine ends a response.\<close>

lemma cancel_keeps_stream: "s_stream (cancel_stream s) = None \<longleftrightarrow> s_stream s = None"
  by (simp add: cancel_stream_def)

lemma leave_keeps_stream: "s_stream (leave s) = None \<longleftrightarrow> s_stream s = None"
  by (simp add: leave_def Let_def cancel_stream_def)

lemma read_frame_keeps_stream:
  assumes "ses_inv s" "s_stream s \<noteq> None"
  shows "s_stream (fst (read_frame en raw (s, w))) \<noteq> None"
proof -
  have "s_turnActive s" using assms by (simp add: ses_inv_def)
  then have "s_stream (fst (handle_frame en m (s, w))) \<noteq> None" for m
    using assms(2) by (cases m) (simp_all add: handle_frame_def cancel_keeps_stream HandleAnswer_def HandleTelemetry_def
      DebouncedTouch_def touch_now_def HandleCodeRun_def HandleCandidateQuestion_def Let_def del: not_None_eq)
  then show ?thesis using assms(2) by (simp add: read_frame_def split: sum.splits)
qed

lemma stream_ended_by:
  assumes "ses_inv s" "s_stream s \<noteq> None" "ses_step en e (s, w) = Next (s', w')" "s_stream s' = None"
  shows "(\<exists>r. e = StreamOpens r) \<or> e = StreamEnds"
proof (cases e)
  case (ReadFrame raw)
  with assms read_frame_keeps_stream [OF assms(1,2), of en raw w] show ?thesis by (auto split: if_splits)
next
  case (ReadFails b)
  with assms show ?thesis by (auto simp: leave_keeps_stream split: if_splits)
next
  case ReaderContinues
  with assms show ?thesis by (auto simp: stream_joined_def ses_inv_def stream_inv_def split: if_splits)
next
  case (StreamToken tok)
  with assms show ?thesis by (auto simp: stream_token_def elim!: with_turn_Next)
next
  case QAStep
  with assms show ?thesis by (auto simp: qa_check_def qa_done_def split: option.splits qa_task.splits prod.splits sum.splits if_splits)
next
  case (QAReply r)
  with assms show ?thesis by (auto simp: qa_reply_def qa_done_def Let_def split: option.splits qa_task.splits prod.splits sum.splits if_splits)
next
  case (CodeStep ex)
  with assms show ?thesis by (auto simp: runCode_def Let_def split: option.splits sum.splits if_splits)
next
  case TouchTimer
  with assms show ?thesis by (auto simp: touch_now_def split: if_splits)
qed simp_all


lemma stream_can_end:
  assumes "ses_inv s" "s_stream s = Some st"
  shows "\<exists>e s' w'. ses_step en e (s, w) = Next (s', w') \<and> s_stream s' = None"
proof -
  obtain t where t: "s_turn s = Some t" using assms by (auto simp: ses_inv_def stream_inv_def)
  have o: "s_stream (fst (stream_fallback en m st t (s, w))) = None" "s_stream (fst (stream_close en st t (s, w))) = None" for m
    by (simp_all add: stream_fallback_def stream_close_def Let_def case_prod_beta)
  show ?thesis
  proof (cases "st_open st")
    case True
    obtain s' w' where c: "stream_close en st t (s, w) = (s', w')" by fastforce
    have "ses_step en StreamEnds (s, w) = Next (s', w')" using True assms(2) t c by (simp add: with_turn_def)
    with o(2) c show ?thesis by (metis fst_conv)
  next
    case False
    obtain s' w' where c: "stream_open en (Inl ErrNoTx) st t (s, w) = (s', w')" by fastforce
    have "ses_step en (StreamOpens (Inl ErrNoTx)) (s, w) = Next (s', w')" using False assms(2) t c by (simp add: with_turn_def)
    moreover have "s_stream s' = None" using c o(1) by (simp add: stream_open_def split: if_splits) (metis fst_conv)+
    ultimately show ?thesis by blast
  qed
qed

text \<open>
  Property C25. No turn is left hanging. While the response to an accepted answer runs on a live connection, a step that
  ends it is always possible; and whichever step ends it, in whatever interleaving, the candidate has been sent what the
  turn owes: one frame with the response, or with an error, and after it, when the topic is closed, the next question,
  which the session takes as current, or the evaluation when it was the last. The exception is a response that was
  cancelled and whose model stream ended: it sends nothing and leaves the turn, unsent, to the interrupt or resume that
  cancelled it.
\<close>

theorem turn_concluded:
  assumes "ses_reach ok (NewSession orgID interviewID sessionID prompt qaContext unavailable history, w0) (s, w)"
    and "s_live s" "s_stream s = Some st"
  shows "(\<exists>e s' w'. ses_step en e (s, w) = Next (s', w') \<and> s_stream s' = None)
    \<and> (\<forall>e s' w'. ses_step en e (s, w) = Next (s', w') \<and> s_stream s' = None \<longrightarrow>
         (let t = the (s_turn s) in
            (\<exists>f. concludes t f s s' \<and> (f = response_frame st t \<or> (\<exists>m. f = ErrorFrame [] m)))
            \<or> e = StreamEnds \<and> st_cancelled st \<and> s_sent s' = s_sent s \<and> s_turn s' = s_turn s))"
proof (intro conjI allI impI)
  have inv: "ses_inv s" using reach_inv [OF assms(1)] ses_inv_NewSession by simp
  then obtain t where t: "s_turn s = Some t" "\<not> ts_QuestionSent t" "ts_Next t = st_next st"
    using assms(3) by (auto simp: ses_inv_def stream_inv_def)
  show "\<exists>e s' w'. ses_step en e (s, w) = Next (s', w') \<and> s_stream s' = None"
    by (rule stream_can_end [OF inv assms(3)])
  fix e s' w' assume e: "ses_step en e (s, w) = Next (s', w') \<and> s_stream s' = None"
  from stream_ended_by [OF inv, of en e w s' w'] assms(3) e consider r where "e = StreamOpens r" | "e = StreamEnds" by auto
  then show "let t = the (s_turn s) in
     (\<exists>f. concludes t f s s' \<and> (f = response_frame st t \<or> (\<exists>m. f = ErrorFrame [] m)))
     \<or> e = StreamEnds \<and> st_cancelled st \<and> s_sent s' = s_sent s \<and> s_turn s' = s_turn s"
  proof cases
    case 1
    with e assms(3) t(1) have o: "stream_open en r st t (s, w) = (s', w')" by (auto simp: with_turn_def split: if_splits)
    then obtain m where "stream_fallback en m st t (s, w) = (s', w')"
      using e by (auto simp: stream_open_def split: if_splits sum.splits)
    with stream_fallback_concludes [OF assms(2) t(2,3), of m en w] t(1) show ?thesis by auto
  next
    case 2
    with e assms(3) t(1) have o: "stream_close en st t (s, w) = (s', w')" by (auto simp: with_turn_def split: if_splits)
    show ?thesis
    proof (cases "st_cancelled st")
      case True
      with stream_close_cancelled [OF True, of en t s w] o 2 show ?thesis by simp
    next
      case False
      with stream_close_concludes [OF assms(2) t(2,3) False, of en w] o t(1) show ?thesis by auto
    qed
  qed
qed


lemma turn_concluded_witness:
  "\<exists>s e s' w'. demo_steps [ReadFrame ''answer'', StreamOpens (Inr ())] = Next (s, 1) \<and> s_stream s \<noteq> None
     \<and> ses_step demo_engine e (s, 1) = Next (s', w') \<and> s_stream s' = None"
proof -
  obtain s st where s: "demo_steps [ReadFrame ''answer'', StreamOpens (Inr ())] = Next (s, 1)" "s_live s" "s_stream s = Some st"
    using demo_answering by blast
  from demo_reach [OF s(1)] have "ses_reach (\<lambda>en. True) (NewSession ''org'' ''iv'' ''sid'' ''prompt'' ''ctx'' False [], 0 :: nat) (s, 1)"
    by (simp only: demo_session_def)
  from turn_concluded [OF this s(2,3), of demo_engine] s(1,3) show ?thesis by blast
qed

text \<open>
  What an interrupt sends after the response has stopped: the notice; then, when the turn's question is not out yet,
  the question or evaluation of the closed topic. An open topic is closed first by a forced turn, which may fail.
\<close>

definition interrupt_notice :: server_message where
  "interrupt_notice = Response \<lparr>rm_Content = ''Interrupted.'', rm_IsTopicComplete = False, rm_TopicTurn = 0, rm_MaxTopicTurns = 0\<rparr>"

lemma interrupt_dispatch_frame:
  "s_stream (fst (interrupt_dispatch en t (s, w))) = s_stream s" "s_reader (fst (interrupt_dispatch en t (s, w))) = s_reader s"
  by (rule SendEvaluation_sends [of en s w]; simp add: interrupt_dispatch_def Let_def case_prod_beta)+

lemma interrupt_dispatch_concludes:
  assumes "s_live s" "\<not> ts_QuestionSent t" "s_sent s = s_sent s0 @ [f]"
  shows "s_turn (fst (interrupt_dispatch en t (s, w))) = None"
    "ts_IsTopicComplete t \<Longrightarrow> concludes t f s0 (fst (interrupt_dispatch en t (s, w)))"
proof -
  show "s_turn (fst (interrupt_dispatch en t (s, w))) = None"
    by (simp add: interrupt_dispatch_def Let_def case_prod_beta)
  assume c: "ts_IsTopicComplete t"
  show "concludes t f s0 (fst (interrupt_dispatch en t (s, w)))"
  proof (cases "ts_Next t")
    case None
    with c assms SendEvaluation_sent [of s en w] show ?thesis
      by (auto simp: interrupt_dispatch_def concludes_def Let_def case_prod_beta)
  next
    case (Some q)
    with c assms SendQuestionOnce_sends [of s t q] show ?thesis
      by (simp add: interrupt_dispatch_def concludes_def Let_def case_prod_beta)
  qed
qed

text \<open>
  Property C26. An interrupt leaves nothing behind. When the read loop of a live connection goes on after an interrupt,
  the response has stopped, the session holds no turn, the candidate gets the notice, and an unsent turn of a closed
  topic is concluded as if the response had run to its end: its next question is sent once, or the evaluation. If its
  topic was still open, one forced turn is played through the service, and if that closes the topic, it is concluded in
  the same way; if the service fails, the candidate gets the error.
\<close>

theorem interrupt_concluded:
  assumes "ses_reach ok (NewSession orgID interviewID sessionID prompt qaContext unavailable history, w0) (s, w)"
    and "s_live s" "s_reader s = InterruptWaits" "ses_step en ReaderContinues (s, w) = Next (s', w')"
  shows "s_stream s' = None \<and> s_reader s' = Reading \<and> s_turn s' = None
    \<and> (case s_turn s of
         None \<Rightarrow> s_sent s' = s_sent s @ [interrupt_notice]
       | Some t \<Rightarrow>
           if ts_QuestionSent t then s_sent s' = s_sent s @ [interrupt_notice]
           else if ts_IsTopicComplete t then concludes t interrupt_notice s s'
           else (case fst (sv_ProcessTopicDialogue (en_svc en) (s_orgID s) (s_interviewID s) interrupted_answer advance None w) of
               Inl e \<Rightarrow> s_sent s' = s_sent s @ [interrupt_notice, error_frame e]
             | Inr res \<Rightarrow> tdr_TransitionErr res = None \<and> tdr_IsTopicComplete res
                 \<longrightarrow> (\<exists>rem. concludes (turn_state res rem) interrupt_notice s s')))"
proof -
  have inv: "ses_inv s" using reach_inv [OF assms(1)] ses_inv_NewSession by simp
  have h: "HandleInterrupt en (s, w) = (s', w')" and j: "stream_joined s"
    using assms(3,4) by (simp_all split: if_splits)
  have n: "s_stream s = None" using j inv by (auto simp: stream_joined_def ses_inv_def stream_inv_def)
  let ?s = "send interrupt_notice (s\<lparr>s_streamDone := False, s_streamCancel := False, s_reader := Reading\<rparr>)"
  have S: "s_sent ?s = s_sent s @ [interrupt_notice]" "s_stream ?s = None" "s_reader ?s = Reading" "s_live ?s" "s_turn ?s = s_turn s"
    using n assms(2) by (simp_all add: send_def)
  show ?thesis
  proof (cases "s_turn s")
    case None
    with h S show ?thesis by (auto simp: HandleInterrupt_def interrupt_notice_def [symmetric] Let_def)
  next
    case (Some t)
    consider "ts_QuestionSent t" | "\<not> ts_QuestionSent t" "ts_IsTopicComplete t" | "\<not> ts_QuestionSent t" "\<not> ts_IsTopicComplete t"
      by blast
    then show ?thesis
    proof cases
      case 1
      with Some h S show ?thesis by (auto simp: HandleInterrupt_def interrupt_notice_def [symmetric] Let_def)
    next
      case 2
      with Some h S(5) have "interrupt_dispatch en t (?s, w) = (s', w')"
        by (simp add: HandleInterrupt_def interrupt_notice_def [symmetric] Let_def)
      with interrupt_dispatch_concludes [OF S(4) 2(1) S(1), of en w] interrupt_dispatch_frame [of en t ?s w] S Some 2
      show ?thesis by simp
    next
      case 3
      obtain r w1 where r: "sv_ProcessTopicDialogue (en_svc en) (s_orgID s) (s_interviewID s) interrupted_answer advance None w = (r, w1)"
        by fastforce
      show ?thesis
      proof (cases r)
        case (Inl e)
        with r Some 3 h S(5) have "s' = (send (error_frame e) ?s)\<lparr>s_turn := None\<rparr>"
          by (simp add: HandleInterrupt_def interrupt_notice_def [symmetric] Let_def)
        with Inl r Some 3 S show ?thesis by (simp add: send_def)
      next
        case (Inr res)
        obtain rem w2 where rem: "sv_SessionRemaining (en_svc en) (s_orgID s) (s_interviewID s) w1 = (rem, w2)" by fastforce
        let ?t = "turn_state res rem"
        let ?u = "transition_error res ?s\<lparr>s_turn := Some ?t\<rparr>"
        have d: "interrupt_dispatch en ?t (?u, w2) = (s', w')"
          using r rem Inr Some 3 h S(5) by (simp add: HandleInterrupt_def interrupt_notice_def [symmetric] Let_def)
        have u: "s_live ?u" "s_stream ?u = None" "s_reader ?u = Reading" using S by simp_all
        have q: "\<not> ts_QuestionSent ?t" by (simp add: turn_state_def)
        have "concludes ?t interrupt_notice s s'" if "tdr_TransitionErr res = None" "tdr_IsTopicComplete res"
        proof -
          have "s_sent ?u = s_sent s @ [interrupt_notice]" using that(1) S(1) by (simp add: transition_error_def)
          from interrupt_dispatch_concludes(2) [OF u(1) q this, of en w2] d that(2) show ?thesis by (simp add: turn_state_def)
        qed
        moreover have "s_turn s' = None"
          using d by (auto simp: interrupt_dispatch_def Let_def case_prod_beta)
        moreover have "s_stream s' = None" "s_reader s' = Reading"
          using interrupt_dispatch_frame [of en ?t ?u w2] d u by simp_all
        ultimately show ?thesis using r Inr Some 3 by auto
      qed
    qed
  qed
qed


lemma demo_stopped:
  "\<exists>s. demo_steps [ReadFrame ''answer'', StreamOpens (Inr ()), ReadFrame ''interrupt'', StreamEnds] = Next (s, 1)
     \<and> s_live s \<and> s_reader s = InterruptWaits \<and> stream_joined s \<and> s_turn s = Some (turn_state (demo_turn 0) 900)"
proof -
  have b: "\<not> ExceedsBudget m DefaultTokenBudget (en_CountTokens demo_engine)" for m
    by (simp add: ExceedsBudget_def CountContextTokens_def demo_engine_def DefaultTokenBudget_def)
  have e: "en_svc demo_engine = demo_service" "en_llm demo_engine" by (simp_all add: demo_engine_def)
  have n: "length ''answer'' \<le> maxWSFrameBytes" "length ''interrupt'' \<le> maxWSFrameBytes" by (simp_all add: maxWSFrameBytes_def)
  obtain f g a where s: "SendStartAndQuestion demo_engine (demo_session, 0) =
    (demo_session\<lparr>s_lastQuestion := Some (demo_question 1), s_archetype := a, s_sent := [f, QuestionFrame g]\<rparr>, 0)"
    using demo_start by (elim exE) (rule that)
  show ?thesis using b e demo_parse n unfolding demo_steps_def s
    by (simp add: read_frame_def handle_frame_def HandleAnswer_def demo_session_def NewSession_def demo_service_def
       remember_answer_def transition_error_def demo_turn_def turn_state_def with_turn_def stream_open_def Let_def
       cancel_stream_def stream_close_def end_stream_def stream_joined_def)
qed

lemma interrupt_concluded_witness:
  "\<exists>s s' w' q. demo_steps [ReadFrame ''answer'', StreamOpens (Inr ()), ReadFrame ''interrupt'', StreamEnds] = Next (s, 1)
     \<and> ses_step demo_engine ReaderContinues (s, 1) = Next (s', w') \<and> s_sent s' = s_sent s @ [interrupt_notice, QuestionFrame q]"
proof -
  obtain s where s: "demo_steps [ReadFrame ''answer'', StreamOpens (Inr ()), ReadFrame ''interrupt'', StreamEnds] = Next (s, 1)"
    "s_live s" "s_reader s = InterruptWaits" "stream_joined s" "s_turn s = Some (turn_state (demo_turn 0) 900)"
    using demo_stopped by (elim exE conjE) (rule that)
  obtain s' w' where n: "ses_step demo_engine ReaderContinues (s, 1) = Next (s', w')"
    using s(3,4) by (cases "HandleInterrupt demo_engine (s, 1 :: nat)") simp
  from demo_reach [OF s(1)] have "ses_reach (\<lambda>en. True) (NewSession ''org'' ''iv'' ''sid'' ''prompt'' ''ctx'' False [], 0 :: nat) (s, 1)"
    by (simp only: demo_session_def)
  from interrupt_concluded [OF this s(2,3) n] s(5)
  have "s_sent s' = s_sent s @ [interrupt_notice, question_frame (turn_state (demo_turn 0) 900) (demo_question 2)]"
    by (simp add: turn_state_def demo_turn_def concludes_def)
  with s(1) n show ?thesis unfolding question_frame_def by (intro exI conjI)
qed

section \<open>Every request is answered\<close>

definition is_qa :: "server_message \<Rightarrow> bool" where
  "is_qa f \<longleftrightarrow> (case f of QAAnswer q a r \<Rightarrow> True | _ \<Rightarrow> False)"

definition is_code_result :: "server_message \<Rightarrow> bool" where
  "is_code_result f \<longleftrightarrow> (case f of CodeResult r \<Rightarrow> True | _ \<Rightarrow> False)"

text \<open>Frames sent, and one more for the goroutine that still owes one.\<close>

definition qa_tally :: "session \<Rightarrow> nat" where
  "qa_tally s = length (filter is_qa (s_sent s)) + (if s_qaActive s then 1 else 0)"

definition code_tally :: "session \<Rightarrow> nat" where
  "code_tally s = length (filter is_code_result (s_sent s)) + (if s_codeRunActive s then 1 else 0)"

text \<open>What a step reads: 1 for a candidate question, or for a code run.\<close>

definition frame_read :: "'w engine \<Rightarrow> ses_event \<Rightarrow> client_message option" where
  "frame_read en e = (case e of ReadFrame raw \<Rightarrow> if maxWSFrameBytes < length raw then None
      else (case ParseClientMessage (en_Scan en) raw of Inl x \<Rightarrow> None | Inr m \<Rightarrow> Some m)
    | _ \<Rightarrow> None)"

definition asks :: "'w engine \<Rightarrow> ses_event \<Rightarrow> nat" where
  "asks en e = (case frame_read en e of Some (CandidateQuestion q) \<Rightarrow> 1 | _ \<Rightarrow> 0)"

definition runs_code :: "'w engine \<Rightarrow> ses_event \<Rightarrow> nat" where
  "runs_code en e = (case frame_read en e of Some (CodeRun m) \<Rightarrow> 1 | _ \<Rightarrow> 0)"

definition tallies :: "session \<Rightarrow> nat \<times> nat" where "tallies s = (qa_tally s, code_tally s)"

lemma tallies_send:
  "\<not> is_qa f \<Longrightarrow> \<not> is_code_result f \<Longrightarrow> tallies (send f s) = tallies s"
  by (simp add: tallies_def qa_tally_def code_tally_def send_def)

lemma plain_frames [simp]:
  "\<not> is_qa (ErrorFrame c m)" "\<not> is_code_result (ErrorFrame c m)" "\<not> is_qa (Token t)" "\<not> is_code_result (Token t)"
  "\<not> is_qa (Response r)" "\<not> is_code_result (Response r)" "\<not> is_qa (QuestionFrame q)" "\<not> is_code_result (QuestionFrame q)"
  "\<not> is_qa Pong" "\<not> is_code_result Pong" "\<not> is_qa (InterviewStart a n k)" "\<not> is_code_result (InterviewStart a n k)"
  "\<not> is_qa (CodeResult x)" "is_code_result (CodeResult x)" "is_qa (QAAnswer a b d)" "\<not> is_code_result (QAAnswer a b d)"
  by (simp_all add: is_qa_def is_code_result_def)

lemma derived_frames [simp]:
  "\<not> is_qa (error_frame e)" "\<not> is_code_result (error_frame e)" "\<not> is_qa (question_frame t q)"
  "\<not> is_code_result (question_frame t q)" "\<not> is_qa (response_frame st t)" "\<not> is_code_result (response_frame st t)"
  "is_evaluation f \<Longrightarrow> \<not> is_qa f" "is_evaluation f \<Longrightarrow> \<not> is_code_result f"
  by (auto simp: error_frame_def question_frame_def response_frame_def is_evaluation_def is_qa_def is_code_result_def)

lemma tallies_cong:
  "s_sent s' = s_sent s \<Longrightarrow> s_qaActive s' = s_qaActive s \<Longrightarrow> s_codeRunActive s' = s_codeRunActive s \<Longrightarrow> tallies s' = tallies s"
  by (simp add: tallies_def qa_tally_def code_tally_def)


lemma tallies_SendQuestionOnce [simp]: "tallies (SendQuestionOnce t s) = tallies s"
proof -
  have "tallies (onQuestion q (send (question_frame t q) (s\<lparr>s_turn := x\<rparr>))) = tallies s" for q x
    using tallies_send [of "question_frame t q" "s\<lparr>s_turn := x\<rparr>"]
    by (simp add: tallies_cong [of "onQuestion q z" z for z]) (rule tallies_cong, simp_all)
  then show ?thesis by (simp add: SendQuestionOnce_def split: option.splits)
qed

lemma tallies_SendEvaluation [simp]: "tallies (fst (SendEvaluation en (s, w))) = tallies s"
  by (rule SendEvaluation_sends [of en s w]) (simp add: tallies_send)

lemma tallies_end_stream [simp]: "tallies (end_stream s) = tallies s"
  by (rule tallies_cong) (simp_all add: end_stream_def)

lemma tallies_transition_error [simp]: "tallies (transition_error r s) = tallies s"
  by (simp add: transition_error_def tallies_send split: option.splits)

lemma tallies_updates [simp]:
  "tallies (s\<lparr>s_turn := t\<rparr>) = tallies s" "tallies (s\<lparr>s_stream := st\<rparr>) = tallies s" "tallies (s\<lparr>s_turnActive := b\<rparr>) = tallies s"
  "tallies (s\<lparr>s_history := h\<rparr>) = tallies s" "tallies (s\<lparr>s_streamDone := b\<rparr>) = tallies s" "tallies (s\<lparr>s_streamCancel := b\<rparr>) = tallies s"
  "tallies (s\<lparr>s_reader := r\<rparr>) = tallies s" "tallies (s\<lparr>s_lastTouch := n\<rparr>) = tallies s" "tallies (s\<lparr>s_touchTimer := b\<rparr>) = tallies s"
  "tallies (onQuestion q s) = tallies s" "tallies (remember_answer a s) = tallies s" "tallies (cancel_stream s) = tallies s"
  by (rule tallies_cong; simp add: cancel_stream_def)+

lemma tallies_stream:
  "tallies (fst (stream_fallback en m st t (s, w))) = tallies s" "tallies (fst (stream_open en r st t (s, w))) = tallies s"
  "tallies (stream_token tok st s) = tallies s" "tallies (fst (stream_close en st t (s, w))) = tallies s"
proof -
  show f: "tallies (fst (stream_fallback en m st t (s, w))) = tallies s" for m
    by (simp add: stream_fallback_def Let_def case_prod_beta tallies_send)
  show "tallies (fst (stream_open en r st t (s, w))) = tallies s"
    by (simp add: stream_open_def f split: sum.splits)
  show "tallies (stream_token tok st s) = tallies s" by (simp add: stream_token_def tallies_send)
  show "tallies (fst (stream_close en st t (s, w))) = tallies s"
    by (simp add: stream_close_def Let_def case_prod_beta tallies_send)
qed

lemma tallies_start: "tallies (fst (SendStartAndQuestion en (s, w))) = tallies s"
  by (simp add: SendStartAndQuestion_def Let_def tallies_send split: prod.splits sum.splits option.splits)

lemma tallies_interrupt: "tallies (fst (HandleInterrupt en (s, w))) = tallies s"
proof -
  have "tallies (fst (interrupt_dispatch en t (u, v))) = tallies u" for t u v
    by (simp add: interrupt_dispatch_def Let_def case_prod_beta)
  then show ?thesis
    by (simp add: HandleInterrupt_def Let_def case_prod_beta tallies_send split: option.splits sum.splits prod.splits)
qed

lemma tallies_qa:
  assumes "s_live s" "s_qaActive s"
  shows "tallies (qa_done (QAAnswer a b c) s) = tallies s"
  using assms by (simp add: tallies_def qa_tally_def code_tally_def qa_done_def send_def)

lemma tallies_qa_steps:
  assumes "s_live s" "s_qaActive s"
  shows "tallies (fst (qa_check en q (s, w))) = tallies s" "tallies (fst (qa_reply en r q (s, w))) = tallies s"
proof -
  have "tallies (s\<lparr>s_qa := x\<rparr>) = tallies s" for x by (rule tallies_cong) simp_all
  then show "tallies (fst (qa_check en q (s, w))) = tallies s"
    by (simp add: qa_check_def QARefusal_def tallies_qa [OF assms] split: prod.splits sum.splits)
  show "tallies (fst (qa_reply en r q (s, w))) = tallies s"
    by (simp add: qa_reply_def QARefusal_def Let_def tallies_qa [OF assms] split: prod.splits sum.splits)
qed

lemma tallies_code:
  assumes "s_live s" "s_codeRunActive s"
  shows "tallies (fst (runCode en ex m (s, w))) = tallies s"
  using assms by (simp add: runCode_def code_error_def tallies_def qa_tally_def code_tally_def send_def Let_def
      split: sum.splits option.splits)

lemma tallies_candidate_question:
  assumes "s_live s" shows "tallies (HandleCandidateQuestion q s) = (fst (tallies s) + 1, snd (tallies s))"
  using assms by (simp add: HandleCandidateQuestion_def QARefusal_def tallies_def qa_tally_def code_tally_def send_def)

lemma tallies_code_run:
  assumes "s_live s" shows "tallies (HandleCodeRun en m s) = (fst (tallies s), snd (tallies s) + 1)"
  using assms by (simp add: HandleCodeRun_def code_error_def tallies_def qa_tally_def code_tally_def send_def)

lemma live_after_answer: "s_live (fst (HandleAnswer en m (s, w))) \<Longrightarrow> tallies (fst (HandleAnswer en m (s, w))) = tallies s"
  by (auto simp: HandleAnswer_def tallies_send leave_def Let_def case_prod_beta split: prod.splits sum.splits)

lemma tallies_frame:
  assumes "s_live s" "s_live (fst (handle_frame en m (s, w)))"
  shows "tallies (fst (handle_frame en m (s, w))) =
    (fst (tallies s) + (case m of CandidateQuestion q \<Rightarrow> 1 | _ \<Rightarrow> 0), snd (tallies s) + (case m of CodeRun c \<Rightarrow> 1 | _ \<Rightarrow> 0))"
  using assms by (cases m) (simp_all add: handle_frame_def tallies_send tallies_candidate_question tallies_code_run
    live_after_answer HandleTelemetry_def DebouncedTouch_def touch_now_def Let_def)

lemma leave_not_live [simp]: "\<not> s_live (leave s)"
  by (simp add: leave_def Let_def)

lemma step_tallies:
  assumes "ses_inv s" "ses_step en e (s, w) = Next (s', w')" "s_live s'" "s_live s"
  shows "tallies s' = (fst (tallies s) + asks en e, snd (tallies s) + runs_code en e)"
proof -
  have inv: "s_qa s \<noteq> None \<Longrightarrow> s_qaActive s" "s_run s \<noteq> None \<Longrightarrow> s_codeRunActive s"
    using assms(1) by (simp_all add: ses_inv_def ses_tasks_def)
  have none: "frame_read en e = None \<Longrightarrow> asks en e = 0" "frame_read en e = None \<Longrightarrow> runs_code en e = 0"
    by (simp_all add: asks_def runs_code_def)
  show ?thesis
  proof (cases e)
    case (ReadFrame raw)
    with assms(2) have r: "read_frame en raw (s, w) = (s', w')" by (auto split: if_splits)
    show ?thesis
    proof (cases "frame_read en e")
      case None
      with r none ReadFrame show ?thesis by (auto simp: read_frame_def frame_read_def tallies_send split: if_splits sum.splits)
    next
      case (Some m)
      with r ReadFrame have "handle_frame en m (s, w) = (s', w')" by (auto simp: read_frame_def frame_read_def split: if_splits sum.splits)
      with tallies_frame [OF assms(4), of en m w] assms(3) Some show ?thesis
        by (simp add: asks_def runs_code_def)
    qed
  next
    case (ReadFails b)
    with assms(2,3) show ?thesis by (auto split: if_splits)
  next
    case ReaderContinues
    with assms(2) none tallies_interrupt [of en s w] show ?thesis
      by (auto simp: frame_read_def HandleResume_def tallies_start split: if_splits reader.splits) (metis fst_conv tallies_start tallies_updates)
  next
    case (StreamOpens r)
    with assms(2) none show ?thesis by (auto simp: frame_read_def elim!: with_turn_Next) (metis fst_conv tallies_stream(2))
  next
    case (StreamToken tok)
    with assms(2) none show ?thesis by (auto simp: frame_read_def tallies_stream elim!: with_turn_Next)
  next
    case StreamEnds
    with assms(2) none show ?thesis by (auto simp: frame_read_def elim!: with_turn_Next) (metis fst_conv tallies_stream(4))
  next
    case QAStep
    with assms(2) none inv show ?thesis
      by (auto simp: frame_read_def split: option.splits qa_task.splits) (metis assms(4) fst_conv tallies_qa_steps(1))
  next
    case (QAReply r)
    with assms(2) none inv show ?thesis
      by (auto simp: frame_read_def split: option.splits qa_task.splits) (metis assms(4) fst_conv tallies_qa_steps(2))
  next
    case (CodeStep ex)
    with assms(2) none inv show ?thesis
      by (auto simp: frame_read_def split: option.splits) (metis assms(4) fst_conv tallies_code)
  next
    case TouchTimer
    with assms(2) none show ?thesis by (auto simp: frame_read_def touch_now_def split: if_splits)
  qed
qed


lemma live_simps [simp]:
  "s_live (fst (SendEvaluation en (s, w))) = s_live s" "s_live (end_stream s) = s_live s"
  "s_live (fst (SendStartAndQuestion en (s, w))) = s_live s" "s_live (qa_done f s) = s_live s" "s_live (cancel_stream s) = s_live s"
  by (rule SendEvaluation_sends [of en s w]; simp)
    (simp_all add: end_stream_def SendStartAndQuestion_def qa_done_def cancel_stream_def Let_def
      split: prod.splits sum.splits option.splits)

lemma live_streams [simp]:
  "s_live (fst (stream_fallback en m st t (s, w))) = s_live s" "s_live (fst (stream_open en r st t (s, w))) = s_live s"
  "s_live (fst (stream_close en st t (s, w))) = s_live s" "s_live (stream_token tok st s) = s_live s"
proof -
  show f: "s_live (fst (stream_fallback en m st t (s, w))) = s_live s" for m
    by (simp add: stream_fallback_def Let_def case_prod_beta)
  show "s_live (fst (stream_open en r st t (s, w))) = s_live s" by (simp add: stream_open_def f split: sum.splits)
  show "s_live (fst (stream_close en st t (s, w))) = s_live s" by (simp add: stream_close_def Let_def case_prod_beta)
  show "s_live (stream_token tok st s) = s_live s" by (simp add: stream_token_def)
qed

lemma live_dispatch [simp]: "s_live (fst (interrupt_dispatch en t (s, w))) = s_live s"
  by (simp add: interrupt_dispatch_def Let_def case_prod_beta)

lemma live_handlers [simp]:
  "s_live (fst (HandleInterrupt en (s, w))) = s_live s" "s_live (fst (HandleResume en (s, w))) = s_live s"
  "s_live (fst (qa_check en q (s, w))) = s_live s" "s_live (fst (qa_reply en r q (s, w))) = s_live s"
  "s_live (fst (runCode en ex m (s, w))) = s_live s" "s_live (fst (touch_now en (s, w))) = s_live s"
  by (simp_all add: HandleInterrupt_def HandleResume_def qa_check_def qa_reply_def runCode_def touch_now_def Let_def case_prod_beta
      split: prod.splits sum.splits option.splits)

lemma live_frame: "s_live (fst (handle_frame en m (s, w))) \<Longrightarrow> s_live s"
  by (cases m) (auto simp: handle_frame_def HandleAnswer_def HandleTelemetry_def DebouncedTouch_def HandleCodeRun_def
    HandleCandidateQuestion_def Let_def case_prod_beta split: if_splits sum.splits prod.splits)

lemma live_back:
  assumes "ses_step en e (s, w) = Next (s', w')" "s_live s'"
  shows "s_live s"
proof (cases e)
  case (ReadFrame raw)
  then have r: "read_frame en raw (s, w) = (s', w')" using assms(1) by (auto split: if_splits)
  show ?thesis
  proof (cases "ParseClientMessage (en_Scan en) raw")
    case (Inr m)
    then show ?thesis using r assms(2) live_frame [of en m s w] by (auto simp: read_frame_def split: if_splits)
  qed (use r assms(2) in \<open>auto simp: read_frame_def split: if_splits\<close>)
next
  case ReaderContinues
  then have "(s', w') = HandleInterrupt en (s, w) \<or> (s', w') = HandleResume en (s, w)" using assms(1) by (auto split: if_splits reader.splits)
  then show ?thesis using assms(2) live_handlers(1,2) [of en s w] by (metis fst_conv)
next
  case (StreamOpens r)
  then obtain st t where "(s', w') = stream_open en r st t (s, w)" using assms(1) by (auto elim!: with_turn_Next)
  then show ?thesis using assms(2) live_streams(2) [of en r st t s w] by (metis fst_conv)
next
  case StreamEnds
  then obtain st t where "(s', w') = stream_close en st t (s, w)" using assms(1) by (auto elim!: with_turn_Next)
  then show ?thesis using assms(2) live_streams(3) [of en st t s w] by (metis fst_conv)
next
  case QAStep
  then obtain q where "qa_check en q (s, w) = (s', w')" using assms(1) by (auto split: option.splits qa_task.splits)
  then show ?thesis using assms(2) live_handlers(3) [of en q s w] by (metis fst_conv)
next
  case (QAReply r)
  then obtain q where "qa_reply en r q (s, w) = (s', w')" using assms(1) by (auto split: option.splits qa_task.splits)
  then show ?thesis using assms(2) live_handlers(4) [of en r q s w] by (metis fst_conv)
next
  case (CodeStep ex)
  then obtain m where "runCode en ex m (s, w) = (s', w')" using assms(1) by (auto split: option.splits)
  then show ?thesis using assms(2) live_handlers(5) [of en ex m s w] by (metis fst_conv)
qed (use assms in \<open>auto simp: touch_now_def elim!: with_turn_Next split: if_splits\<close>)

lemma run_live_back: "ses_run es (s, w) = Next (s', w') \<Longrightarrow> s_live s' \<Longrightarrow> s_live s"
proof (induction es arbitrary: s w)
  case (Cons p es)
  obtain en e where p: "p = (en, e)" by fastforce
  from Cons.prems(1) p obtain s1 w1 where n: "ses_step en e (s, w) = Next (s1, w1)" "ses_run es (s1, w1) = Next (s', w')"
    by (auto split: outcome.splits)
  from live_back [OF n(1) Cons.IH [OF n(2) Cons.prems(2)]] show ?case .
qed simp

lemma run_tallies:
  "ses_run es (s, w) = Next (s', w') \<Longrightarrow> ses_inv s \<Longrightarrow> s_live s' \<Longrightarrow>
     tallies s' = (fst (tallies s) + (\<Sum>(en, e) \<leftarrow> es. asks en e), snd (tallies s) + (\<Sum>(en, e) \<leftarrow> es. runs_code en e))"
proof (induction es arbitrary: s w)
  case (Cons p es)
  obtain en e where p: "p = (en, e)" by fastforce
  from Cons.prems(1) p obtain s1 w1 where n: "ses_step en e (s, w) = Next (s1, w1)" "ses_run es (s1, w1) = Next (s', w')"
    by (auto split: outcome.splits)
  have i: "ses_inv s1" using ses_step_inv [of "(s, w)" en e "(s1, w1)"] Cons.prems(2) n(1) by simp
  have l: "s_live s1" by (rule run_live_back [OF n(2) Cons.prems(3)])
  from Cons.IH [OF n(2) i Cons.prems(3)] step_tallies [OF Cons.prems(2) n(1) l live_back [OF n(1) l]] p
  show ?case by simp
qed simp

text \<open>
  Property C27. Every request of the candidate is answered exactly once. In any run of a connection that is still alive,
  with any interleaving, failure and model output: the number of question-answer frames sent, plus one while an answer
  is being prepared, is the number of candidate questions that were read, refused ones included; and the number of code
  results sent, plus one while code is running, is the number of code runs that were read.
\<close>

theorem every_request_answered:
  assumes "ses_run es (SendStartAndQuestion en (NewSession orgID interviewID sessionID prompt qaContext unavailable history, w)) = Next (s, w')"
    and "s_live s"
  shows "length (filter is_qa (s_sent s)) + (if s_qa s \<noteq> None then 1 else 0) = (\<Sum>(en, e) \<leftarrow> es. asks en e)
    \<and> length (filter is_code_result (s_sent s)) + (if s_run s \<noteq> None then 1 else 0) = (\<Sum>(en, e) \<leftarrow> es. runs_code en e)"
proof -
  let ?n = "NewSession orgID interviewID sessionID prompt qaContext unavailable history"
  obtain s0 w0 where start: "SendStartAndQuestion en (?n, w) = (s0, w0)" by fastforce
  have i: "ses_inv s0" using SendStartAndQuestion_frame(6) [of en ?n w] ses_inv_NewSession start by simp
  have "tallies s0 = (0, 0)"
    using tallies_start [of en ?n w] start by (simp add: tallies_def qa_tally_def code_tally_def NewSession_def)
  with run_tallies [OF assms(1) [unfolded start] i assms(2)]
  have t: "tallies s = ((\<Sum>(en, e) \<leftarrow> es. asks en e), (\<Sum>(en, e) \<leftarrow> es. runs_code en e))" by simp
  have "ses_inv s" using ses_run_inv [OF assms(1)] start i by simp
  with t show ?thesis by (simp add: tallies_def qa_tally_def code_tally_def ses_inv_def ses_tasks_def)
qed


lemma every_request_answered_witness:
  "\<exists>s w'. demo_steps [ReadFrame ''candidate_question'', ReadFrame ''candidate_question'', QAStep, QAReply (Inr ''yes'')] = Next (s, w')
     \<and> length (filter is_qa (s_sent s)) = 2"
proof -
  let ?es = "[ReadFrame ''candidate_question'', ReadFrame ''candidate_question'', QAStep, QAReply (Inr ''yes'')]"
  have e: "en_svc demo_engine = demo_service" "en_llm demo_engine" by (simp_all add: demo_engine_def)
  have n: "length ''candidate_question'' \<le> maxWSFrameBytes" by (simp add: maxWSFrameBytes_def)
  have t: "trim_space ''yes'' \<noteq> []" by code_simp
  obtain f g a where s: "SendStartAndQuestion demo_engine (demo_session, 0) =
    (demo_session\<lparr>s_lastQuestion := Some (demo_question 1), s_archetype := a, s_sent := [f, QuestionFrame g]\<rparr>, 0)"
    using demo_start by (elim exE) (rule that)
  have "\<exists>s w'. demo_steps ?es = Next (s, w') \<and> s_live s \<and> s_qa s = None"
    using e demo_parse n t unfolding demo_steps_def s
    by (simp add: read_frame_def handle_frame_def HandleCandidateQuestion_def demo_session_def NewSession_def demo_service_def
      qa_check_def qa_reply_def qa_done_def Let_def)
  then obtain s w' where r: "demo_steps ?es = Next (s, w')" "s_live s" "s_qa s = None" by blast
  have "asks demo_engine (ReadFrame ''candidate_question'') = 1" "asks demo_engine QAStep = 0" "asks demo_engine (QAReply x) = 0" for x
    using demo_parse(2) n by (simp_all add: asks_def frame_read_def)
  with every_request_answered [OF r(1) [unfolded demo_steps_def demo_session_def] r(2)] r(3)
  have "length (filter is_qa (s_sent s)) = 2" by simp
  with r(1) show ?thesis by blast
qed

end
