(* ===== verification/Session_Refinement.thy ===== *)
theory Session_Refinement
  imports Session_Guarantees Interview_Promises
begin

text \<open>
  What a connection may do to the interview store. The locale states what a connection asks of the interview
  service: every operation keeps a good store good and only moves it forward. Inside it every step of a
  connection is shown to move the store forward; the interpretation puts the interview service's own operations
  in, so that a connection refines a sequence of service calls for its own interview.
\<close>

section \<open>What a connection does to the store\<close>

text \<open>A service whose operations keep \<open>good\<close> stores good and only move them forward.\<close>

definition advances :: "('w \<Rightarrow> bool) \<Rightarrow> ('w \<Rightarrow> 'w \<Rightarrow> bool) \<Rightarrow> ('w \<Rightarrow> 'b \<times> 'w) \<Rightarrow> bool" where
  "advances good le m \<longleftrightarrow> (\<forall>w. good w \<longrightarrow> good (snd (m w)) \<and> le w (snd (m w)))"

lemma advancesD: "advances good le m \<Longrightarrow> good w \<Longrightarrow> m w = (r, w') \<Longrightarrow> good w' \<and> le w w'"
  by (auto simp: advances_def dest!: spec [of _ w])

locale session_service =
  fixes ok :: "'w engine \<Rightarrow> bool" and o1 :: uuid and i :: uuid and good :: "'w \<Rightarrow> bool" and le :: "'w \<Rightarrow> 'w \<Rightarrow> bool"
  assumes le_refl: "le w w" and le_trans: "le u v \<Longrightarrow> le v w \<Longrightarrow> le u w"
    and dialogue: "ok en \<Longrightarrow> advances good le (sv_ProcessTopicDialogue (en_svc en) o1 i c a p)"
    and remaining: "ok en \<Longrightarrow> advances good le (sv_SessionRemaining (en_svc en) o1 i)"
    and touch: "ok en \<Longrightarrow> advances good le (sv_TouchInterview (en_svc en) o1 i)"
    and telemetry: "ok en \<Longrightarrow> advances good le (sv_RecordTelemetry (en_svc en) o1 i ev)"
    and record_qa: "ok en \<Longrightarrow> advances good le (sv_RecordCandidateQA (en_svc en) o1 i q ans)"
    and qa_remaining: "ok en \<Longrightarrow> advances good le (sv_CandidateQARemaining (en_svc en) o1 i)"
    and current: "ok en \<Longrightarrow> advances good le (sv_CurrentState (en_svc en) o1 i)"
    and transcript: "ok en \<Longrightarrow> advances good le (sv_Transcript (en_svc en) o1 i)"
    and evaluate: "ok en \<Longrightarrow> advances good le (sv_EvaluateAndPersist (en_svc en) o1 i raw)"
    and enqueue: "ok en \<Longrightarrow> advances good le (sv_EnqueueEvaluation (en_svc en) o1 i)"
    and coding: "ok en \<Longrightarrow> advances good le (sv_RecordCodingSession (en_svc en) o1 i cs)"
begin

text \<open>The session is the one of this interview.\<close>

definition own :: "session \<Rightarrow> bool" where
  "own s \<longleftrightarrow> s_orgID s = o1 \<and> s_interviewID s = i"

definition forward :: "'w \<Rightarrow> session \<times> 'w \<Rightarrow> bool" where
  "forward w c \<longleftrightarrow> own (fst c) \<and> good (snd c) \<and> le w (snd c)"

lemma own_simps [simp]:
  "own (send f s) = own s" "own (SendQuestionOnce t s) = own s" "own (onQuestion q s) = own s" "own (transition_error r s) = own s"
  "own (remember_answer a s) = own s" "own (end_stream s) = own s" "own (cancel_stream s) = own s" "own (leave s) = own s"
  by (simp_all add: own_def end_stream_def cancel_stream_def leave_def Let_def)

lemma own_updates [simp]:
  "own (s\<lparr>s_turn := t\<rparr>) = own s" "own (s\<lparr>s_stream := st\<rparr>) = own s" "own (s\<lparr>s_turnActive := b\<rparr>) = own s"
  "own (s\<lparr>s_history := h\<rparr>) = own s" "own (s\<lparr>s_streamDone := b\<rparr>) = own s" "own (s\<lparr>s_streamCancel := b\<rparr>) = own s"
  "own (s\<lparr>s_reader := r\<rparr>) = own s" "own (s\<lparr>s_lastTouch := n\<rparr>) = own s" "own (s\<lparr>s_touchTimer := b\<rparr>) = own s"
  "own (s\<lparr>s_qa := x\<rparr>) = own s" "own (s\<lparr>s_qaActive := b\<rparr>) = own s" "own (s\<lparr>s_run := y\<rparr>) = own s"
  "own (s\<lparr>s_codeRunActive := b\<rparr>) = own s" "own (s\<lparr>s_slot := b\<rparr>) = own s"
  by (simp_all add: own_def)

lemma ownD: "own s \<Longrightarrow> s_orgID s = o1" "own s \<Longrightarrow> s_interviewID s = i"
  by (simp_all add: own_def)

lemma stays: "own s \<Longrightarrow> good w \<Longrightarrow> forward w (s, w)"
  by (simp add: forward_def le_refl)

lemma onward_from: "forward u (s, v) \<Longrightarrow> (good v \<Longrightarrow> forward v c) \<Longrightarrow> forward u c"
  by (auto simp: forward_def intro: le_trans)

lemma carried: "good w \<Longrightarrow> advances good le m \<Longrightarrow> good (snd (m w)) \<and> le w (snd (m w))"
  by (simp add: advances_def)

lemma after: "own s \<Longrightarrow> good w \<Longrightarrow> advances good le m \<Longrightarrow> m w = (r, w') \<Longrightarrow> forward w (s, w')"
  by (auto simp: forward_def dest: advancesD)

lemma after_snd: "own s \<Longrightarrow> good w \<Longrightarrow> advances good le m \<Longrightarrow> forward w (s, snd (m w))"
  by (simp add: forward_def carried)

lemma evaluation_forward:
  assumes "ok en" "good w" "own s" shows "forward w (SendEvaluation en (s, w))"
proof -
  note k = ownD [OF assms(3)]
  have p: "forward v (PendingEvaluation en (s, v))" if "good v" for v
    using after_snd [OF _ that enqueue [OF assms(1)]] assms(3) by (simp add: PendingEvaluation_def k case_prod_beta)
  obtain r1 w1 where t: "sv_Transcript (en_svc en) o1 i w = (r1, w1)" by fastforce
  note w1 = after [OF assms(3,2) transcript [OF assms(1)] t]
  have p1: "forward w (PendingEvaluation en (s, w1))" by (rule onward_from [OF w1 p])
  have "forward w (case sv_EvaluateAndPersist (en_svc en) o1 i raw w1 of
      (Inl e, w2) \<Rightarrow> PendingEvaluation en (s, w2) | (Inr u, w2) \<Rightarrow> (send (evaluation_frame report) s, w2))" for raw report
  proof -
    obtain r2 w2 where q: "sv_EvaluateAndPersist (en_svc en) o1 i raw w1 = (r2, w2)" by fastforce
    have "forward w1 (s', w2)" if "good w1" "own s'" for s' by (rule after [OF that(2,1) evaluate [OF assms(1)] q])
    then have w2: "forward w (s', w2)" if "own s'" for s' using w1 onward_from that by blast
    show ?thesis using q w2 assms(3) onward_from [OF w2 [OF assms(3)] p] by (cases r2) simp_all
  qed
  then show ?thesis using t p [OF assms(2)] p1
    by (simp add: SendEvaluation_def k split: sum.splits)
qed

lemma start_forward:
  assumes "ok en" "good w" "own s" shows "forward w (SendStartAndQuestion en (s, w))"
proof -
  note k = ownD [OF assms(3)]
  obtain r1 w1 where t: "sv_CurrentState (en_svc en) o1 i w = (r1, w1)" by fastforce
  note w1 = after [OF _ assms(2) current [OF assms(1)] t]
  have "forward w1 (s', snd (sv_SessionRemaining (en_svc en) o1 i w1))" if "good w1" "own s'" for s'
    by (rule after_snd [OF that(2,1) remaining [OF assms(1)]])
  then have "forward w (s', snd (sv_SessionRemaining (en_svc en) o1 i w1))" if "own s'" for s'
    using onward_from [OF w1 [OF that]] that by blast
  then show ?thesis using t w1 assms(3)
    by (auto simp: SendStartAndQuestion_def k Let_def case_prod_beta split: sum.splits option.splits)
qed

lemma dispatch_forward: "ok en \<Longrightarrow> good w \<Longrightarrow> own s \<Longrightarrow> forward w (interrupt_dispatch en t (s, w))"
  using evaluation_forward [of en w s] stays [of s w] by (simp add: interrupt_dispatch_def Let_def case_prod_beta forward_def)

lemma turn_forward:
  assumes "ok en" "good w" "sv_ProcessTopicDialogue (en_svc en) o1 i c a p w = (r, w1)" "own s'"
  shows "forward w (s', w1)" "forward w (s', snd (sv_SessionRemaining (en_svc en) o1 i w1))"
proof -
  show w1: "forward w (s', w1)" by (rule after [OF assms(4,2) dialogue [OF assms(1)] assms(3)])
  show "forward w (s', snd (sv_SessionRemaining (en_svc en) o1 i w1))"
    by (rule onward_from [OF w1]) (rule after_snd [OF assms(4) _ remaining [OF assms(1)]])
qed

lemma interrupt_forward:
  assumes "ok en" "good w" "own s" shows "forward w (HandleInterrupt en (s, w))"
proof -
  note k = ownD [OF assms(3)]
  obtain r w1 where r: "sv_ProcessTopicDialogue (en_svc en) o1 i interrupted_answer advance None w = (r, w1)"
    by fastforce
  have d: "forward w (interrupt_dispatch en t (s', snd (sv_SessionRemaining (en_svc en) o1 i w1)))" if "own s'" for t s'
    using turn_forward(2) [OF assms(1,2) r that] dispatch_forward [OF assms(1) _ that] onward_from by blast
  show ?thesis
    using r d stays [OF _ assms(2)] turn_forward(1) [OF assms(1,2) r] dispatch_forward [OF assms(1,2)] assms(3)
    by (auto simp: HandleInterrupt_def k Let_def case_prod_beta split: option.splits sum.splits)
qed

lemma answer_forward:
  assumes "ok en" "good w" "own s" shows "forward w (HandleAnswer en m (s, w))"
proof -
  note k = ownD [OF assms(3)]
  obtain r w1 where r: "sv_ProcessTopicDialogue (en_svc en) o1 i (am_Content m) (am_Action m) (am_Pacing m) w = (r, w1)"
    by fastforce
  show ?thesis using r stays [OF _ assms(2)] turn_forward [OF assms(1,2) r] assms(3)
    by (auto simp: HandleAnswer_def k Let_def case_prod_beta split: sum.splits)
qed

lemma fallback_forward: "ok en \<Longrightarrow> good w \<Longrightarrow> own s \<Longrightarrow> forward w (stream_fallback en m st t (s, w))"
  using evaluation_forward [of en w "SendQuestionOnce t (send (ErrorFrame [] m) s)"] stays [of s w]
  by (simp add: stream_fallback_def Let_def case_prod_beta forward_def)

lemma stream_forward:
  assumes "ok en" "good w" "own s"
  shows "forward w (stream_open en r st t (s, w))" "forward w (stream_close en st t (s, w))"
  using fallback_forward [OF assms] stays [OF assms(3,2)] assms(3)
    evaluation_forward [OF assms(1,2), of "SendQuestionOnce t (send (response_frame st t) s)"]
  by (simp_all add: stream_open_def stream_close_def Let_def case_prod_beta forward_def split: sum.splits)

lemma qa_forward:
  assumes "ok en" "good w" "own s"
  shows "forward w (qa_check en q (s, w))" "forward w (qa_reply en r q (s, w))"
proof -
  note k = ownD [OF assms(3)]
  have dn: "own (qa_done f s)" for f using assms(3) by (simp add: qa_done_def)
  obtain r1 w1 where t: "sv_CandidateQARemaining (en_svc en) o1 i w = (r1, w1)" by fastforce
  show "forward w (qa_check en q (s, w))"
    using t after [OF _ assms(2) qa_remaining [OF assms(1)] t] assms(3) dn by (simp add: qa_check_def k split: sum.splits)
  have "forward w (qa_done f s, snd (sv_RecordCandidateQA (en_svc en) o1 i q x w))" for f x
    by (rule after_snd [OF dn assms(2) record_qa [OF assms(1)]])
  then show "forward w (qa_reply en r q (s, w))" using stays [OF dn assms(2)]
    by (auto simp: qa_reply_def k Let_def split: sum.splits prod.splits) (metis snd_conv)+
qed

lemma code_forward: "ok en \<Longrightarrow> good w \<Longrightarrow> own s \<Longrightarrow> forward w (runCode en ex m (s, w))"
  using carried [OF _ coding] by (auto simp: runCode_def forward_def le_refl Let_def ownD split: sum.splits option.splits)

lemma touch_forward: "ok en \<Longrightarrow> good w \<Longrightarrow> own s \<Longrightarrow> forward w (touch_now en (s, w))"
  using after_snd [OF _ _ touch, of "s\<lparr>s_lastTouch := en_Now en\<rparr>" w en] by (simp add: touch_now_def ownD)

lemma frame_forward:
  assumes "ok en" "good w" "own s" shows "forward w (read_frame en raw (s, w))"
proof -
  have "forward w (handle_frame en m (s, w))" for m
  proof (cases m)
    case (Telemetry t)
    then show ?thesis using after_snd [OF assms(3,2) telemetry [OF assms(1)]] assms(3)
      by (simp add: handle_frame_def HandleTelemetry_def ownD Let_def)
  qed (use stays [OF _ assms(2)] answer_forward [OF assms] touch_forward [OF assms] assms(3) in
    \<open>simp_all add: handle_frame_def DebouncedTouch_def HandleCodeRun_def HandleCandidateQuestion_def\<close>)
  then show ?thesis using stays [OF _ assms(2)] assms(3) by (simp add: read_frame_def split: sum.splits)
qed

lemma step_forward:
  assumes "ok en" "good w" "own s" "ses_step en e (s, w) = Next c"
  shows "forward w c"
proof -
  note a = assms(1,2)
  have touch': "forward w (touch_now en (s\<lparr>s_touchTimer := False\<rparr>, w))" by (rule touch_forward [OF a]) (simp add: assms(3))
  have resume': "forward w (HandleResume en (s, w))"
    unfolding HandleResume_def case_prod_conv by (rule start_forward [OF a]) (simp add: assms(3))
  show ?thesis
    using assms(4) stays [OF _ assms(2)] frame_forward [OF a assms(3)] interrupt_forward [OF a assms(3)] resume'
      stream_forward [OF a assms(3)] qa_forward [OF a assms(3)] code_forward [OF a assms(3)] touch' assms(3)
    by (cases e) (auto simp: stream_token_def elim!: with_turn_Next split: if_splits reader.splits option.splits qa_task.splits)
qed

lemma reach_forward:
  assumes "ses_reach ok c0 c" "good (snd c0)" "own (fst c0)"
  shows "forward (snd c0) c"
  using assms
proof (induction rule: ses_reach.induct)
  case (connected en)
  then show ?case using start_forward [of en "snd c0" "fst c0"] by simp
next
  case (stepped c en e c')
  obtain s w where c: "c = (s, w)" by fastforce
  with stepped have f: "forward (snd c0) (s, w)" by simp
  then have own: "own s" by (simp add: forward_def)
  show ?case by (rule onward_from [OF f]) (rule step_forward [OF stepped.hyps(2) _ own stepped.hyps(3) [unfolded c]])
qed

end


section \<open>The interview service as a provider\<close>

text \<open>The calls a connection may make: those of its engine, for its own organisation and interview.\<close>

fun connection_call :: "uuid \<Rightarrow> uuid \<Rightarrow> iv_call \<Rightarrow> bool" where
  "connection_call o1 i (CallDialogue o2 k c a p) = (o2 = o1 \<and> k = i)"
| "connection_call o1 i (CallTouch o2 k) = (o2 = o1 \<and> k = i)"
| "connection_call o1 i (CallTelemetry o2 k e) = (o2 = o1 \<and> k = i)"
| "connection_call o1 i (CallQA o2 k q a) = (o2 = o1 \<and> k = i)"
| "connection_call o1 i (CallQARemaining o2 k) = (o2 = o1 \<and> k = i)"
| "connection_call o1 i (CallCurrent o2 k) = (o2 = o1 \<and> k = i)"
| "connection_call o1 i (CallTranscript o2 k) = (o2 = o1 \<and> k = i)"
| "connection_call o1 i (CallEvaluate o2 k r) = (o2 = o1 \<and> k = i)"
| "connection_call o1 i (CallEnqueueEvaluation o2 k) = (o2 = o1 \<and> k = i)"
| "connection_call o1 i (CallCoding o2 k cs) = (o2 = o1 \<and> k = i)"
| "connection_call o1 i c = False"

text \<open>The abstract connection: any sequence of such calls, and of readings of the time that is left.\<close>

inductive served :: "uuid \<Rightarrow> uuid \<Rightarrow> 'm iv_state \<Rightarrow> 'm iv_state \<Rightarrow> bool" for o1 i d where
  idle: "served o1 i d d"
| called: "served o1 i d e \<Longrightarrow> connection_call o1 i c \<Longrightarrow> served o1 i d (snd (iv_run x now n c e))"
| timed: "served o1 i d e \<Longrightarrow> served o1 i d (snd (svc_SessionRemaining now o1 i e))"

lemma served_trans: "served o1 i e f \<Longrightarrow> served o1 i d e \<Longrightarrow> served o1 i d f"
  by (induction rule: served.induct) (auto intro: served.intros)

lemma snd_done_with [simp]: "snd (done_with m d) = snd (m d)"
  by (auto simp: done_with_def bindE_def ret_def split: prod.splits sum.splits)

definition sound_store :: "'m iv_state \<Rightarrow> bool" where
  "sound_store d \<longleftrightarrow> \<not> in_tx d \<and> wf_iv (tables d)"

lemma remaining_top_moves: "top_moves (RunInTx o1 (bindE (attempt (iv_GetByID i)) (\<lambda>_. ret ())))"
  by (intro top_moves_read clean_intros)

lemma remaining_sound: "sound_store d \<Longrightarrow> sound_store (snd (svc_SessionRemaining now o1 i d))"
  using top_movesD [OF remaining_top_moves, of d] unfolding sound_store_def svc_SessionRemaining_def snd_conv
  by (metis moves_def prod.collapse)

lemma call_sound: "sound_store d \<Longrightarrow> sound_store (snd (iv_run x now n c d))"
  using iv_run_step(1,2) unfolding sound_store_def by (metis prod.collapse)

lemma call_advances:
  assumes "connection_call o1 i c" "\<And>d. snd (m d) = snd (iv_run x now n c d)"
  shows "advances sound_store (served o1 i) m"
  unfolding advances_def assms(2) using call_sound called [OF idle assms(1)] by blast

lemma served_evolves:
  assumes "served o1 i d e" "sound_store d"
  shows "sound_store e \<and> evolves (t_interviews (tables d)) (t_interviews (tables e))"
  using assms
proof (induction rule: served.induct)
  case (called e c x now n)
  then have e: "sound_store e" "evolves (t_interviews (tables d)) (t_interviews (tables e))" by simp_all
  obtain r e' where r: "iv_run x now n c e = (r, e')" by fastforce
  from iv_run_step(3) [OF _ _ r] e(1) have "evolves (t_interviews (tables e)) (t_interviews (tables e'))"
    by (simp add: sound_store_def)
  from evolves_trans [OF e(2) this] call_sound [OF e(1), of x now n c] r show ?case by simp
next
  case (timed e now)
  then have e: "sound_store e" "evolves (t_interviews (tables d)) (t_interviews (tables e))" by simp_all
  then have "evolves (t_interviews (tables e)) (t_interviews (tables (snd (svc_SessionRemaining now o1 i e))))"
    using top_movesD [OF remaining_top_moves, of e] unfolding sound_store_def svc_SessionRemaining_def snd_conv
    by (metis moves_def prod.collapse)
  with e remaining_sound [OF e(1)] show ?case by (blast intro: evolves_trans)
qed simp

definition runs_interviews :: "'m iv_state engine \<Rightarrow> bool" where
  "runs_interviews en \<longleftrightarrow> (\<exists>x now n. en_svc en = interview_service x now n)"

interpretation ivs: session_service runs_interviews o1 i sound_store "served o1 i" for o1 i
proof
  fix w :: "'m iv_state" show "served o1 i w w" by (rule idle)
next
  fix u v w :: "'m iv_state" assume "served o1 i u v" "served o1 i v w" then show "served o1 i u w" by (rule served_trans [rotated])
next
  fix en :: "'m iv_state engine" assume "runs_interviews en"
  then obtain x now n where e: "en_svc en = interview_service x now n" by (auto simp: runs_interviews_def)
  note [simp] = e interview_service_def and call = call_advances [where x = x and now = now and n = n]
  show "advances sound_store (served o1 i) (sv_ProcessTopicDialogue (en_svc en) o1 i c a p)" for c a p
    by (rule call [of _ _ "CallDialogue o1 i c a p"]) simp_all
  show "advances sound_store (served o1 i) (sv_SessionRemaining (en_svc en) o1 i)"
    using timed [OF idle] remaining_sound by (auto simp: advances_def)
  show "advances sound_store (served o1 i) (sv_TouchInterview (en_svc en) o1 i)"
    by (rule call [of _ _ "CallTouch o1 i"]) simp_all
  show "advances sound_store (served o1 i) (sv_RecordTelemetry (en_svc en) o1 i ev)" for ev
    by (rule call [of _ _ "CallTelemetry o1 i ev"]) simp_all
  show "advances sound_store (served o1 i) (sv_RecordCandidateQA (en_svc en) o1 i q ans)" for q ans
    by (rule call [of _ _ "CallQA o1 i q ans"]) simp_all
  show "advances sound_store (served o1 i) (sv_CandidateQARemaining (en_svc en) o1 i)"
    by (rule call [of _ _ "CallQARemaining o1 i"]) simp_all
  show "advances sound_store (served o1 i) (sv_CurrentState (en_svc en) o1 i)"
    by (rule call [of _ _ "CallCurrent o1 i"]) simp_all
  show "advances sound_store (served o1 i) (sv_Transcript (en_svc en) o1 i)"
    by (rule call [of _ _ "CallTranscript o1 i"]) simp_all
  show "advances sound_store (served o1 i) (sv_EvaluateAndPersist (en_svc en) o1 i raw)" for raw
    by (rule call [of _ _ "CallEvaluate o1 i raw"]) simp_all
  show "advances sound_store (served o1 i) (sv_EnqueueEvaluation (en_svc en) o1 i)"
    by (rule call [of _ _ "CallEnqueueEvaluation o1 i"]) simp_all
  show "advances sound_store (served o1 i) (sv_RecordCodingSession (en_svc en) o1 i cs)" for cs
    by (rule call [of _ _ "CallCoding o1 i cs"]) simp_all
qed

text \<open>
  Property C28. A connection refines the interview service: whatever frames it reads and in whatever order its
  goroutines run, the store it leaves is one that some sequence of calls to the interview service produces, each
  of a kind the dialogue engine makes and for the organisation and the interview of the connection. So the stored
  interviews stay well formed and only move on.
\<close>

theorem session_refines_service:
  assumes "ses_reach runs_interviews (NewSession o1 i sid base ctx g hist, d) (s, d')" "\<not> in_tx d" "wf_iv (tables d)"
  shows "served o1 i d d' \<and> wf_iv (tables d') \<and> evolves (t_interviews (tables d)) (t_interviews (tables d'))"
proof -
  have "ivs.own o1 i (NewSession o1 i sid base ctx g hist)" by (simp add: ivs.own_def NewSession_def)
  then have "served o1 i d d'"
    using ivs.reach_forward [OF assms(1), of o1 i] assms(2,3) by (simp add: ivs.forward_def sound_store_def)
  with served_evolves [OF this] assms(2,3) show ?thesis by (simp add: sound_store_def)
qed

definition demo_iv_engine :: "(unit, iv_effect) iv_db engine" where
  "demo_iv_engine = \<lparr>en_svc = interview_service demo_externals 20 20, en_llm = True, en_CountTokens = (\<lambda>t. 0), en_Ask = (\<lambda>p. Inl ErrNoTx),
     en_MarshalPairs = (\<lambda>p. Inl ErrNoTx), en_MarshalReport = (\<lambda>r. Inl ErrNoTx), en_Orders = ([], []), en_Scan = (\<lambda>s. Inl ErrNoTx),
     en_ParseTime = (\<lambda>s. Inl ErrNoTx), en_Now = 20, en_CodeRunner = False, en_AcquireCodeRun = None\<rparr>"

lemma session_refines_service_witness:
  "\<exists>s d. ses_reach runs_interviews (NewSession ''o1'' ''iv'' ''sid'' [] [] False [], demo_iv_db) (s, d) \<and> served ''o1'' ''iv'' demo_iv_db d"
proof -
  have "runs_interviews demo_iv_engine" unfolding runs_interviews_def demo_iv_engine_def by auto
  from connected [where ok = runs_interviews, OF this] obtain s d
    where r: "ses_reach runs_interviews (NewSession ''o1'' ''iv'' ''sid'' [] [] False [], demo_iv_db) (s, d)"
    by (metis prod.collapse)
  from session_refines_service [OF this demo_iv_ok(2,1)] r show ?thesis by blast
qed

end
