(* ===== verification/Webhook_Address.thy ===== *)
theory Webhook_Address
  imports Shared "HOL-Library.Word"
begin

text \<open>
  The guard of webhook URLs against server-side request forgery (\<open>src/backend/internal/integration/domain/webhook.go\<close>):
  \<open>isPublicIP\<close> with the predicates of Go's \<open>net.IP\<close> it uses, on the bytes of an address, the ranges it is equivalent
  to, and \<open>ValidateWebhookURL\<close>. \<open>url.Parse\<close>, \<open>net.ParseIP\<close> and the resolver are parameters.
\<close>

unbundle bit_operations_syntax

section \<open>Addresses\<close>

type_synonym byte = "8 word"

text \<open>\<open>net.IP\<close>: \<open>To4\<close>, the predicates \<open>isPublicIP\<close> uses, and \<open>IPNet.Contains\<close>.\<close>

definition To4 :: "byte list \<Rightarrow> byte list option" where
  "To4 ip = (if length ip = 4 then Some ip
     else if length ip = 16 \<and> take 10 ip = replicate 10 0 \<and> ip ! 10 = 0xff \<and> ip ! 11 = 0xff then Some (drop 12 ip)
     else None)"

definition ip_Equal :: "byte list \<Rightarrow> byte list \<Rightarrow> bool" where
  "ip_Equal ip x = (if length ip = length x then ip = x
     else (case (To4 ip, To4 x) of (Some a, Some b) \<Rightarrow> a = b | _ \<Rightarrow> False))"

definition IPv4 :: "byte \<Rightarrow> byte \<Rightarrow> byte \<Rightarrow> byte \<Rightarrow> byte list" where
  "IPv4 a b c d = replicate 10 0 @ [0xff, 0xff, a, b, c, d]"

definition IsUnspecified :: "byte list \<Rightarrow> bool" where
  "IsUnspecified ip \<longleftrightarrow> ip_Equal ip (IPv4 0 0 0 0) \<or> ip_Equal ip (replicate 16 0)"

definition IsLoopback :: "byte list \<Rightarrow> bool" where
  "IsLoopback ip = (case To4 ip of Some q \<Rightarrow> q ! 0 = 127 | None \<Rightarrow> ip_Equal ip (replicate 15 0 @ [1]))"

definition IsPrivate :: "byte list \<Rightarrow> bool" where
  "IsPrivate ip = (case To4 ip of
     Some q \<Rightarrow> q ! 0 = 10 \<or> (q ! 0 = 172 \<and> q ! 1 AND 0xf0 = 16) \<or> (q ! 0 = 192 \<and> q ! 1 = 168)
   | None \<Rightarrow> length ip = 16 \<and> ip ! 0 AND 0xfe = 0xfc)"

definition IsMulticast :: "byte list \<Rightarrow> bool" where
  "IsMulticast ip = (case To4 ip of Some q \<Rightarrow> q ! 0 AND 0xf0 = 0xe0 | None \<Rightarrow> length ip = 16 \<and> ip ! 0 = 0xff)"

definition IsLinkLocalMulticast :: "byte list \<Rightarrow> bool" where
  "IsLinkLocalMulticast ip = (case To4 ip of Some q \<Rightarrow> q ! 0 = 224 \<and> q ! 1 = 0 \<and> q ! 2 = 0
   | None \<Rightarrow> length ip = 16 \<and> ip ! 0 = 0xff \<and> ip ! 1 AND 0x0f = 0x02)"

definition IsLinkLocalUnicast :: "byte list \<Rightarrow> bool" where
  "IsLinkLocalUnicast ip = (case To4 ip of Some q \<Rightarrow> q ! 0 = 169 \<and> q ! 1 = 254
   | None \<Rightarrow> length ip = 16 \<and> ip ! 0 = 0xfe \<and> ip ! 1 AND 0xc0 = 0x80)"

definition IsGlobalUnicast :: "byte list \<Rightarrow> bool" where
  "IsGlobalUnicast ip \<longleftrightarrow> (length ip = 4 \<or> length ip = 16) \<and> \<not> ip_Equal ip (IPv4 255 255 255 255) \<and> \<not> IsUnspecified ip
     \<and> \<not> IsLoopback ip \<and> \<not> IsMulticast ip \<and> \<not> IsLinkLocalUnicast ip"

text \<open>The mask with \<open>ones\<close> leading bits, as \<open>net.ParseCIDR\<close> builds it.\<close>

fun cidr_mask :: "nat \<Rightarrow> nat \<Rightarrow> byte list" where
  "cidr_mask 0 ones = []"
| "cidr_mask (Suc l) ones = (if 8 \<le> ones then 0xff # cidr_mask l (ones - 8) else NOT (drop_bit ones 0xff) # cidr_mask l 0)"

definition net_Contains :: "byte list \<times> nat \<Rightarrow> byte list \<Rightarrow> bool" where
  "net_Contains net ip0 = (let ip = (case To4 ip0 of Some q \<Rightarrow> q | None \<Rightarrow> ip0); m = cidr_mask (length (fst net)) (snd net)
     in length ip = length (fst net) \<and> map2 (AND) (fst net) m = map2 (AND) ip m)"

definition blocked_nets :: "(byte list \<times> nat) list" where
  "blocked_nets = [([100, 64, 0, 0], 10), ([192, 0, 0, 0], 24), ([192, 0, 2, 0], 24), ([198, 18, 0, 0], 15),
     ([198, 51, 100, 0], 24), ([203, 0, 113, 0], 24), ([240, 0, 0, 0], 4)]"

definition isPublicIP :: "byte list \<Rightarrow> bool" where
  "isPublicIP ip \<longleftrightarrow> \<not> list_ex (\<lambda>n. net_Contains n ip) blocked_nets \<and> IsGlobalUnicast ip \<and> \<not> IsLoopback ip \<and> \<not> IsPrivate ip
     \<and> \<not> IsLinkLocalUnicast ip \<and> \<not> IsLinkLocalMulticast ip \<and> \<not> IsUnspecified ip \<and> \<not> IsMulticast ip"

section \<open>Address ranges\<close>

text \<open>The reference: an address as the number its bytes write, and the ranges a webhook must not reach.\<close>

definition ip_number :: "byte list \<Rightarrow> nat" where
  "ip_number bs = foldl (\<lambda>n b. 256 * n + unat b) 0 bs"

definition quad :: "nat \<Rightarrow> nat \<Rightarrow> nat \<Rightarrow> nat \<Rightarrow> nat" where
  "quad a b c d = ((a * 256 + b) * 256 + c) * 256 + d"

definition reserved_v4 :: "(nat \<times> nat) list" where
  "reserved_v4 = [(0, 0), (quad 10 0 0 0, quad 10 255 255 255), (quad 100 64 0 0, quad 100 127 255 255),
     (quad 127 0 0 0, quad 127 255 255 255), (quad 169 254 0 0, quad 169 254 255 255), (quad 172 16 0 0, quad 172 31 255 255),
     (quad 192 0 0 0, quad 192 0 0 255), (quad 192 0 2 0, quad 192 0 2 255), (quad 192 168 0 0, quad 192 168 255 255),
     (quad 198 18 0 0, quad 198 19 255 255), (quad 198 51 100 0, quad 198 51 100 255), (quad 203 0 113 0, quad 203 0 113 255),
     (quad 224 0 0 0, quad 255 255 255 255)]"

definition reserved_v6 :: "(nat \<times> nat) list" where
  "reserved_v6 = [(0, 1), (0xfc00 * 2 ^ 112, 0xfe00 * 2 ^ 112 - 1), (0xfe80 * 2 ^ 112, 0xfec0 * 2 ^ 112 - 1),
     (0xff00 * 2 ^ 112, 0x10000 * 2 ^ 112 - 1)]"

definition outside :: "nat \<Rightarrow> (nat \<times> nat) list \<Rightarrow> bool" where
  "outside n rs \<longleftrightarrow> (\<forall>(lo, hi) \<in> set rs. n < lo \<or> hi < n)"

lemma and_not_mask: "(a :: byte) AND NOT (mask n) = push_bit n (drop_bit n a)"
  by (rule bit_word_eqI) (auto simp: bit_simps)

lemma octet_less: "unat (a :: byte) < 256"
  using unsigned_less [of a, where 'a = nat] by simp

lemma unat_high_bits: "unat ((a :: byte) AND NOT (mask n)) = unat a div 2 ^ n * 2 ^ n"
proof -
  have "unat a div 2 ^ n * 2 ^ n < 256" by (rule le_less_trans [OF div_times_less_eq_dividend octet_less])
  moreover have "unat (push_bit n (drop_bit n a)) = take_bit 8 (push_bit n (drop_bit n (unat a)))"
    using octet_less [of a] take_bit_nat_eq_self [of "unat a" 8]
    by (simp add: unsigned_push_bit_eq unsigned_drop_bit_eq flip: push_bit_eq_mult drop_bit_eq_div)
  ultimately show ?thesis
    by (simp add: and_not_mask push_bit_eq_mult drop_bit_eq_div take_bit_eq_mod del: unsigned_push_bit_eq)
qed

lemma byte_mask_values: "(0xf0 :: byte) = NOT (mask 4)" "(0xfe :: byte) = NOT (mask 1)" "(0xc0 :: byte) = NOT (mask 6)"
  by (simp_all add: mask_eq_exp_minus_1)

lemma byte_masks:
  "(a :: byte) AND 0xf0 = 16 \<longleftrightarrow> 16 \<le> unat a \<and> unat a \<le> 31"
  "a AND 0xf0 = 0xe0 \<longleftrightarrow> 224 \<le> unat a \<and> unat a \<le> 239"
  "a AND 0xfe = 0xfc \<longleftrightarrow> 252 \<le> unat a \<and> unat a \<le> 253"
  "a AND 0xc0 = 0x80 \<longleftrightarrow> 128 \<le> unat a \<and> unat a \<le> 191"
  "a AND 0xc0 = 0x40 \<longleftrightarrow> 64 \<le> unat a \<and> unat a \<le> 127"
  "a AND 0xfe = 0x12 \<longleftrightarrow> 18 \<le> unat a \<and> unat a \<le> 19"
  "a AND 0xf0 = 0xf0 \<longleftrightarrow> 240 \<le> unat a"
proof -
  have n: "unat (NOT (mask 4) :: byte) = 240" unfolding byte_mask_values [symmetric] by simp
  show "a AND 0xf0 = 16 \<longleftrightarrow> 16 \<le> unat a \<and> unat a \<le> 31" "a AND 0xf0 = 0xe0 \<longleftrightarrow> 224 \<le> unat a \<and> unat a \<le> 239"
    "a AND 0xfe = 0xfc \<longleftrightarrow> 252 \<le> unat a \<and> unat a \<le> 253" "a AND 0xc0 = 0x80 \<longleftrightarrow> 128 \<le> unat a \<and> unat a \<le> 191"
    "a AND 0xc0 = 0x40 \<longleftrightarrow> 64 \<le> unat a \<and> unat a \<le> 127" "a AND 0xfe = 0x12 \<longleftrightarrow> 18 \<le> unat a \<and> unat a \<le> 19"
    "a AND 0xf0 = 0xf0 \<longleftrightarrow> 240 \<le> unat a"
    unfolding byte_mask_values word_unat_eq_iff unat_high_bits n using octet_less [of a] by auto
qed

lemma byte_eq: "(a :: byte) = numeral k \<longleftrightarrow> unat a = numeral k mod 256"
  by (simp add: word_unat_eq_iff unsigned_numeral take_bit_eq_mod)

text \<open>The four-byte form.\<close>

lemma To4D: "To4 ip = Some q \<Longrightarrow> length q = 4 \<and> (ip = q \<or> ip = replicate 10 0 @ [0xff, 0xff] @ q)"
proof -
  assume t: "To4 ip = Some q"
  show ?thesis
  proof (cases "length ip = 4")
    case False
    with t have i: "length ip = 16" "take 10 ip = replicate 10 0" "ip ! 10 = 0xff" "ip ! 11 = 0xff" "q = drop 12 ip"
      by (auto simp: To4_def split: if_splits)
    have "drop 10 ip = ip ! 10 # ip ! 11 # drop 12 ip" using i(1) by (simp add: Cons_nth_drop_Suc [symmetric] numeral_eq_Suc)
    with i append_take_drop_id [of 10 ip] show ?thesis by simp
  qed (use t in \<open>simp add: To4_def\<close>)
qed

lemma To4_four: "length q = 4 \<Longrightarrow> To4 q = Some q"
  by (simp add: To4_def)

lemma To4_IPv4: "To4 (IPv4 a b c d) = Some [a, b, c, d]"
  by (simp add: To4_def IPv4_def nth_append)

lemma To4_v6 [simp]: "To4 (replicate 16 0) = None" "To4 (replicate 15 0 @ [1]) = None"
  by (simp_all add: To4_def nth_append)

lemma ip_Equal_To4:
  assumes "To4 ip = Some q"
  shows "ip_Equal ip (IPv4 a b c d) = (q = [a, b, c, d])" "\<not> ip_Equal ip (replicate 16 0)"
proof -
  note d = To4D [OF assms]
  show "ip_Equal ip (IPv4 a b c d) = (q = [a, b, c, d])"
    using d assms To4_IPv4 [of a b c d] by (auto simp: ip_Equal_def IPv4_def)
  show "\<not> ip_Equal ip (replicate 16 0)"
  proof
    assume e: "ip_Equal ip (replicate 16 0)"
    then have "length ip = 16" using assms by (auto simp: ip_Equal_def split: if_splits)
    with e have "ip = replicate 16 0" by (simp add: ip_Equal_def)
    with assms show False by simp
  qed
qed

lemma isPublicIP_To4:
  assumes "To4 ip = Some q" shows "isPublicIP ip = isPublicIP q"
proof -
  have q: "To4 q = Some q" "length q = 4" "length ip = 4 \<or> length ip = 16" using To4D [OF assms] by (auto simp: To4_def)
  show ?thesis
    unfolding isPublicIP_def net_Contains_def IsGlobalUnicast_def IsLoopback_def IsPrivate_def
      IsMulticast_def IsLinkLocalMulticast_def IsLinkLocalUnicast_def IsUnspecified_def
    using ip_Equal_To4 [OF assms] ip_Equal_To4 [OF q(1)] q by (simp add: assms)
qed

lemma quad_conv: "length q = 4 \<Longrightarrow> \<exists>a b c d. q = [a, b, c, d]"
  by (auto simp: numeral_eq_Suc length_Suc_conv)

lemma ip_number_quad: "ip_number [a, b, c, d] = quad (unat a) (unat b) (unat c) (unat d)"
  by (simp add: ip_number_def quad_def algebra_simps)

lemma radix_le: "(c :: nat) < 256 \<Longrightarrow> d < 256 \<Longrightarrow> x * 256 + c \<le> y * 256 + d \<longleftrightarrow> x < y \<or> x = y \<and> c \<le> d"
  by (cases x y rule: linorder_cases) linarith+

lemma radix_less: "(c :: nat) < 256 \<Longrightarrow> d < 256 \<Longrightarrow> x * 256 + c < y * 256 + d \<longleftrightarrow> x < y \<or> x = y \<and> c < d"
  by (cases x y rule: linorder_cases) linarith+

lemma radix_eq: "(c :: nat) < 256 \<Longrightarrow> d < 256 \<Longrightarrow> x * 256 + c = y * 256 + d \<longleftrightarrow> x = y \<and> c = d"
  by (cases x y rule: linorder_cases) linarith+

lemma quad_le:
  assumes "b < 256" "c < 256" "d < 256" "b' < 256" "c' < 256" "d' < 256"
  shows "quad a b c d \<le> quad a' b' c' d' \<longleftrightarrow> a < a' \<or> a = a' \<and> (b < b' \<or> b = b' \<and> (c < c' \<or> c = c' \<and> d \<le> d'))"
  unfolding quad_def using assms by (auto simp: radix_le radix_less radix_eq)

lemma in_range_v4:
  assumes "a < 256" "b < 256" "c < 256" "d < 256"
  shows "quad 10 0 0 0 \<le> quad a b c d \<and> quad a b c d \<le> quad 10 255 255 255 \<longleftrightarrow> a = 10"
    "quad 100 64 0 0 \<le> quad a b c d \<and> quad a b c d \<le> quad 100 127 255 255 \<longleftrightarrow> a = 100 \<and> 64 \<le> b \<and> b \<le> 127"
    "quad 127 0 0 0 \<le> quad a b c d \<and> quad a b c d \<le> quad 127 255 255 255 \<longleftrightarrow> a = 127"
    "quad 169 254 0 0 \<le> quad a b c d \<and> quad a b c d \<le> quad 169 254 255 255 \<longleftrightarrow> a = 169 \<and> b = 254"
    "quad 172 16 0 0 \<le> quad a b c d \<and> quad a b c d \<le> quad 172 31 255 255 \<longleftrightarrow> a = 172 \<and> 16 \<le> b \<and> b \<le> 31"
    "quad 192 0 0 0 \<le> quad a b c d \<and> quad a b c d \<le> quad 192 0 0 255 \<longleftrightarrow> a = 192 \<and> b = 0 \<and> c = 0"
    "quad 192 0 2 0 \<le> quad a b c d \<and> quad a b c d \<le> quad 192 0 2 255 \<longleftrightarrow> a = 192 \<and> b = 0 \<and> c = 2"
    "quad 192 168 0 0 \<le> quad a b c d \<and> quad a b c d \<le> quad 192 168 255 255 \<longleftrightarrow> a = 192 \<and> b = 168"
    "quad 198 18 0 0 \<le> quad a b c d \<and> quad a b c d \<le> quad 198 19 255 255 \<longleftrightarrow> a = 198 \<and> 18 \<le> b \<and> b \<le> 19"
    "quad 198 51 100 0 \<le> quad a b c d \<and> quad a b c d \<le> quad 198 51 100 255 \<longleftrightarrow> a = 198 \<and> b = 51 \<and> c = 100"
    "quad 203 0 113 0 \<le> quad a b c d \<and> quad a b c d \<le> quad 203 0 113 255 \<longleftrightarrow> a = 203 \<and> b = 0 \<and> c = 113"
    "quad 224 0 0 0 \<le> quad a b c d \<and> quad a b c d \<le> quad 255 255 255 255 \<longleftrightarrow> 224 \<le> a"
    "quad a b c d \<le> 0 \<longleftrightarrow> a = 0 \<and> b = 0 \<and> c = 0 \<and> d = 0"
  using assms by (auto simp: quad_le simp del: One_nat_def) (auto simp: quad_def)

lemma cidr_masks: "cidr_mask (Suc (Suc (Suc (Suc 0)))) 10 = [0xff, 0xc0, 0, 0]"
  "cidr_mask (Suc (Suc (Suc (Suc 0)))) 24 = [0xff, 0xff, 0xff, 0]" "cidr_mask (Suc (Suc (Suc (Suc 0)))) 15 = [0xff, 0xfe, 0, 0]"
  "cidr_mask (Suc (Suc (Suc (Suc 0)))) 4 = [0xf0, 0, 0, 0]"
  by code_simp+

lemma and_all_ones [simp]: "(a :: byte) AND 0xff = a"
proof -
  have "(0xff :: byte) = - 1" by simp
  then show ?thesis by (simp only: and.right_neutral)
qed

text \<open>The checks of the code, sorted into the ranges of the reference.\<close>

lemma guard_atoms: "(A100 \<and> B1 \<and> B2 \<or> A192 \<and> B0 \<and> C0 \<or> A192 \<and> B0 \<and> C2 \<or> A198 \<and> E1 \<and> E2 \<or> A198 \<and> B51 \<and> C100 \<or> A203 \<and> B0 \<and> C113 \<or> A240) = N \<Longrightarrow>
  (Z \<and> B0 \<and> C0 \<and> D0) = U \<Longrightarrow> (A10 \<or> A172 \<and> F1 \<and> F2 \<or> A192 \<and> B168) = P \<Longrightarrow>(A169 \<and> B254) = LU \<Longrightarrow>
  \<not> A240 \<Longrightarrow> \<not> A224 \<Longrightarrow>
  (\<not> N \<and> \<not> U \<and> \<not> A127 \<and> \<not> LU \<and> \<not> P) = (\<not> (Z \<and> B0 \<and> C0 \<and> D0 \<or> A10 \<or> A100 \<and> B1 \<and> B2 \<or> A127 \<or> A169 \<and> B254 \<or> A172 \<and> F1 \<and> F2 \<or> A192 \<and> B0 \<and> C0 \<or> A192 \<and> B0 \<and> C2
   \<or> A192 \<and> B168 \<or> A198 \<and> E1 \<and> E2 \<or> A198 \<and> B51 \<and> C100 \<or> A203 \<and> B0 \<and> C113 \<or> A224))"
  by argo

lemma public_v4: "isPublicIP [a, b, c, d] \<longleftrightarrow> outside (ip_number [a, b, c, d]) reserved_v4"
proof -
  let ?a = "unat a" and ?b = "unat b" and ?c = "unat c" and ?d = "unat d"
  have n: "?a < 256" "?b < 256" "?c < 256" "?d < 256" by (simp_all add: octet_less)
  have eq: "x = 0 \<longleftrightarrow> unat x = 0" "x = numeral k \<longleftrightarrow> unat x = unat (numeral k :: byte)" for x :: byte and k
    by (simp_all add: word_unat_eq_iff)
  have o: "outside (ip_number [a, b, c, d]) reserved_v4 \<longleftrightarrow> \<not> ((?a = 0 \<and> ?b = 0 \<and> ?c = 0 \<and> ?d = 0) \<or> ?a = 10 \<or> ?a = 100 \<and> 64 \<le> ?b \<and> ?b \<le> 127 \<or> ?a = 127
      \<or> ?a = 169 \<and> ?b = 254 \<or> ?a = 172 \<and> 16 \<le> ?b \<and> ?b \<le> 31 \<or> ?a = 192 \<and> ?b = 0 \<and> ?c = 0 \<or> ?a = 192 \<and> ?b = 0 \<and> ?c = 2
      \<or> ?a = 192 \<and> ?b = 168 \<or> ?a = 198 \<and> 18 \<le> ?b \<and> ?b \<le> 19 \<or> ?a = 198 \<and> ?b = 51 \<and> ?c = 100
      \<or> ?a = 203 \<and> ?b = 0 \<and> ?c = 113 \<or> 224 \<le> ?a)"
    unfolding in_range_v4 [OF n, symmetric] outside_def ip_number_quad reserved_v4_def by (simp add: not_le not_less disj_commute)
  have t: "To4 [a, b, c, d] = Some [a, b, c, d]" by (simp add: To4_def)
  have nets: "list_ex (\<lambda>n. net_Contains n [a, b, c, d]) blocked_nets \<longleftrightarrow> ?a = 100 \<and> 64 \<le> ?b \<and> ?b \<le> 127
      \<or> ?a = 192 \<and> ?b = 0 \<and> ?c = 0 \<or> ?a = 192 \<and> ?b = 0 \<and> ?c = 2 \<or> ?a = 198 \<and> 18 \<le> ?b \<and> ?b \<le> 19
      \<or> ?a = 198 \<and> ?b = 51 \<and> ?c = 100 \<or> ?a = 203 \<and> ?b = 0 \<and> ?c = 113 \<or> 240 \<le> ?a"
    by (simp add: blocked_nets_def net_Contains_def t cidr_masks byte_masks disj_assoc del: cidr_mask.simps) (simp add: eq)
  have u: "IsUnspecified [a, b, c, d] \<longleftrightarrow> ?a = 0 \<and> ?b = 0 \<and> ?c = 0 \<and> ?d = 0"
    using ip_Equal_To4 [OF t] by (simp add: IsUnspecified_def eq)
  have g: "ip_Equal [a, b, c, d] (IPv4 255 255 255 255) \<longrightarrow> 240 \<le> ?a" using ip_Equal_To4 [OF t] by simp
  have l: "IsLoopback [a, b, c, d] \<longleftrightarrow> ?a = 127" by (simp add: IsLoopback_def t eq)
  have p: "IsPrivate [a, b, c, d] \<longleftrightarrow> ?a = 10 \<or> ?a = 172 \<and> 16 \<le> ?b \<and> ?b \<le> 31 \<or> ?a = 192 \<and> ?b = 168"
    by (simp add: IsPrivate_def t byte_masks) (simp add: eq)
  have m: "IsMulticast [a, b, c, d] \<longleftrightarrow> 224 \<le> ?a \<and> ?a \<le> 239" by (simp add: IsMulticast_def t byte_masks)
  have lm: "IsLinkLocalMulticast [a, b, c, d] \<longrightarrow> ?a = 224" by (simp add: IsLinkLocalMulticast_def t eq)
  have lu: "IsLinkLocalUnicast [a, b, c, d] \<longleftrightarrow> ?a = 169 \<and> ?b = 254" by (simp add: IsLinkLocalUnicast_def t eq)
  have len: "length [a, b, c, d] = 4" by simp
  show ?thesis
  proof (cases "224 \<le> ?a")
    case True
    then have "240 \<le> ?a \<or> IsMulticast [a, b, c, d]" unfolding m by linarith
    then have "\<not> isPublicIP [a, b, c, d]" unfolding isPublicIP_def nets by blast
    with True o show ?thesis by blast
  next
    case False
    then have f: "\<not> ip_Equal [a, b, c, d] (IPv4 255 255 255 255)" "\<not> IsLinkLocalMulticast [a, b, c, d]" "\<not> 240 \<le> ?a"
      "\<not> IsMulticast [a, b, c, d]" using g lm m by auto
    have "isPublicIP [a, b, c, d] \<longleftrightarrow> \<not> list_ex (\<lambda>n. net_Contains n [a, b, c, d]) blocked_nets \<and> \<not> IsUnspecified [a, b, c, d]
        \<and> \<not> ?a = 127 \<and> \<not> IsLinkLocalUnicast [a, b, c, d] \<and> \<not> IsPrivate [a, b, c, d]"
      using f len unfolding isPublicIP_def IsGlobalUnicast_def l by blast
    also have "\<dots> \<longleftrightarrow> outside (ip_number [a, b, c, d]) reserved_v4"
      unfolding o by (rule guard_atoms [OF nets [symmetric] u [symmetric] p [symmetric] lu [symmetric] f(3) False])
    finally show ?thesis .
  qed
qed

lemma ip_number_append: "ip_number (xs @ ys) = ip_number xs * 256 ^ length ys + ip_number ys"
  by (induction ys rule: rev_induct) (simp_all add: ip_number_def algebra_simps)

lemma ip_number_less: "ip_number xs < 256 ^ length xs"
proof (induction xs rule: rev_induct)
  case (snoc x xs)
  then have "256 * (ip_number xs + 1) \<le> 256 * 256 ^ length xs" by (intro mult_le_mono) simp_all
  with octet_less [of x] show ?case by (simp add: ip_number_def)
qed (simp add: ip_number_def)

lemma ip_number_inj: "length xs = length ys \<Longrightarrow> ip_number xs = ip_number ys \<Longrightarrow> xs = ys"
proof (induction xs arbitrary: ys rule: rev_induct)
  case (snoc x xs)
  then obtain y zs where ys: "ys = zs @ [y]" "length zs = length xs" by (cases ys rule: rev_cases) auto
  with snoc.prems(2) have "ip_number xs * 256 + unat x = ip_number zs * 256 + unat y" by (simp add: ip_number_def algebra_simps)
  then have "ip_number xs = ip_number zs" "unat x = unat y" using octet_less [of x] octet_less [of y] by (simp_all add: radix_eq)
  with snoc.IH [of zs] ys show ?case by (simp add: word_unat_eq_iff)
qed simp

lemma block_le: "(R :: nat) < K \<Longrightarrow> y * K \<le> x * K + R \<longleftrightarrow> y \<le> x"
  by (cases "y \<le> x") (auto simp: trans_le_add1 not_le dest: mult_le_mono1 [of "Suc x" y K, OF Suc_leI])

lemma block_less: "(R :: nat) < K \<Longrightarrow> 0 < y \<Longrightarrow> x * K + R \<le> y * K - 1 \<longleftrightarrow> x < y"
  using block_le [of R K y x] by (cases y) auto

lemma ranges_v6:
  assumes "(R :: nat) < K" "a < 256" "b < 256"
  shows "0xfc00 * K \<le> (a * 256 + b) * K + R \<and> (a * 256 + b) * K + R \<le> 0xfe00 * K - 1 \<longleftrightarrow> 252 \<le> a \<and> a \<le> 253"
    "0xfe80 * K \<le> (a * 256 + b) * K + R \<and> (a * 256 + b) * K + R \<le> 0xfec0 * K - 1 \<longleftrightarrow> a = 254 \<and> 128 \<le> b \<and> b \<le> 191"
    "0xff00 * K \<le> (a * 256 + b) * K + R \<and> (a * 256 + b) * K + R \<le> 0x10000 * K - 1 \<longleftrightarrow> a = 255"
proof -
  have s: "(0 :: nat) < 0xfe00" "(0 :: nat) < 0xfec0" "(0 :: nat) < 0x10000" by simp_all
  show "0xfc00 * K \<le> (a * 256 + b) * K + R \<and> (a * 256 + b) * K + R \<le> 0xfe00 * K - 1 \<longleftrightarrow> 252 \<le> a \<and> a \<le> 253"
    "0xfe80 * K \<le> (a * 256 + b) * K + R \<and> (a * 256 + b) * K + R \<le> 0xfec0 * K - 1 \<longleftrightarrow> a = 254 \<and> 128 \<le> b \<and> b \<le> 191"
    "0xff00 * K \<le> (a * 256 + b) * K + R \<and> (a * 256 + b) * K + R \<le> 0x10000 * K - 1 \<longleftrightarrow> a = 255"
    unfolding block_le [OF assms(1)] block_less [OF assms(1) s(1)] block_less [OF assms(1) s(2)] block_less [OF assms(1) s(3)]
    using assms(2,3) radix_le [of 128 b 254 a] radix_less [of b 192 a 254] radix_le [of 0 b 255 a] by auto
qed

lemma public_v6:
  assumes "To4 ip = None" "length ip = 16"
  shows "isPublicIP ip \<longleftrightarrow> outside (ip_number ip) reserved_v6"
proof -
  obtain a b r where ip: "ip = a # b # r" "length r = 14" using assms(2) by (auto simp: numeral_eq_Suc length_Suc_conv)
  define R where "R = ip_number r"
  have R: "R < 2 ^ 112" using ip_number_less [of r] ip(2) by (simp add: R_def)
  have n: "ip_number ip = (unat a * 256 + unat b) * 2 ^ 112 + R"
    using ip_number_append [of "[a, b]" r] ip(2) by (simp add: ip R_def ip_number_def algebra_simps)
  have lt: "unat a < 256" "unat b < 256" by (simp_all add: octet_less)
  have z: "ip_number ip = 0 \<longleftrightarrow> ip = replicate 16 0" "ip_number ip = 1 \<longleftrightarrow> ip = replicate 15 0 @ [1]"
    using ip_number_inj [of ip "replicate 16 0"] ip_number_inj [of ip "replicate 15 0 @ [1]"] assms(2)
    by (auto simp: ip_number_def numeral_eq_Suc)
  have r: "0xfc00 * 2 ^ 112 \<le> ip_number ip \<and> ip_number ip \<le> 0xfe00 * 2 ^ 112 - 1 \<longleftrightarrow> 252 \<le> unat a \<and> unat a \<le> 253"
    "0xfe80 * 2 ^ 112 \<le> ip_number ip \<and> ip_number ip \<le> 0xfec0 * 2 ^ 112 - 1 \<longleftrightarrow> unat a = 254 \<and> 128 \<le> unat b \<and> unat b \<le> 191"
    "0xff00 * 2 ^ 112 \<le> ip_number ip \<and> ip_number ip \<le> 0x10000 * 2 ^ 112 - 1 \<longleftrightarrow> unat a = 255"
    unfolding n by (rule ranges_v6 [OF R lt])+
  have o: "outside (ip_number ip) reserved_v6 \<longleftrightarrow> \<not> (ip = replicate 16 0 \<or> ip = replicate 15 0 @ [1] \<or> 252 \<le> unat a \<and> unat a \<le> 253
      \<or> unat a = 254 \<and> 128 \<le> unat b \<and> unat b \<le> 191 \<or> unat a = 255)"
    unfolding r [symmetric] z [symmetric] outside_def reserved_v6_def by (auto simp: not_le not_less)
  have nets: "\<not> list_ex (\<lambda>n. net_Contains n ip) blocked_nets"
    using assms by (simp add: blocked_nets_def net_Contains_def)
  have e: "\<not> ip_Equal ip (IPv4 x y u v)" for x y u v
    using assms To4_IPv4 [of x y u v] by (auto simp: ip_Equal_def IPv4_def)
  have eq: "x = numeral k \<longleftrightarrow> unat x = unat (numeral k :: byte)" for x :: byte and k by (simp add: word_unat_eq_iff)
  have u: "IsUnspecified ip \<longleftrightarrow> ip = replicate 16 0" using e assms(2) by (simp add: IsUnspecified_def) (simp add: ip_Equal_def)
  have l: "IsLoopback ip \<longleftrightarrow> ip = replicate 15 0 @ [1]" using assms by (simp add: IsLoopback_def ip_Equal_def)
  have p: "IsPrivate ip \<longleftrightarrow> 252 \<le> unat a \<and> unat a \<le> 253" using assms by (simp add: IsPrivate_def) (simp add: ip(1) byte_masks)
  have m: "IsMulticast ip \<longleftrightarrow> unat a = 255" using assms by (simp add: IsMulticast_def) (simp add: ip(1) eq)
  have lm: "IsLinkLocalMulticast ip \<Longrightarrow> unat a = 255"
    using assms by (simp add: IsLinkLocalMulticast_def) (simp add: ip(1) eq)
  have lu: "IsLinkLocalUnicast ip \<longleftrightarrow> unat a = 254 \<and> 128 \<le> unat b \<and> unat b \<le> 191"
    using assms by (simp add: IsLinkLocalUnicast_def) (simp add: ip(1) byte_masks, simp add: eq)
  show ?thesis
    unfolding o isPublicIP_def IsGlobalUnicast_def u l p m lu using nets e assms(2) lm by blast
qed

text \<open>
  Property C31. The address guard of webhooks is exactly a list of forbidden ranges. An IPv4 address, in either of its
  two forms, is accepted exactly when the number it writes is outside the unspecified address, the private, shared,
  loopback, link-local, documentation, benchmark and protocol ranges and everything from 224.0.0.0 on; an IPv6 address
  exactly when it is outside the unspecified and loopback addresses, the unique-local, the link-local and the multicast
  range. Nothing of another length is accepted.
\<close>

theorem isPublicIP_correct:
  "isPublicIP ip \<longleftrightarrow> (case To4 ip of Some q \<Rightarrow> outside (ip_number q) reserved_v4
     | None \<Rightarrow> length ip = 16 \<and> outside (ip_number ip) reserved_v6)"
proof (cases "To4 ip")
  case (Some q)
  then obtain a b c d where "q = [a, b, c, d]" using To4D quad_conv by blast
  with Some isPublicIP_To4 [OF Some] public_v4 show ?thesis by simp
next
  case None
  then have "length ip \<noteq> 4" by (auto simp: To4_def)
  then have "isPublicIP ip \<Longrightarrow> length ip = 16" by (simp add: isPublicIP_def IsGlobalUnicast_def)
  with None public_v6 [OF None] show ?thesis by auto
qed

section \<open>URLs\<close>

text \<open>What a URL parser says (scheme and host name), which address a host name writes, and which it resolves to.\<close>

record url_net =
  un_Parse :: "string \<Rightarrow> (string \<times> string) option"
  un_ParseIP :: "string \<Rightarrow> byte list option"
  un_Lookup :: "string \<Rightarrow> byte list list result"

definition ErrInvalidURL :: error where "ErrInvalidURL = DomainError ''INVALID_URL'' ''webhook URL must be public http/https''"

definition ValidateWebhookURL :: "url_net \<Rightarrow> string \<Rightarrow> error option" where
  "ValidateWebhookURL x raw = (if trim_space raw = [] then Some ErrInvalidURL
     else (case un_Parse x raw of
         None \<Rightarrow> Some ErrInvalidURL
       | Some (scheme, host) \<Rightarrow>
           if scheme \<noteq> ''http'' \<and> scheme \<noteq> ''https'' then Some ErrInvalidURL
           else if host = [] then Some ErrInvalidURL
           else if to_lower host = ''localhost'' \<or> has_suffix (to_lower host) ''.localhost'' \<or> has_suffix (to_lower host) ''.local''
             then Some ErrInvalidURL
           else (case un_ParseIP x host of
               Some ip \<Rightarrow> if \<not> isPublicIP ip then Some ErrInvalidURL else None
             | None \<Rightarrow> (case un_Lookup x host of
                   Inl e \<Rightarrow> Some ErrInvalidURL
                 | Inr ips \<Rightarrow> if ips = [] then Some ErrInvalidURL
                     else if list_ex (\<lambda>ip. \<not> isPublicIP ip) ips then Some ErrInvalidURL else None))))"

text \<open>An accepted URL reaches only public addresses, as far as its host name tells at that moment.\<close>

definition reaches :: "url_net \<Rightarrow> string \<Rightarrow> byte list list" where
  "reaches x host = (case un_ParseIP x host of Some ip \<Rightarrow> [ip]
     | None \<Rightarrow> (case un_Lookup x host of Inl e \<Rightarrow> [] | Inr ips \<Rightarrow> ips))"

lemma ValidateWebhookURL_None:
  assumes "ValidateWebhookURL x raw = None"
  obtains scheme host where "un_Parse x raw = Some (scheme, host)" "scheme \<in> {''http'', ''https''}" "reaches x host \<noteq> []"
    "\<And>ip. ip \<in> set (reaches x host) \<Longrightarrow> isPublicIP ip"
proof -
  from assms obtain scheme host where p: "un_Parse x raw = Some (scheme, host)" "scheme \<in> {''http'', ''https''}"
    by (auto simp: ValidateWebhookURL_def split: if_splits option.splits)
  show ?thesis
    by (rule that [OF p]) (use assms p in \<open>auto simp: ValidateWebhookURL_def reaches_def list_ex_iff split: if_splits option.splits sum.splits\<close>)
qed

end
