(* ===== verification/Webhooks.thy ===== *)
theory Webhooks
  imports Webhook_Address Interview_Store Float64
begin

text \<open>
  Webhooks (\<open>src/backend/internal/integration\<close>): the entities of \<open>domain/webhook.go\<close>, the repository
  (\<open>infrastructure/persistence/postgres_webhook_repo.go\<close>, with the policies of migration 025 and the cascade of
  migration 020), the use cases of \<open>application/webhook_service.go\<close>, the dispatcher of domain events
  (\<open>application/event_dispatcher.go\<close>) and the delivery worker (\<open>application/webhook_worker.go\<close>).

  Parameters: HMAC-SHA256, the UUID and JSON decoders, the form a JSONB column stores, the text of a time, and the
  outcome of each HTTP request. A run of the worker is one transaction that claims an attempt, one request, and one
  transaction that persists the outcome.
\<close>

section \<open>Entities\<close>

definition EventInterviewCompleted :: string where "EventInterviewCompleted = ''interview.completed''"
definition EventCandidateScreened :: string where "EventCandidateScreened = ''candidate.screened''"
definition EventCandidateAdvanced :: string where "EventCandidateAdvanced = ''candidate.advanced''"

definition ValidEvents :: "string list" where
  "ValidEvents = [EventInterviewCompleted, EventCandidateScreened, EventCandidateAdvanced]"

record WebhookConfig =
  wh_ID :: uuid
  wh_CreatedAt :: time
  wh_UpdatedAt :: time
  wh_OrgID :: uuid
  wh_URL :: string
  wh_Events :: "string list"
  wh_Secret :: string
  wh_Active :: bool

record WebhookDelivery =
  wd_ID :: uuid
  wd_CreatedAt :: time
  wd_UpdatedAt :: time
  wd_OrgID :: uuid
  wd_WebhookID :: uuid
  wd_Event :: string
  wd_Payload :: string
  wd_StatusCode :: int
  wd_ResponseBody :: string
  wd_Attempts :: nat
  wd_NextRetryAt :: "time option"
  wd_FinalStatus :: string

definition ErrWebhookNotFound :: error where "ErrWebhookNotFound = NotFoundError ''webhook_config'' []"
definition ErrNoEvents :: error where "ErrNoEvents = DomainError ''NO_EVENTS'' ''at least one event must be specified''"
definition ErrInvalidEvent :: error where "ErrInvalidEvent = DomainError ''INVALID_EVENT'' ''unknown webhook event type''"

definition NewWebhookConfig :: "url_net \<Rightarrow> uuid \<Rightarrow> time \<Rightarrow> uuid \<Rightarrow> string \<Rightarrow> string list \<Rightarrow> string \<Rightarrow> WebhookConfig result" where
  "NewWebhookConfig x newid now orgID url events secret = (case ValidateWebhookURL x url of
     Some e \<Rightarrow> Inl e
   | None \<Rightarrow> if events = [] then Inl ErrNoEvents
       else if list_ex (\<lambda>e. e \<notin> set ValidEvents) events then Inl ErrInvalidEvent
       else Inr \<lparr>wh_ID = newid, wh_CreatedAt = now, wh_UpdatedAt = now, wh_OrgID = orgID, wh_URL = url, wh_Events = events,
              wh_Secret = secret, wh_Active = True\<rparr>)"

section \<open>Repository\<close>

record hook_tables = iv_tables +
  t_orgs :: "uuid list"
  t_hooks :: "WebhookConfig list"
  t_deliveries :: "WebhookDelivery list"

type_synonym ('m, 'h) hook_db = "('m hook_tables_scheme, 'h) db"

definition sees_hook :: "uuid option \<Rightarrow> WebhookConfig \<Rightarrow> bool" where "sees_hook t x \<longleftrightarrow> t = Some (wh_OrgID x)"
definition sees_delivery :: "uuid option \<Rightarrow> WebhookDelivery \<Rightarrow> bool" where "sees_delivery t x \<longleftrightarrow> t = Some (wd_OrgID x)"

definition hook_CreateConfig :: "WebhookConfig \<Rightarrow> (('m, 'h) hook_db, unit) op" where
  "hook_CreateConfig cfg = insert_row
     (\<lambda>t r. if \<not> sees_hook t cfg then Some ErrRLS
        else if wh_ID cfg \<in> wh_ID ` set (t_hooks r) then Some (unique_violation ''webhook_configs_pkey'')
        else if wh_OrgID cfg \<notin> set (t_orgs r) then Some (foreign_key_violation ''webhook_configs_org_id_fkey'') else None)
     (t_hooks_update (\<lambda>xs. xs @ [cfg]))"

definition hook_GetConfigByID :: "uuid \<Rightarrow> (('m, 'h) hook_db, WebhookConfig) op" where
  "hook_GetConfigByID key = query_row ErrWebhookNotFound (\<lambda>t r. find (\<lambda>x. wh_ID x = key \<and> sees_hook t x) (t_hooks r))"

definition hook_ListConfigsByOrg :: "uuid \<Rightarrow> (('m, 'h) hook_db, WebhookConfig list) op" where
  "hook_ListConfigsByOrg orgID = query (\<lambda>t r.
     newest_first wh_CreatedAt (filter (\<lambda>x. wh_OrgID x = orgID \<and> sees_hook t x) (t_hooks r)))"

definition hook_UpdateConfig :: "time \<Rightarrow> WebhookConfig \<Rightarrow> (('m, 'h) hook_db, unit) op" where
  "hook_UpdateConfig now cfg = unit_of (update_rows t_hooks t_hooks_update
     (\<lambda>t r x. (wh_ID x = wh_ID cfg \<and> wh_OrgID x = wh_OrgID cfg) \<and> sees_hook t x)
     (\<lambda>x. x\<lparr>wh_URL := wh_URL cfg, wh_Events := wh_Events cfg, wh_Secret := wh_Secret cfg, wh_Active := wh_Active cfg, wh_UpdatedAt := now\<rparr>))"

text \<open>The deliveries of a deleted configuration go with it; the cascade is not subject to the policies.\<close>

definition hook_DeleteConfig :: "uuid \<Rightarrow> (('m, 'h) hook_db, unit) op" where
  "hook_DeleteConfig key = exec (\<lambda>t r. let gone = filter (\<lambda>x. wh_ID x = key \<and> sees_hook t x) (t_hooks r) in
     Inr ((), t_deliveries_update (filter (\<lambda>y. wd_WebhookID y \<notin> wh_ID ` set gone))
       (t_hooks_update (filter (\<lambda>x. \<not> (wh_ID x = key \<and> sees_hook t x))) r)))"

definition hook_CreateDelivery :: "(string \<Rightarrow> string result) \<Rightarrow> WebhookDelivery \<Rightarrow> (('m, 'h) hook_db, unit) op" where
  "hook_CreateDelivery jsonb x = (\<lambda>d. case jsonb (wd_Payload x) of
     Inl e \<Rightarrow> exec (\<lambda>t r. Inl e) d
   | Inr p \<Rightarrow> insert_row
       (\<lambda>t r. if \<not> sees_delivery t x then Some ErrRLS
          else if wd_ID x \<in> wd_ID ` set (t_deliveries r) then Some (unique_violation ''webhook_deliveries_pkey'')
          else if wd_OrgID x \<notin> set (t_orgs r) then Some (foreign_key_violation ''webhook_deliveries_org_id_fkey'')
          else if wd_WebhookID x \<notin> wh_ID ` set (t_hooks r) then Some (foreign_key_violation ''webhook_deliveries_webhook_id_fkey'')
          else None)
       (t_deliveries_update (\<lambda>xs. xs @ [x\<lparr>wd_Payload := p\<rparr>])) d)"

definition hook_GetDeliveryByID :: "uuid \<Rightarrow> (('m, 'h) hook_db, WebhookDelivery) op" where
  "hook_GetDeliveryByID key = query_row ErrWebhookNotFound (\<lambda>t r. find (\<lambda>x. wd_ID x = key \<and> sees_delivery t x) (t_deliveries r))"

definition claimable :: "uuid \<Rightarrow> uuid option \<Rightarrow> WebhookDelivery \<Rightarrow> bool" where
  "claimable key t x \<longleftrightarrow> (wd_ID x = key \<and> wd_FinalStatus x = ''pending'' \<and> wd_Attempts x < 3) \<and> sees_delivery t x"

definition hook_IncrementDeliveryAttempt :: "time \<Rightarrow> uuid \<Rightarrow> (('m, 'h) hook_db, nat \<times> bool) op" where
  "hook_IncrementDeliveryAttempt now key = exec (\<lambda>t r. case find (claimable key t) (t_deliveries r) of
     None \<Rightarrow> Inr ((0, False), r)
   | Some x \<Rightarrow> Inr ((wd_Attempts x + 1, True), t_deliveries_update (map_hits (claimable key t)
       (\<lambda>x. x\<lparr>wd_Attempts := wd_Attempts x + 1, wd_UpdatedAt := now\<rparr>)) r))"

definition hook_ListDeliveriesByWebhook :: "uuid \<Rightarrow> nat \<Rightarrow> (('m, 'h) hook_db, WebhookDelivery list) op" where
  "hook_ListDeliveriesByWebhook key limit = query (\<lambda>t r.
     take limit (newest_first wd_CreatedAt (filter (\<lambda>x. wd_WebhookID x = key \<and> sees_delivery t x) (t_deliveries r))))"

definition delivery_columns :: "time \<Rightarrow> WebhookDelivery \<Rightarrow> WebhookDelivery \<Rightarrow> WebhookDelivery" where
  "delivery_columns now y x = x\<lparr>wd_StatusCode := wd_StatusCode y, wd_ResponseBody := wd_ResponseBody y, wd_Attempts := wd_Attempts y,
     wd_NextRetryAt := wd_NextRetryAt y, wd_FinalStatus := wd_FinalStatus y, wd_UpdatedAt := now\<rparr>"

definition hook_UpdateDelivery :: "time \<Rightarrow> WebhookDelivery \<Rightarrow> (('m, 'h) hook_db, unit) op" where
  "hook_UpdateDelivery now y = unit_of (update_rows t_deliveries t_deliveries_update
     (\<lambda>t r x. wd_ID x = wd_ID y \<and> sees_delivery t x) (delivery_columns now y))"

definition hook_UpdateDeliveryIfNotDelivered :: "time \<Rightarrow> WebhookDelivery \<Rightarrow> (('m, 'h) hook_db, bool) op" where
  "hook_UpdateDeliveryIfNotDelivered now y = bindE (update_rows t_deliveries t_deliveries_update
     (\<lambda>t r x. (wd_ID x = wd_ID y \<and> wd_FinalStatus x \<noteq> ''delivered'') \<and> sees_delivery t x) (delivery_columns now y))
     (\<lambda>n. ret (n = 1))"

definition hook_ListConfigsByEvent :: "uuid \<Rightarrow> string \<Rightarrow> (('m, 'h) hook_db, WebhookConfig list) op" where
  "hook_ListConfigsByEvent orgID event = query (\<lambda>t r.
     filter (\<lambda>x. (wh_OrgID x = orgID \<and> wh_Active x \<and> event \<in> set (wh_Events x)) \<and> sees_hook t x) (t_hooks r))"

section \<open>Use cases\<close>

record WebhookConfigResult =
  wcr_ID :: string
  wcr_URL :: string
  wcr_Events :: "string list"
  wcr_Active :: bool
  wcr_CreatedAt :: string

record WebhookDeliveryResult =
  wdr_ID :: string
  wdr_Event :: string
  wdr_StatusCode :: int
  wdr_ResponseBody :: string
  wdr_Attempts :: nat
  wdr_FinalStatus :: string
  wdr_CreatedAt :: string

definition toConfigResult :: "(time \<Rightarrow> string) \<Rightarrow> WebhookConfig \<Rightarrow> WebhookConfigResult" where
  "toConfigResult fmt cfg = \<lparr>wcr_ID = wh_ID cfg, wcr_URL = wh_URL cfg, wcr_Events = wh_Events cfg, wcr_Active = wh_Active cfg,
     wcr_CreatedAt = fmt (wh_CreatedAt cfg)\<rparr>"

definition toDeliveryResult :: "(time \<Rightarrow> string) \<Rightarrow> WebhookDelivery \<Rightarrow> WebhookDeliveryResult" where
  "toDeliveryResult fmt x = \<lparr>wdr_ID = wd_ID x, wdr_Event = wd_Event x, wdr_StatusCode = wd_StatusCode x,
     wdr_ResponseBody = wd_ResponseBody x, wdr_Attempts = wd_Attempts x, wdr_FinalStatus = wd_FinalStatus x,
     wdr_CreatedAt = fmt (wd_CreatedAt x)\<rparr>"

record CreateWebhookCommand =
  cw_URL :: string
  cw_Events :: "string list"
  cw_Secret :: string

record UpdateWebhookCommand =
  uw_URL :: "string option"
  uw_Events :: "string list option"
  uw_Secret :: "string option"
  uw_Active :: "bool option"

definition webhook_roles :: "AuthContext \<Rightarrow> error option" where
  "webhook_roles actor = Authorize actor [RoleAdmin, RoleRecruiter]"

definition foreign_webhook :: "AuthContext \<Rightarrow> WebhookConfig \<Rightarrow> ('s, unit) op" where
  "foreign_webhook actor cfg = fail_if (wh_OrgID cfg \<noteq> ac_OrgID actor) (DomainError ''FORBIDDEN'' ''webhook belongs to another org'')"

definition webhook_Create ::
  "url_net \<Rightarrow> (time \<Rightarrow> string) \<Rightarrow> uuid \<Rightarrow> time \<Rightarrow> AuthContext \<Rightarrow> CreateWebhookCommand \<Rightarrow> (('m, 'h) hook_db, WebhookConfigResult) op" where
  "webhook_Create x fmt newid now actor cmd =
     bindE (check (webhook_roles actor)) (\<lambda>_.
     bindE (lift (NewWebhookConfig x newid now (ac_OrgID actor) (cw_URL cmd) (cw_Events cmd) (cw_Secret cmd))) (\<lambda>cfg.
     bindE (hook_CreateConfig cfg) (\<lambda>_. ret (toConfigResult fmt cfg))))"

definition webhook_Get :: "(time \<Rightarrow> string) \<Rightarrow> AuthContext \<Rightarrow> uuid \<Rightarrow> (('m, 'h) hook_db, WebhookConfigResult) op" where
  "webhook_Get fmt actor key =
     bindE (check (webhook_roles actor)) (\<lambda>_. bindE (hook_GetConfigByID key) (\<lambda>cfg.
     bindE (foreign_webhook actor cfg) (\<lambda>_. ret (toConfigResult fmt cfg))))"

definition webhook_List :: "(time \<Rightarrow> string) \<Rightarrow> AuthContext \<Rightarrow> (('m, 'h) hook_db, WebhookConfigResult list) op" where
  "webhook_List fmt actor =
     bindE (check (webhook_roles actor)) (\<lambda>_. bindE (hook_ListConfigsByOrg (ac_OrgID actor)) (\<lambda>cfgs.
     ret (map (toConfigResult fmt) cfgs)))"

definition webhook_changes :: "url_net \<Rightarrow> UpdateWebhookCommand \<Rightarrow> WebhookConfig \<Rightarrow> WebhookConfig result" where
  "webhook_changes x cmd cfg0 =
     (case (case uw_URL cmd of None \<Rightarrow> Inr cfg0
        | Some u \<Rightarrow> (case ValidateWebhookURL x u of Some e \<Rightarrow> Inl e | None \<Rightarrow> Inr (cfg0\<lparr>wh_URL := u\<rparr>))) of
       Inl e \<Rightarrow> Inl e
     | Inr cfg1 \<Rightarrow>
         (case (case uw_Events cmd of None \<Rightarrow> Inr cfg1
            | Some evs \<Rightarrow> if list_ex (\<lambda>e. e \<notin> set ValidEvents) evs then Inl ErrInvalidEvent else Inr (cfg1\<lparr>wh_Events := evs\<rparr>)) of
           Inl e \<Rightarrow> Inl e
         | Inr cfg2 \<Rightarrow>
             let cfg3 = (case uw_Secret cmd of None \<Rightarrow> cfg2 | Some s \<Rightarrow> cfg2\<lparr>wh_Secret := s\<rparr>)
             in Inr (case uw_Active cmd of None \<Rightarrow> cfg3 | Some a \<Rightarrow> cfg3\<lparr>wh_Active := a\<rparr>)))"

definition webhook_Update ::
  "url_net \<Rightarrow> (time \<Rightarrow> string) \<Rightarrow> time \<Rightarrow> AuthContext \<Rightarrow> uuid \<Rightarrow> UpdateWebhookCommand \<Rightarrow> (('m, 'h) hook_db, WebhookConfigResult) op" where
  "webhook_Update x fmt now actor key cmd =
     bindE (check (webhook_roles actor)) (\<lambda>_. bindE (hook_GetConfigByID key) (\<lambda>cfg0.
     bindE (foreign_webhook actor cfg0) (\<lambda>_. bindE (lift (webhook_changes x cmd cfg0)) (\<lambda>cfg.
     bindE (hook_UpdateConfig now cfg) (\<lambda>_. ret (toConfigResult fmt cfg))))))"

definition webhook_Delete :: "AuthContext \<Rightarrow> uuid \<Rightarrow> (('m, 'h) hook_db, unit) op" where
  "webhook_Delete actor key =
     bindE (check (webhook_roles actor)) (\<lambda>_. bindE (hook_GetConfigByID key) (\<lambda>cfg.
     bindE (foreign_webhook actor cfg) (\<lambda>_. hook_DeleteConfig key)))"

definition webhook_ListDeliveries :: "(time \<Rightarrow> string) \<Rightarrow> AuthContext \<Rightarrow> uuid \<Rightarrow> (('m, 'h) hook_db, WebhookDeliveryResult list) op" where
  "webhook_ListDeliveries fmt actor key =
     bindE (check (webhook_roles actor)) (\<lambda>_. bindE (hook_GetConfigByID key) (\<lambda>cfg.
     bindE (foreign_webhook actor cfg) (\<lambda>_. bindE (hook_ListDeliveriesByWebhook key 10) (\<lambda>ds.
     ret (map (toDeliveryResult fmt) ds)))))"

section \<open>Dispatch of a domain event\<close>

text \<open>The payload of an email task, \<open>internal/notification/application/email_worker.go\<close>.\<close>

record SendEmailPayload =
  sp_Type :: string
  sp_To :: string
  sp_CandidateName :: string
  sp_JobTitle :: string
  sp_InviteURL :: string
  sp_Score :: rat
  sp_Recommendation :: string
  sp_ReportURL :: string
  sp_OTPCode :: string
  sp_MagicLink :: string
  sp_Decision :: string
  sp_PortalURL :: string

text \<open>What leaves the process: a notification, a queued delivery or email, an HTTP request.\<close>

record hook_request =
  rq_URL :: string
  rq_Body :: string
  rq_Signature :: string
  rq_Event :: string

datatype hook_effect =
    Notified uuid string
  | Queued uuid uuid
  | Emailed SendEmailPayload
  | Posted uuid hook_request

text \<open>The deliveries, one per configuration in order, under the identifiers drawn for them.\<close>

definition new_delivery :: "uuid \<Rightarrow> time \<Rightarrow> uuid \<Rightarrow> uuid \<Rightarrow> string \<Rightarrow> string \<Rightarrow> WebhookDelivery" where
  "new_delivery newid now orgID hook event payload = \<lparr>wd_ID = newid, wd_CreatedAt = now, wd_UpdatedAt = now, wd_OrgID = orgID,
     wd_WebhookID = hook, wd_Event = event, wd_Payload = payload, wd_StatusCode = 0, wd_ResponseBody = [], wd_Attempts = 0,
     wd_NextRetryAt = None, wd_FinalStatus = ''pending''\<rparr>"

fun create_deliveries ::
  "(string \<Rightarrow> string result) \<Rightarrow> time \<Rightarrow> uuid \<Rightarrow> string \<Rightarrow> string \<Rightarrow> (uuid \<times> WebhookConfig) list \<Rightarrow> (('m, 'h) hook_db, uuid list) op" where
  "create_deliveries jsonb now orgID event payload [] = ret []"
| "create_deliveries jsonb now orgID event payload ((newid, cfg) # cfgs) =
     bindE (map_error (Wrapped ''create webhook delivery'')
       (hook_CreateDelivery jsonb (new_delivery newid now orgID (wh_ID cfg) event payload))) (\<lambda>_.
     bindE (create_deliveries jsonb now orgID event payload cfgs) (\<lambda>ids. ret (newid # ids)))"

definition dispatch_tx ::
  "(string \<Rightarrow> string result) \<Rightarrow> (nat \<Rightarrow> uuid) \<Rightarrow> time \<Rightarrow> uuid \<Rightarrow> string \<Rightarrow> string \<Rightarrow> (('m, 'h) hook_db, uuid list) op" where
  "dispatch_tx jsonb ids now orgID event payload =
     bindE (map_error (Wrapped ''list configs by event'') (hook_ListConfigsByEvent orgID event)) (\<lambda>cfgs.
     create_deliveries jsonb now orgID event payload (zip (map ids [0..<length cfgs]) cfgs))"

text \<open>Every task is tried; \<open>errors.Join\<close> of what failed is one error whose text has a line for each.\<close>

fun enqueue_deliveries :: "uuid \<Rightarrow> uuid list \<Rightarrow> (('m, hook_effect) hook_db, error list) op" where
  "enqueue_deliveries orgID [] = ret []"
| "enqueue_deliveries orgID (k # ks) =
     bindE (attempt (emit (Queued k orgID))) (\<lambda>r.
     bindE (enqueue_deliveries orgID ks) (\<lambda>errs.
     ret ((case r of Inl e \<Rightarrow> [Wrapped ''enqueue webhook delivery'' e] | Inr u \<Rightarrow> []) @ errs)))"

definition join_errors :: "error list \<Rightarrow> error" where
  "join_errors es = Sentinel (join_with newline (map error_text es))"

text \<open>\<open>hasNotifs\<close>, \<open>hasQueue\<close>: whether the optional collaborators are configured.\<close>

definition Dispatch ::
  "(string \<Rightarrow> string result) \<Rightarrow> bool \<Rightarrow> bool \<Rightarrow> (nat \<Rightarrow> uuid) \<Rightarrow> time \<Rightarrow> uuid \<Rightarrow> string \<Rightarrow> string \<Rightarrow> (('m, hook_effect) hook_db, unit) op" where
  "Dispatch jsonb hasNotifs hasQueue ids now orgID event payload =
     bindE (if hasNotifs \<and> event = EventInterviewCompleted then attempt (emit (Notified orgID event)) else ret (Inr ())) (\<lambda>_.
     bindE (RunInTx orgID (dispatch_tx jsonb ids now orgID event payload)) (\<lambda>keys.
     if \<not> hasQueue then ret ()
     else bindE (enqueue_deliveries orgID keys) (\<lambda>errs. fail_if (errs \<noteq> []) (join_errors errs))))"

section \<open>Delivery\<close>

definition maxDeliveryAttempts :: nat where "maxDeliveryAttempts = 3"

record hook_worker =
  ww_DecodePayload :: "string \<Rightarrow> (string \<times> string) result"
  ww_ParseUUID :: "string \<Rightarrow> uuid result"
  ww_HMAC :: "string \<Rightarrow> string \<Rightarrow> string"
  ww_RequestOK :: "string \<Rightarrow> bool"

datatype hook_response = NoResponse error | BodyFailed int error | Responded int string

text \<open>What a variable assigned by the first call inside a transaction holds afterwards, committed or not.\<close>

definition captured :: "string \<Rightarrow> (('r, 'h) db, 'a) op \<Rightarrow> ('r, 'h) db \<Rightarrow> 'a option" where
  "captured orgID get d = (case (if in_tx d then fst (get d)
       else (case next_fault d of (Some e, d1) \<Rightarrow> Inl e
         | (None, d1) \<Rightarrow> fst (bindE (SetTenant orgID) (\<lambda>_. get)
             (d1\<lparr>in_tx := True, aborted := False, saved := [], pending := []\<rparr>)))) of
     Inl e \<Rightarrow> None | Inr a \<Rightarrow> Some a)"

definition persist_delivery :: "time \<Rightarrow> uuid \<Rightarrow> WebhookDelivery \<Rightarrow> (('m, 'h) hook_db, bool) op" where
  "persist_delivery now orgID y = RunInTx orgID (hook_UpdateDeliveryIfNotDelivered now y)"

definition claim_tx :: "time \<Rightarrow> uuid \<Rightarrow> uuid \<Rightarrow> (('m, 'h) hook_db, WebhookDelivery \<times> WebhookConfig \<times> bool) op" where
  "claim_tx now orgID key =
     bindE (hook_GetDeliveryByID key) (\<lambda>y.
     bindE (fail_if (wd_OrgID y \<noteq> orgID) ErrWebhookNotFound) (\<lambda>_.
     bindE (hook_GetConfigByID (wd_WebhookID y)) (\<lambda>cfg.
     bindE (hook_IncrementDeliveryAttempt now (wd_ID y)) (\<lambda>(attempts, claimed).
     ret (if claimed then y\<lparr>wd_Attempts := attempts\<rparr> else y, cfg, claimed)))))"

text \<open>\<open>handle\<close> up to the request: the delivery it has claimed, or the error it returns to the queue.\<close>

definition hook_claim ::
  "hook_worker \<Rightarrow> time \<Rightarrow> string \<Rightarrow> (('m, 'h) hook_db, uuid \<times> WebhookDelivery \<times> WebhookConfig) op" where
  "hook_claim ww now task = (\<lambda>d. case ww_DecodePayload ww task of
     Inl e \<Rightarrow> throw SkipRetry d
   | Inr (rawDelivery, rawOrg) \<Rightarrow> (case (ww_ParseUUID ww rawOrg, ww_ParseUUID ww rawDelivery) of
       (Inr orgID, Inr key) \<Rightarrow>
         (case RunInTx orgID (claim_tx now orgID key) d of
            (Inl e, d1) \<Rightarrow>
              if PermanentWorkerError (Some e) [ErrWebhookNotFound] then
                (case captured orgID (hook_GetDeliveryByID key) d of
                   None \<Rightarrow> throw SkipRetry d1
                 | Some y \<Rightarrow> if wd_OrgID y = orgID
                     then bindE (attempt (persist_delivery now orgID
                        (y\<lparr>wd_FinalStatus := ''failed'', wd_ResponseBody := ''webhook config removed''\<rparr>))) (\<lambda>_. throw SkipRetry) d1
                     else throw SkipRetry d1)
              else throw (Wrapped (''claim webhook delivery '' @ rawDelivery) e) d1
          | (Inr (y, cfg, claimed), d1) \<Rightarrow> if \<not> claimed then throw SkipRetry d1 else ret (orgID, y, cfg) d1)
     | _ \<Rightarrow> throw SkipRetry d))"

text \<open>\<open>updated, err := w.persist(...)\<close> and the two tests that follow it.\<close>

definition persisted :: "time \<Rightarrow> uuid \<Rightarrow> WebhookDelivery \<Rightarrow> (('m, 'h) hook_db, unit) op" where
  "persisted now orgID y = bindE (persist_delivery now orgID y) (\<lambda>updated. fail_if (\<not> updated) SkipRetry)"

text \<open>A transient outcome: pending, or failed when the attempts are used up; \<open>e\<close> goes back to the queue.\<close>

definition transient_outcome :: "time \<Rightarrow> uuid \<Rightarrow> WebhookDelivery \<Rightarrow> error \<Rightarrow> (('m, 'h) hook_db, unit) op" where
  "transient_outcome now orgID y e = (let spent = maxDeliveryAttempts \<le> wd_Attempts y in
     bindE (persisted now orgID (y\<lparr>wd_FinalStatus := (if spent then ''failed'' else ''pending'')\<rparr>)) (\<lambda>_.
     throw (if spent then SkipRetry else e)))"

definition signed_request :: "hook_worker \<Rightarrow> WebhookDelivery \<Rightarrow> WebhookConfig \<Rightarrow> hook_request" where
  "signed_request ww y cfg = \<lparr>rq_URL = wh_URL cfg, rq_Body = wd_Payload y,
     rq_Signature = ''sha256='' @ ww_HMAC ww (wd_Payload y) (wh_Secret cfg), rq_Event = wd_Event y\<rparr>"

definition hook_deliver ::
  "hook_worker \<Rightarrow> time \<Rightarrow> hook_response \<Rightarrow> uuid \<times> WebhookDelivery \<times> WebhookConfig \<Rightarrow> (('m, hook_effect) hook_db, unit) op" where
  "hook_deliver ww now resp = (\<lambda>(orgID, y, cfg).
     if \<not> ww_RequestOK ww (wh_URL cfg) then throw SkipRetry
     else (\<lambda>d. (case resp of
         NoResponse e \<Rightarrow> transient_outcome now orgID y (Wrapped (''webhook delivery attempt '' @ itoa_nat (wd_Attempts y) @ '' failed'') e)
       | BodyFailed code e \<Rightarrow> throw (Wrapped ''read webhook response body'' e)
       | Responded code body \<Rightarrow>
           (let y1 = y\<lparr>wd_StatusCode := code, wd_ResponseBody := take 1024 body\<rparr> in
            if 200 \<le> code \<and> code < 300 then persisted now orgID (y1\<lparr>wd_FinalStatus := ''delivered''\<rparr>)
            else if 400 \<le> code \<and> code < 500 then
              bindE (persisted now orgID (y1\<lparr>wd_FinalStatus := ''failed''\<rparr>)) (\<lambda>_. throw SkipRetry)
            else transient_outcome now orgID y1
              (Sentinel (''webhook delivery attempt '' @ itoa_nat (wd_Attempts y) @ '' got status '' @ itoa code))))
       (d\<lparr>fired := fired d @ [Posted (wd_ID y) (signed_request ww y cfg)]\<rparr>)))"

definition hook_handle :: "hook_worker \<Rightarrow> time \<Rightarrow> string \<Rightarrow> hook_response \<Rightarrow> (('m, hook_effect) hook_db, unit) op" where
  "hook_handle ww now task resp = bindE (hook_claim ww now task) (hook_deliver ww now resp)"

end
