(* ===== verification/Webhook_Delivery.thy ===== *)
theory Webhook_Delivery
  imports Webhooks
begin

text \<open>
  What the delivery of webhooks keeps: under any overlap of worker runs, retries, configuration changes and faults of
  the database a delivery counts at most three attempts and a delivered one is final; and when its runs do not overlap,
  at most three requests are made for it.
\<close>

section \<open>Invariant of the deliveries\<close>

definition delivery_ok :: "WebhookDelivery \<Rightarrow> bool" where
  "delivery_ok x \<longleftrightarrow> wd_Attempts x \<le> 3 \<and> wd_FinalStatus x \<in> {''pending'', ''delivered'', ''failed''}"

definition wf_hooks :: "'m hook_tables_scheme \<Rightarrow> bool" where
  "wf_hooks r \<longleftrightarrow> distinct (map wd_ID (t_deliveries r)) \<and> (\<forall>x \<in> set (t_deliveries r). delivery_ok x)"

text \<open>What may happen to a delivery; one that is delivered stays as it is.\<close>

definition row_le :: "WebhookDelivery \<Rightarrow> WebhookDelivery \<Rightarrow> bool" where
  "row_le x x' \<longleftrightarrow> wd_ID x' = wd_ID x \<and> wd_OrgID x' = wd_OrgID x \<and> wd_WebhookID x' = wd_WebhookID x \<and> wd_Event x' = wd_Event x
     \<and> wd_Payload x' = wd_Payload x \<and> wd_CreatedAt x' = wd_CreatedAt x \<and> (wd_FinalStatus x = ''delivered'' \<longrightarrow> x' = x)"

definition rows_move :: "'m hook_tables_scheme \<Rightarrow> 'm hook_tables_scheme \<Rightarrow> bool" where
  "rows_move r r' \<longleftrightarrow> (\<forall>x \<in> set (t_deliveries r). (\<exists>x' \<in> set (t_deliveries r'). row_le x x') \<or> wd_ID x \<notin> wd_ID ` set (t_deliveries r'))"

lemma row_le_refl [simp]: "row_le x x"
  by (simp add: row_le_def)

lemma rows_move_refl [simp]: "rows_move r r"
  unfolding rows_move_def using row_le_refl by blast

lemma rows_move_same [simp]: "t_deliveries r' = t_deliveries r \<Longrightarrow> rows_move r r'"
  unfolding rows_move_def using row_le_refl by force

lemma wf_hooks_same: "t_deliveries r' = t_deliveries r \<Longrightarrow> wf_hooks r' = wf_hooks r"
  by (simp add: wf_hooks_def)

definition keeps_rows :: "'m hook_tables_scheme \<Rightarrow> 'm hook_tables_scheme \<Rightarrow> bool" where
  "keeps_rows r r' \<longleftrightarrow> (wf_hooks r \<longrightarrow> wf_hooks r' \<and> rows_move r r')"

lemma keeps_rows_refl [simp]: "keeps_rows r r"
  by (simp add: keeps_rows_def)

lemma keeps_rows_same: "t_deliveries r' = t_deliveries r \<Longrightarrow> keeps_rows r r'"
  by (simp add: keeps_rows_def wf_hooks_def)

lemma keeps_rows_hits:
  assumes "t_deliveries r' = map_hits hit f (t_deliveries r)"
    and "\<And>x. x \<in> set (t_deliveries r) \<Longrightarrow> hit x \<Longrightarrow> row_le x (f x)"
    and "\<And>x. x \<in> set (t_deliveries r) \<Longrightarrow> hit x \<Longrightarrow> delivery_ok x \<Longrightarrow> delivery_ok (f x)"
  shows "keeps_rows r r'"
proof -
  have k: "map wd_ID (t_deliveries r') = map wd_ID (t_deliveries r)"
    using assms(2) by (auto simp: assms(1) map_hits_def row_le_def)
  have "rows_move r r'" unfolding rows_move_def assms(1) set_map_hits using assms(2) row_le_refl by blast
  moreover have "wf_hooks r'" if w: "wf_hooks r"
  proof -
    have "delivery_ok x" if "x \<in> set (t_deliveries r')" for x
      using that w assms(3) unfolding assms(1) set_map_hits wf_hooks_def by blast
    with w k show ?thesis unfolding wf_hooks_def k by blast
  qed
  ultimately show ?thesis by (simp add: keeps_rows_def)
qed

section \<open>The worker's transactions\<close>

lemma increment_InrE:
  assumes "hook_IncrementDeliveryAttempt now k d = (Inr (n, c), d')"
  obtains "\<not> c" "tables d' = tables d" "ran d d'" |
    x where "c" "find (claimable k (tenant d)) (t_deliveries (tables d)) = Some x" "n = wd_Attempts x + 1" "ran d d'"
      "tables d' = t_deliveries_update (map_hits (claimable k (tenant d)) (\<lambda>x. x\<lparr>wd_Attempts := wd_Attempts x + 1, wd_UpdatedAt := now\<rparr>)) (tables d)"
  using exec_InrD(1) [OF assms [unfolded hook_IncrementDeliveryAttempt_def]] exec_ran [OF assms [unfolded hook_IncrementDeliveryAttempt_def]]
  by (auto split: option.splits)

lemma claim_tx_InrE:
  assumes "claim_tx now o1 k d = (Inr (y, cfg, c), d')"
  obtains z where "find (\<lambda>x. wd_ID x = k \<and> sees_delivery (tenant d) x) (t_deliveries (tables d)) = Some z"
    "wd_OrgID z = o1" "find (\<lambda>x. wh_ID x = wd_WebhookID z \<and> sees_hook (tenant d) x) (t_hooks (tables d)) = Some cfg"
    "\<not> c" "y = z" "tables d' = tables d" |
    z x where "find (\<lambda>x. wd_ID x = k \<and> sees_delivery (tenant d) x) (t_deliveries (tables d)) = Some z"
    "wd_OrgID z = o1" "find (\<lambda>x. wh_ID x = wd_WebhookID z \<and> sees_hook (tenant d) x) (t_hooks (tables d)) = Some cfg"
    "c" "find (claimable k (tenant d)) (t_deliveries (tables d)) = Some x" "y = z\<lparr>wd_Attempts := wd_Attempts x + 1\<rparr>"
    "tables d' = t_deliveries_update (map_hits (claimable k (tenant d)) (\<lambda>x. x\<lparr>wd_Attempts := wd_Attempts x + 1, wd_UpdatedAt := now\<rparr>)) (tables d)"
proof -
  from assms obtain z d1 d2 n c' d3 where g: "hook_GetDeliveryByID k d = (Inr z, d1)" "wd_OrgID z = o1"
    "hook_GetConfigByID (wd_WebhookID z) d1 = (Inr cfg, d2)" "hook_IncrementDeliveryAttempt now (wd_ID z) d2 = (Inr (n, c'), d3)"
    "y = (if c' then z\<lparr>wd_Attempts := n\<rparr> else z)" "c = c'" "d' = d3"
    unfolding claim_tx_def by (elim op_InrE) (auto simp: ret_def split: prod.splits)
  from g(1) have z: "find (\<lambda>x. wd_ID x = k \<and> sees_delivery (tenant d) x) (t_deliveries (tables d)) = Some z" "tables d1 = tables d"
    "tenant d1 = tenant d" unfolding hook_GetDeliveryByID_def by (auto elim!: query_row_InrE dest: ranD)
  from g(3) have cfg: "find (\<lambda>x. wh_ID x = wd_WebhookID z \<and> sees_hook (tenant d) x) (t_hooks (tables d)) = Some cfg"
    "tables d2 = tables d" "tenant d2 = tenant d"
    unfolding hook_GetConfigByID_def using z(2,3) by (auto elim!: query_row_InrE dest: ranD)
  have k: "wd_ID z = k" using z(1) by (auto simp: find_Some_iff)
  from g(4) show ?thesis
    by (rule increment_InrE) (use that g(2,5,6,7) z cfg k in auto)
qed

lemma claim_tx_keeps:
  assumes "claim_tx now o1 k d = (Inr a, d')"
  shows "keeps_rows (tables d) (tables d')"
proof -
  obtain y cfg c where a: "a = (y, cfg, c)" by (cases a)
  show ?thesis using assms unfolding a
  proof (cases rule: claim_tx_InrE)
    case (2 z x)
    show ?thesis
      by (rule keeps_rows_hits [where hit = "claimable k (tenant d)" and f = "\<lambda>x. x\<lparr>wd_Attempts := wd_Attempts x + 1, wd_UpdatedAt := now\<rparr>"])
        (auto simp: 2 row_le_def claimable_def delivery_ok_def)
  qed simp
qed

lemma persist_InrE:
  assumes "hook_UpdateDeliveryIfNotDelivered now y d = (Inr u, d')"
  obtains "tables d' = t_deliveries_update (map_hits (\<lambda>x. (wd_ID x = wd_ID y \<and> wd_FinalStatus x \<noteq> ''delivered'') \<and> sees_delivery (tenant d) x)
     (delivery_columns now y)) (tables d)"
    "u = (length (filter (\<lambda>x. (wd_ID x = wd_ID y \<and> wd_FinalStatus x \<noteq> ''delivered'') \<and> sees_delivery (tenant d) x) (t_deliveries (tables d))) = 1)"
  using assms unfolding hook_UpdateDeliveryIfNotDelivered_def by (auto elim!: op_InrE update_rows_InrE)

lemma persist_keeps:
  assumes "hook_UpdateDeliveryIfNotDelivered now y d = (Inr u, d')" "delivery_ok y"
  shows "keeps_rows (tables d) (tables d')"
  using assms(1)
proof (rule persist_InrE)
  assume t: "tables d' = t_deliveries_update (map_hits (\<lambda>x. (wd_ID x = wd_ID y \<and> wd_FinalStatus x \<noteq> ''delivered'') \<and> sees_delivery (tenant d) x)
     (delivery_columns now y)) (tables d)"
  show ?thesis
    by (rule keeps_rows_hits [where hit = "\<lambda>x. (wd_ID x = wd_ID y \<and> wd_FinalStatus x \<noteq> ''delivered'') \<and> sees_delivery (tenant d) x"
          and f = "delivery_columns now y"]) (use assms(2) in \<open>simp_all add: t row_le_def delivery_columns_def delivery_ok_def\<close>)
qed


section \<open>Calls and runs\<close>

text \<open>The calls of the recruiters' API, each in the transaction of its request, and the dispatch of an event.\<close>

record hook_env =
  he_net :: url_net
  he_fmt :: "time \<Rightarrow> string"
  he_jsonb :: "string \<Rightarrow> string result"
  he_notifs :: bool
  he_queue :: bool
  he_worker :: hook_worker

datatype hook_call =
    HookCreate AuthContext uuid CreateWebhookCommand
  | HookUpdate AuthContext uuid UpdateWebhookCommand
  | HookDelete AuthContext uuid
  | HookEvent uuid "nat \<Rightarrow> uuid" string string

fun hook_call_run :: "hook_env \<Rightarrow> time \<Rightarrow> hook_call \<Rightarrow> (('m, hook_effect) hook_db, unit) op" where
  "hook_call_run x now (HookCreate a k cmd) = unit_of (RunInTx (ac_OrgID a) (webhook_Create (he_net x) (he_fmt x) k now a cmd))"
| "hook_call_run x now (HookUpdate a k cmd) = unit_of (RunInTx (ac_OrgID a) (webhook_Update (he_net x) (he_fmt x) now a k cmd))"
| "hook_call_run x now (HookDelete a k) = RunInTx (ac_OrgID a) (webhook_Delete a k)"
| "hook_call_run x now (HookEvent o1 ids e p) = Dispatch (he_jsonb x) (he_notifs x) (he_queue x) ids now o1 e p"

text \<open>Runs of the worker that may overlap: a claim puts a delivery in flight, its outcome takes it out.\<close>

datatype hook_event = ClaimTask time string | Outcome time nat hook_response | Calls time hook_call

type_synonym flight = "uuid \<times> WebhookDelivery \<times> WebhookConfig"

fun hook_step :: "hook_env \<Rightarrow> hook_event \<Rightarrow> ('m, hook_effect) hook_db \<times> flight list \<Rightarrow> ('m, hook_effect) hook_db \<times> flight list" where
  "hook_step x (ClaimTask now task) (d, fl) = (case hook_claim (he_worker x) now task d of
     (Inl e, d') \<Rightarrow> (d', fl) | (Inr f, d') \<Rightarrow> (d', fl @ [f]))"
| "hook_step x (Outcome now i resp) (d, fl) = (if i < length fl
     then (snd (hook_deliver (he_worker x) now resp (fl ! i) d), take i fl @ drop (Suc i) fl) else (d, fl))"
| "hook_step x (Calls now c) (d, fl) = (snd (hook_call_run x now c d), fl)"

inductive hook_reach :: "hook_env \<Rightarrow> ('m, hook_effect) hook_db \<times> flight list \<Rightarrow> ('m, hook_effect) hook_db \<times> flight list \<Rightarrow> bool" for x c0 where
  start: "hook_reach x c0 c0"
| step: "hook_reach x c0 c \<Longrightarrow> hook_reach x c0 (hook_step x e c)"

section \<open>Effects\<close>

lemma quiet_hook_repo [quiet_intros]:
  "quiet (hook_CreateConfig cfg)" "quiet (hook_GetConfigByID k)" "quiet (hook_UpdateConfig now cfg)" "quiet (hook_DeleteConfig k)"
  "quiet (hook_GetDeliveryByID k)" "quiet (hook_IncrementDeliveryAttempt now k)" "quiet (hook_UpdateDeliveryIfNotDelivered now y)"
  "quiet (hook_ListConfigsByEvent o1 e)"
  unfolding hook_CreateConfig_def hook_GetConfigByID_def hook_UpdateConfig_def hook_DeleteConfig_def hook_GetDeliveryByID_def
    hook_IncrementDeliveryAttempt_def hook_UpdateDeliveryIfNotDelivered_def hook_ListConfigsByEvent_def Let_def
  by (intro quiet_intros)+

lemma quiet_hook_CreateDelivery [quiet_intros]: "quiet (hook_CreateDelivery jsonb y)"
  unfolding hook_CreateDelivery_def by (cases "jsonb (wd_Payload y)") (simp_all, (intro quiet_intros)+)

lemma quiet_worker [quiet_intros]: "quiet (claim_tx now o1 k)" "quiet (persist_delivery now o1 y)" "quiet (persisted now o1 y)"
  "quiet (transient_outcome now o1 y e)"
  unfolding claim_tx_def persist_delivery_def persisted_def transient_outcome_def Let_def by (intro quiet_intros)+

lemma quiet_service [quiet_intros]: "quiet (webhook_Create x fmt k now a cmd)" "quiet (webhook_Update x fmt now a k ucmd)" "quiet (webhook_Delete a k)"
  unfolding webhook_Create_def webhook_Update_def webhook_Delete_def foreign_webhook_def by (intro quiet_intros)+

lemma quiet_create_deliveries [quiet_intros]: "quiet (create_deliveries jsonb now o1 e p cs)"
  by (induction jsonb now o1 e p cs rule: create_deliveries.induct) (auto intro!: quiet_intros)

lemma quiet_dispatch_tx [quiet_intros]: "quiet (dispatch_tx jsonb ids now o1 e p)"
  unfolding dispatch_tx_def by (intro quiet_intros)

section \<open>Every step keeps the deliveries\<close>

lemma RunInTx_keeps_rows:
  assumes "\<And>d a d'. fn d = (Inr a, d') \<Longrightarrow> keeps_rows (tables d) (tables d')"
    and "\<not> in_tx d" "RunInTx o1 fn d = (r, d')"
  shows "\<not> in_tx d' \<and> keeps_rows (tables d) (tables d')"
proof (cases r)
  case (Inl e)
  with RunInTx_atomic [of d o1 fn e d'] assms(2,3) show ?thesis by (simp add: keeps_rows_same)
next
  case (Inr a)
  with assms(3) have "RunInTx o1 fn d = (Inr a, d')" by simp
  with assms(2) obtain d1 d2 where "fn d1 = (Inr a, d2)" "tables d1 = tables d" "tables d' = tables d2" "\<not> in_tx d'"
    by (rule RunInTx_InrD)
  with assms(1) show ?thesis by metis
qed

lemma hook_CreateConfig_keeps: "hook_CreateConfig cfg d = (Inr u, d') \<Longrightarrow> t_deliveries (tables d') = t_deliveries (tables d)"
  unfolding hook_CreateConfig_def by (auto elim!: insert_row_InrE)

lemma hook_UpdateConfig_keeps: "hook_UpdateConfig now cfg d = (Inr u, d') \<Longrightarrow> t_deliveries (tables d') = t_deliveries (tables d)"
  unfolding hook_UpdateConfig_def by (auto elim!: unit_of_InrE update_rows_InrE)

lemma hook_GetConfigByID_keeps: "hook_GetConfigByID k d = (Inr u, d') \<Longrightarrow> tables d' = tables d"
  unfolding hook_GetConfigByID_def by (auto elim!: query_row_InrE)

lemma hook_DeleteConfig_keeps:
  assumes "hook_DeleteConfig k d = (Inr u, d')"
  shows "keeps_rows (tables d) (tables d')"
proof -
  obtain P where t: "t_deliveries (tables d') = filter P (t_deliveries (tables d))"
    using exec_InrD(1) [OF assms [unfolded hook_DeleteConfig_def]] by (auto simp: Let_def dest!: sym [of _ "tables d'"])
  show ?thesis unfolding keeps_rows_def
  proof (intro impI conjI)
    assume w: "wf_hooks (tables d)"
    then show "wf_hooks (tables d')" by (auto simp: wf_hooks_def t distinct_map intro: inj_on_subset)
    from w have i: "inj_on wd_ID (set (t_deliveries (tables d)))" by (simp add: wf_hooks_def distinct_map)
    show "rows_move (tables d) (tables d')"
      unfolding rows_move_def t
    proof
      fix x assume x: "x \<in> set (t_deliveries (tables d))"
      show "(\<exists>x' \<in> set (filter P (t_deliveries (tables d))). row_le x x') \<or> wd_ID x \<notin> wd_ID ` set (filter P (t_deliveries (tables d)))"
      proof (cases "P x")
        case True
        with x row_le_refl [of x] show ?thesis by auto
      next
        case False
        with i x have "wd_ID x \<notin> wd_ID ` set (filter P (t_deliveries (tables d)))" by (auto dest: inj_onD)
        then show ?thesis ..
      qed
    qed
  qed
qed

lemma hook_CreateDelivery_keeps:
  assumes "hook_CreateDelivery jsonb y d = (Inr u, d')"
  shows "\<exists>p. t_deliveries (tables d') = t_deliveries (tables d) @ [y\<lparr>wd_Payload := p\<rparr>] \<and> wd_ID y \<notin> wd_ID ` set (t_deliveries (tables d))"
  using assms unfolding hook_CreateDelivery_def
  by (auto split: sum.splits if_splits elim!: insert_row_InrE dest: exec_InrD(1))

lemma create_deliveries_keeps:
  "create_deliveries jsonb now o1 e p cs d = (Inr ks, d') \<Longrightarrow>
     \<exists>ys. t_deliveries (tables d') = t_deliveries (tables d) @ ys \<and> ks = map wd_ID ys \<and> ks = map fst cs
       \<and> distinct ks \<and> set ks \<inter> wd_ID ` set (t_deliveries (tables d)) = {}
       \<and> (\<forall>y \<in> set ys. wd_Attempts y = 0 \<and> wd_FinalStatus y = ''pending'')"
proof (induction jsonb now o1 e p cs arbitrary: d ks rule: create_deliveries.induct)
  case (2 jsonb now orgID event payload newid cfg cfgs)
  from 2(2) obtain d1 ks1 where h: "hook_CreateDelivery jsonb (new_delivery newid now orgID (wh_ID cfg) event payload) d = (Inr (), d1)"
    and c: "create_deliveries jsonb now orgID event payload cfgs d1 = (Inr ks1, d')" "ks = newid # ks1"
    by (auto elim!: op_InrE)
  from hook_CreateDelivery_keeps [OF h] obtain q where
    t: "t_deliveries (tables d1) = t_deliveries (tables d) @ [(new_delivery newid now orgID (wh_ID cfg) event payload)\<lparr>wd_Payload := q\<rparr>]"
    "newid \<notin> wd_ID ` set (t_deliveries (tables d))" by (auto simp: new_delivery_def)
  from 2(1) [OF c(1)] obtain ys where ys: "t_deliveries (tables d') = t_deliveries (tables d1) @ ys" "ks1 = map wd_ID ys" "ks1 = map fst cfgs"
    "distinct ks1" "set ks1 \<inter> wd_ID ` set (t_deliveries (tables d1)) = {}" "\<forall>y \<in> set ys. wd_Attempts y = 0 \<and> wd_FinalStatus y = ''pending''"
    by blast
  show ?case
    by (rule exI [of _ "(new_delivery newid now orgID (wh_ID cfg) event payload)\<lparr>wd_Payload := q\<rparr> # ys"])
      (use ys t c(2) in \<open>auto simp: new_delivery_def\<close>)
qed (simp add: ret_def)

lemma rows_append_keeps:
  assumes "t_deliveries r' = t_deliveries r @ ys" "distinct (map wd_ID ys)" "wd_ID ` set ys \<inter> wd_ID ` set (t_deliveries r) = {}"
    "\<forall>y \<in> set ys. wd_Attempts y = 0 \<and> wd_FinalStatus y = ''pending''"
  shows "keeps_rows r r'"
  unfolding keeps_rows_def
proof (intro impI conjI)
  assume "wf_hooks r"
  with assms show "wf_hooks r'" by (auto simp: wf_hooks_def delivery_ok_def)
  show "rows_move r r'" unfolding rows_move_def assms(1) set_append using row_le_refl by blast
qed

lemma dispatch_tx_keeps:
  assumes "dispatch_tx jsonb ids now o1 e p d = (Inr ks, d')"
  shows "keeps_rows (tables d) (tables d') \<and> set ks \<subseteq> range ids"
proof -
  from assms obtain cfgs d1 where "hook_ListConfigsByEvent o1 e d = (Inr cfgs, d1)"
    and c: "create_deliveries jsonb now o1 e p (zip (map ids [0..<length cfgs]) cfgs) d1 = (Inr ks, d')"
    unfolding dispatch_tx_def by (auto elim!: op_InrE)
  then have t: "tables d1 = tables d" by (auto simp: hook_ListConfigsByEvent_def elim!: query_InrE)
  from create_deliveries_keeps [OF c] obtain ys where ys: "t_deliveries (tables d') = t_deliveries (tables d) @ ys" "ks = map wd_ID ys"
    "ks = map fst (zip (map ids [0..<length cfgs]) cfgs)" "distinct ks" "set ks \<inter> wd_ID ` set (t_deliveries (tables d)) = {}"
    "\<forall>y \<in> set ys. wd_Attempts y = 0 \<and> wd_FinalStatus y = ''pending''" unfolding t by blast
  have "keeps_rows (tables d) (tables d')" by (rule rows_append_keeps [OF ys(1)]) (use ys(2,4-) in auto)
  moreover have "set ks \<subseteq> range ids" unfolding ys(3) by auto
  ultimately show ?thesis ..
qed

lemma enqueue_frame:
  "enqueue_deliveries o1 ks d = (r, d') \<Longrightarrow> tables d' = tables d \<and> in_tx d' = in_tx d
     \<and> (\<exists>qs. fired d' = fired d @ qs \<and> set qs \<subseteq> (\<lambda>k. Queued k o1) ` set ks)"
proof (induction o1 ks arbitrary: d r d' rule: enqueue_deliveries.induct)
  case (2 o1 k ks)
  obtain q d1 where q: "attempt (emit (Queued k o1)) d = (Inr q, d1)"
    using attempt_total [of "emit (Queued k o1)" d] by (elim exE) (rule that)
  then have d1: "tables d1 = tables d" "in_tx d1 = in_tx d" "\<exists>qs. fired d1 = fired d @ qs \<and> set qs \<subseteq> {Queued k o1}"
    by (auto simp: attempt_def emit_def split: prod.splits option.splits dest!: next_fault_frameD)
  obtain r2 d2 where e: "enqueue_deliveries o1 ks d1 = (r2, d2)" by fastforce
  have "d' = d2" using 2(2) q e by (auto simp: bindE_def ret_def split: sum.splits)
  with 2(1) [OF e] d1 show ?case by fastforce
qed (simp add: ret_def)

text \<open>Of the tables, a dispatch changes the deliveries only.\<close>

definition beyond_deliveries :: "'m hook_tables_scheme \<Rightarrow> 'm hook_tables_scheme" where
  "beyond_deliveries r = r\<lparr>t_deliveries := []\<rparr>"

lemma create_deliveries_beyond:
  "create_deliveries jsonb now o1 e p cs d = (Inr ks, d') \<Longrightarrow> beyond_deliveries (tables d') = beyond_deliveries (tables d)"
proof (induction jsonb now o1 e p cs arbitrary: d ks d' rule: create_deliveries.induct)
  case (2 jsonb now o1 e p k cfg cs)
  from 2(2) obtain d1 ks1 d2 where c: "create_deliveries jsonb now o1 e p cs d1 = (Inr ks1, d2)" "d' = d2"
    and h: "hook_CreateDelivery jsonb (new_delivery k now o1 (wh_ID cfg) e p) d = (Inr (), d1)"
    by (auto elim!: op_InrE)
  have "beyond_deliveries (tables d1) = beyond_deliveries (tables d)"
    using h unfolding hook_CreateDelivery_def
    by (auto split: sum.splits elim!: insert_row_InrE dest: exec_InrD(1) simp: beyond_deliveries_def)
  with 2(1) [OF c(1)] c(2) show ?case by simp
qed (simp add: ret_def)

lemma dispatch_tx_beyond:
  assumes "dispatch_tx jsonb ids now o1 e p d = (Inr ks, d')"
  shows "beyond_deliveries (tables d') = beyond_deliveries (tables d)"
  using assms unfolding dispatch_tx_def hook_ListConfigsByEvent_def
  by (auto elim!: op_InrE query_InrE dest!: create_deliveries_beyond)

lemma Dispatch_effects:
  assumes "\<not> in_tx d" "Dispatch jsonb hn hq ids now o1 e p d = (r, d')"
  shows "\<not> in_tx d' \<and> keeps_rows (tables d) (tables d') \<and> beyond_deliveries (tables d') = beyond_deliveries (tables d)
    \<and> (\<exists>qs. fired d' = fired d @ qs \<and> set qs \<subseteq> insert (Notified o1 e) (range (\<lambda>k. Queued k o1)))"
proof -
  obtain q d1 where n: "(if hn \<and> e = EventInterviewCompleted then attempt (emit (Notified o1 e)) else ret (Inr ())) d = (Inr q, d1)"
    using attempt_total [of "emit (Notified o1 e)" d] by (cases "hn \<and> e = EventInterviewCompleted") (auto simp: ret_def)
  then have d1: "tables d1 = tables d" "\<not> in_tx d1" "\<exists>qs. fired d1 = fired d @ qs \<and> set qs \<subseteq> {Notified o1 e}"
    using assms(1) by (auto simp: attempt_def ret_def emit_def split: if_splits prod.splits option.splits dest!: next_fault_frameD)
  obtain r2 d2 where t: "RunInTx o1 (dispatch_tx jsonb ids now o1 e p) d1 = (r2, d2)" by fastforce
  have d2: "\<not> in_tx d2" "keeps_rows (tables d) (tables d2)" "fired d2 = fired d1"
    using RunInTx_keeps_rows [OF _ d1(2) t] dispatch_tx_keeps quietD [OF quiet_RunInTx [OF quiet_dispatch_tx] t] d1(1) by metis+
  have b2: "beyond_deliveries (tables d2) = beyond_deliveries (tables d)"
    using RunInTx_tables [OF d1(2), of "\<lambda>r. beyond_deliveries r = beyond_deliveries (tables d)" o1 "dispatch_tx jsonb ids now o1 e p"]
      dispatch_tx_beyond d1(1) t by (metis snd_conv)
  show ?thesis
  proof (cases "(\<exists>x. r2 = Inl x) \<or> \<not> hq")
    case True
    then have "d' = d2" using assms(2) n t by (auto simp: Dispatch_def bindE_def ret_def split: sum.splits)
    with d2 d1 b2 show ?thesis by auto
  next
    case False
    then obtain ks where ks: "r2 = Inr ks" "hq" by (cases r2) auto
    obtain r3 d3 where q: "enqueue_deliveries o1 ks d2 = (r3, d3)" by fastforce
    have d': "d' = d3" using assms(2) n t q ks by (auto simp: Dispatch_def bindE_def fail_if_def ret_def throw_def split: sum.splits if_splits)
    obtain qs1 where qs1: "fired d1 = fired d @ qs1" "set qs1 \<subseteq> {Notified o1 e}" using d1(3) by blast
    obtain qs3 where qs3: "tables d3 = tables d2" "in_tx d3 = in_tx d2" "fired d3 = fired d2 @ qs3" "set qs3 \<subseteq> (\<lambda>k. Queued k o1) ` set ks"
      using enqueue_frame [OF q] by blast
    have "fired d' = fired d @ (qs1 @ qs3)" using qs1(1) qs3(3) d2(3) d' by simp
    moreover have "set (qs1 @ qs3) \<subseteq> insert (Notified o1 e) (range (\<lambda>k. Queued k o1))" using qs1(2) qs3(4) by auto
    ultimately show ?thesis using d' qs3(1,2) d2(1,2) b2 by metis
  qed
qed

lemma Dispatch_frame:
  assumes "\<not> in_tx d" "Dispatch jsonb hn hq ids now o1 e p d = (r, d')"
  shows "\<not> in_tx d' \<and> keeps_rows (tables d) (tables d')
    \<and> (\<exists>qs. fired d' = fired d @ qs \<and> (\<forall>q \<in> set qs. \<forall>k rq. q \<noteq> Posted k rq))"
  using Dispatch_effects [OF assms] by blast

lemma webhook_Create_keeps: "webhook_Create x fmt k now a cmd d = (Inr u, d') \<Longrightarrow> keeps_rows (tables d) (tables d')"
  unfolding webhook_Create_def by (elim op_InrE) (auto dest!: hook_CreateConfig_keeps intro: keeps_rows_same)

lemma webhook_Update_keeps: "webhook_Update x fmt now a k cmd d = (Inr u, d') \<Longrightarrow> keeps_rows (tables d) (tables d')"
  unfolding webhook_Update_def foreign_webhook_def
  by (elim op_InrE) (auto dest!: hook_UpdateConfig_keeps hook_GetConfigByID_keeps intro: keeps_rows_same)

lemma webhook_Delete_keeps: "webhook_Delete a k d = (Inr u, d') \<Longrightarrow> keeps_rows (tables d) (tables d')"
  unfolding webhook_Delete_def foreign_webhook_def
  by (elim op_InrE) (auto dest!: hook_DeleteConfig_keeps hook_GetConfigByID_keeps)

lemma snd_unit_of [simp]: "snd (unit_of m d) = snd (m d)"
  by (auto simp: unit_of_def bindE_def ret_def split: prod.splits sum.splits)

lemma hook_call_frame:
  assumes "\<not> in_tx d"
  shows "\<not> in_tx (snd (hook_call_run x now c d)) \<and> keeps_rows (tables d) (tables (snd (hook_call_run x now c d)))
    \<and> (\<exists>qs. fired (snd (hook_call_run x now c d)) = fired d @ qs \<and> (\<forall>q \<in> set qs. \<forall>k rq. q \<noteq> Posted k rq))"
proof (cases c)
  case (HookEvent o1 ids e p)
  with Dispatch_frame [OF assms, of "he_jsonb x" "he_notifs x" "he_queue x" ids now o1 e p] show ?thesis by (metis hook_call_run.simps(4) prod.collapse)
next
  case (HookCreate a k cmd)
  obtain r d' where r: "RunInTx (ac_OrgID a) (webhook_Create (he_net x) (he_fmt x) k now a cmd) d = (r, d')" by fastforce
  from RunInTx_keeps_rows [OF webhook_Create_keeps assms r] quietD [OF quiet_RunInTx [OF quiet_service(1)] r] r HookCreate show ?thesis by simp
next
  case (HookUpdate a k cmd)
  obtain r d' where r: "RunInTx (ac_OrgID a) (webhook_Update (he_net x) (he_fmt x) now a k cmd) d = (r, d')" by fastforce
  from RunInTx_keeps_rows [OF webhook_Update_keeps assms r] quietD [OF quiet_RunInTx [OF quiet_service(2)] r] r HookUpdate show ?thesis by simp
next
  case (HookDelete a k)
  obtain r d' where r: "RunInTx (ac_OrgID a) (webhook_Delete a k) d = (r, d')" by fastforce
  from RunInTx_keeps_rows [OF webhook_Delete_keeps assms r] quietD [OF quiet_RunInTx [OF quiet_service(3)] r] r HookDelete show ?thesis by simp
qed

lemma persist_delivery_frame:
  assumes "\<not> in_tx d" "delivery_ok y" "persist_delivery now o1 y d = (r, d')"
  shows "\<not> in_tx d' \<and> keeps_rows (tables d) (tables d') \<and> fired d' = fired d"
proof -
  have "\<not> in_tx d' \<and> keeps_rows (tables d) (tables d')"
    by (rule RunInTx_keeps_rows [OF _ assms(1) assms(3) [unfolded persist_delivery_def]]) (rule persist_keeps [OF _ assms(2)])
  with quietD [OF quiet_worker(2) assms(3)] show ?thesis by blast
qed

lemma captured_InrD:
  assumes "captured o1 (hook_GetDeliveryByID k) d = Some y"
  shows "y \<in> set (t_deliveries (tables d)) \<and> wd_ID y = k"
proof -
  have g: "y \<in> set (t_deliveries (tables d1)) \<and> wd_ID y = k" if h: "fst (hook_GetDeliveryByID k d1) = Inr y" for d1 :: "('a, 'b) hook_db"
  proof -
    obtain d2 where "hook_GetDeliveryByID k d1 = (Inr y, d2)" using h by (cases "hook_GetDeliveryByID k d1") simp
    then show ?thesis unfolding hook_GetDeliveryByID_def by (auto elim!: query_row_InrE simp: find_Some_iff)
  qed
  show ?thesis
  proof (cases "in_tx d")
    case True
    with assms g show ?thesis by (auto simp: captured_def split: sum.splits)
  next
    case False
    with assms obtain d1 where d1: "next_fault d = (None, d1)" and
      "fst (bindE (SetTenant o1) (\<lambda>_. hook_GetDeliveryByID k) (d1\<lparr>in_tx := True, aborted := False, saved := [], pending := []\<rparr>)) = Inr y"
      by (auto simp: captured_def split: sum.splits prod.splits option.splits)
    then obtain d2 where "SetTenant o1 (d1\<lparr>in_tx := True, aborted := False, saved := [], pending := []\<rparr>) = (Inr (), d2)"
      "fst (hook_GetDeliveryByID k d2) = Inr y" by (auto simp: bindE_def split: prod.splits sum.splits)
    moreover from this(1) have "tables d2 = tables d" using next_fault_frame(1) [OF d1]
      by (auto simp: SetTenant_def split: if_splits prod.splits option.splits dest!: next_fault_frameD)
    ultimately show ?thesis using g by metis
  qed
qed

section \<open>Attempts that are left\<close>

definition left :: "WebhookDelivery \<Rightarrow> nat" where
  "left x = (if wd_FinalStatus x = ''pending'' then 3 - wd_Attempts x else 0)"

definition left_of :: "uuid \<Rightarrow> WebhookDelivery list \<Rightarrow> nat" where
  "left_of key xs = sum_list (map left (filter (\<lambda>x. wd_ID x = key) xs))"

lemma left_of_simps [simp]:
  "left_of key [] = 0" "left_of key (x # xs) = (if wd_ID x = key then left x else 0) + left_of key xs"
  "left_of key (xs @ ys) = left_of key xs + left_of key ys"
  by (simp_all add: left_of_def)

lemma left_of_hits:
  assumes "\<And>x. wd_ID (f x) = wd_ID x" "\<And>x. x \<in> set xs \<Longrightarrow> hit x \<Longrightarrow> wd_ID x = key \<Longrightarrow> left (f x) \<le> left x"
  shows "left_of key (map_hits hit f xs) \<le> left_of key xs"
  using assms(2) by (induction xs) (auto simp: map_hits_def assms(1) intro: add_mono)

lemma left_of_hit:
  assumes "\<And>x. wd_ID (f x) = wd_ID x" "\<And>x. x \<in> set xs \<Longrightarrow> hit x \<Longrightarrow> wd_ID x = key \<Longrightarrow> left (f x) < left x"
    "z \<in> set xs" "hit z" "wd_ID z = key"
  shows "left_of key (map_hits hit f xs) < left_of key xs"
  using assms(2,3)
proof (induction xs)
  case (Cons x xs)
  note le = left_of_hits [of f, OF assms(1), of xs hit key]
  show ?case
  proof (cases "hit x \<and> wd_ID x = key")
    case True
    then have "left (f x) < left x" "left_of key (map_hits hit f xs) \<le> left_of key xs" using Cons.prems(1) le by (simp_all add: less_imp_le)
    with True show ?thesis by (simp add: map_hits_def assms(1))
  next
    case False
    with Cons.prems(2) assms(4,5) have "z \<in> set xs" by auto
    with Cons False show ?thesis by (auto simp: map_hits_def assms(1))
  qed
qed simp

lemma left_of_filter: "left_of key (filter P xs) \<le> left_of key xs"
  by (induction xs) auto

lemma left_of_fresh: "key \<notin> wd_ID ` set xs \<Longrightarrow> left_of key xs = 0"
  by (induction xs) auto

definition posts :: "uuid \<Rightarrow> hook_effect list \<Rightarrow> nat" where
  "posts key hs = length (filter (\<lambda>h. case h of Posted k rq \<Rightarrow> k = key | _ \<Rightarrow> False) hs)"

lemma posts_append [simp]: "posts key (xs @ ys) = posts key xs + posts key ys"
  by (simp add: posts_def)

lemma posts_none: "\<forall>q \<in> set qs. \<forall>k rq. q \<noteq> Posted k rq \<Longrightarrow> posts key qs = 0"
  by (induction qs) (auto simp: posts_def split: hook_effect.splits)

section \<open>A run of the worker\<close>

text \<open>What a claimed flight knows of its delivery.\<close>

definition claimed_from :: "'m hook_tables_scheme \<Rightarrow> 'm hook_tables_scheme \<Rightarrow> flight \<Rightarrow> bool" where
  "claimed_from r r' f \<longleftrightarrow> (case f of (o1, y, cfg) \<Rightarrow>
     (\<exists>z \<in> set (t_deliveries r). wd_FinalStatus z = ''pending'' \<and> wd_Attempts z < 3 \<and> y = z\<lparr>wd_Attempts := wd_Attempts z + 1\<rparr>
        \<and> wd_OrgID z = o1)
     \<and> cfg \<in> set (t_hooks r) \<and> wh_ID cfg = wd_WebhookID y \<and> wh_OrgID cfg = o1
     \<and> (\<forall>x \<in> set (t_deliveries r'). wd_ID x = wd_ID y \<longrightarrow> wd_FinalStatus x = ''pending'' \<and> wd_Attempts x = wd_Attempts y)
     \<and> left_of (wd_ID y) (t_deliveries r') < left_of (wd_ID y) (t_deliveries r))"

lemma wf_unique: "wf_hooks r \<Longrightarrow> x \<in> set (t_deliveries r) \<Longrightarrow> z \<in> set (t_deliveries r) \<Longrightarrow> wd_ID x = wd_ID z \<Longrightarrow> x = z"
  by (auto simp: wf_hooks_def distinct_map dest: inj_onD)

lemma left_claim: "claimable k t x \<Longrightarrow> left (x\<lparr>wd_Attempts := wd_Attempts x + 1, wd_UpdatedAt := now\<rparr>) < left x"
  by (auto simp: left_def claimable_def)

lemma claim_tx_left:
  assumes "claim_tx now o1 k d = (Inr (y, cfg, c), d')" "wf_hooks (tables d)" "tenant d = Some o1"
  shows "left_of key (t_deliveries (tables d')) \<le> left_of key (t_deliveries (tables d)) \<and> (c \<longrightarrow> claimed_from (tables d) (tables d') (o1, y, cfg))"
  using assms(1)
proof (cases rule: claim_tx_InrE)
  case (2 z x)
  let ?hit = "claimable k (tenant d)" and ?f = "\<lambda>x. x\<lparr>wd_Attempts := wd_Attempts x + 1, wd_UpdatedAt := now\<rparr>"
  have z: "z \<in> set (t_deliveries (tables d))" "wd_ID z = k" using 2(1) by (auto simp: find_Some_iff)
  have x: "x \<in> set (t_deliveries (tables d))" "?hit x" using 2(5) by (auto simp: find_Some_iff)
  have zx: "z = x" using wf_unique [OF assms(2) z(1) x(1)] z(2) x(2) by (simp add: claimable_def)
  have cfg: "cfg \<in> set (t_hooks (tables d))" "wh_ID cfg = wd_WebhookID z" "sees_hook (tenant d) cfg" using 2(3) by (auto simp: find_Some_iff)
  have t: "t_deliveries (tables d') = map_hits ?hit ?f (t_deliveries (tables d))" using 2(7) by simp
  have "left_of key (t_deliveries (tables d')) \<le> left_of key (t_deliveries (tables d))"
    unfolding t by (rule left_of_hits) (simp_all add: left_claim [THEN less_imp_le, simplified])
  moreover have "left_of k (t_deliveries (tables d')) < left_of k (t_deliveries (tables d))"
    unfolding t by (rule left_of_hit [where z = x]) (use x left_claim in \<open>auto simp: claimable_def\<close>)
  moreover have "\<forall>x' \<in> set (t_deliveries (tables d')). wd_ID x' = k \<longrightarrow> wd_FinalStatus x' = ''pending'' \<and> wd_Attempts x' = wd_Attempts x + 1"
  proof (intro ballI impI)
    fix x' assume x': "x' \<in> set (t_deliveries (tables d'))" "wd_ID x' = k"
    then obtain x0 where x0: "x0 \<in> set (t_deliveries (tables d))" "x' = (if ?hit x0 then ?f x0 else x0)" unfolding t map_hits_def by auto
    with x'(2) have "wd_ID x0 = wd_ID x" using x(2) by (auto simp: claimable_def split: if_splits)
    with wf_unique [OF assms(2) x0(1) x(1)] x0(2) x(2)
    show "wd_FinalStatus x' = ''pending'' \<and> wd_Attempts x' = wd_Attempts x + 1" by (simp add: claimable_def)
  qed
  ultimately show ?thesis
    using 2 z x cfg zx assms(3) by (auto simp: claimed_from_def claimable_def sees_hook_def)
qed simp

lemma persist_left:
  assumes "hook_UpdateDeliveryIfNotDelivered now y d = (Inr u, d')"
    and "\<forall>x \<in> set (t_deliveries (tables d)). wd_ID x = wd_ID y \<and> wd_FinalStatus x \<noteq> ''delivered'' \<longrightarrow> left y \<le> left x"
  shows "left_of key (t_deliveries (tables d')) \<le> left_of key (t_deliveries (tables d))"
  using assms(1)
proof (rule persist_InrE)
  assume t: "tables d' = t_deliveries_update (map_hits (\<lambda>x. (wd_ID x = wd_ID y \<and> wd_FinalStatus x \<noteq> ''delivered'') \<and> sees_delivery (tenant d) x)
     (delivery_columns now y)) (tables d)"
  have "left (delivery_columns now y x) = left y" for x by (simp add: left_def delivery_columns_def)
  with assms(2) show ?thesis by (simp add: t) (rule left_of_hits, auto simp: delivery_columns_def)
qed

lemma persist_delivery_left:
  assumes "\<not> in_tx d" "persist_delivery now o1 y d = (r, d')"
    and "\<forall>x \<in> set (t_deliveries (tables d)). wd_ID x = wd_ID y \<and> wd_FinalStatus x \<noteq> ''delivered'' \<longrightarrow> left y \<le> left x"
  shows "left_of key (t_deliveries (tables d')) \<le> left_of key (t_deliveries (tables d))"
proof (cases r)
  case (Inl e)
  with RunInTx_atomic [OF assms(1)] assms(2) show ?thesis unfolding persist_delivery_def by (metis order_refl)
next
  case (Inr u)
  with assms(2) have "RunInTx o1 (hook_UpdateDeliveryIfNotDelivered now y) d = (Inr u, d')" by (simp add: persist_delivery_def)
  with assms(1) obtain d1 d2 where "hook_UpdateDeliveryIfNotDelivered now y d1 = (Inr u, d2)" "tables d1 = tables d" "tables d' = tables d2"
    "fired d1 = fired d" by (rule RunInTx_InrD)
  with persist_left [of now y d1 u d2 key] assms(3) show ?thesis by simp
qed

lemma hook_claim_frame:
  assumes "\<not> in_tx d" "wf_hooks (tables d)" "hook_claim ww now task d = (r, d')"
  shows "\<not> in_tx d' \<and> keeps_rows (tables d) (tables d') \<and> fired d' = fired d
    \<and> left_of key (t_deliveries (tables d')) \<le> left_of key (t_deliveries (tables d))
    \<and> (\<forall>f. r = Inr f \<longrightarrow> claimed_from (tables d) (tables d') f)"
proof (cases "\<exists>o1 k. (\<exists>a b. ww_DecodePayload ww task = Inr (a, b) \<and> ww_ParseUUID ww b = Inr o1 \<and> ww_ParseUUID ww a = Inr k)")
  case False
  then have "r = Inl SkipRetry \<and> d' = d"
    using assms(3) unfolding hook_claim_def by (auto simp: throw_def split: sum.splits prod.splits)
  with assms(1) show ?thesis by simp
next
  case True
  then obtain o1 k a b where t: "ww_DecodePayload ww task = Inr (a, b)" "ww_ParseUUID ww b = Inr o1" "ww_ParseUUID ww a = Inr k" by blast
  obtain q d1 where q: "RunInTx o1 (claim_tx now o1 k) d = (q, d1)" by fastforce
  have "\<not> in_tx d1 \<and> keeps_rows (tables d) (tables d1)" by (rule RunInTx_keeps_rows [OF _ assms(1) q]) (rule claim_tx_keeps)
  then have f1: "\<not> in_tx d1" "keeps_rows (tables d) (tables d1)" "fired d1 = fired d"
    using quietD [OF quiet_RunInTx [OF quiet_worker(1)] q] by blast+
  show ?thesis
  proof (cases q)
    case (Inl e)
    with q RunInTx_atomic [of d o1 "claim_tx now o1 k" e d1] assms(1) have t1: "tables d1 = tables d" by simp
    have park: "\<not> in_tx d2 \<and> keeps_rows (tables d) (tables d2) \<and> fired d2 = fired d
        \<and> left_of key (t_deliveries (tables d2)) \<le> left_of key (t_deliveries (tables d))"
      if y: "captured o1 (hook_GetDeliveryByID k) d = Some y"
        and p: "persist_delivery now o1 (y\<lparr>wd_FinalStatus := ''failed'', wd_ResponseBody := ''webhook config removed''\<rparr>) d1 = (u, d2)" for y u d2
    proof -
      have "delivery_ok y" using captured_InrD [OF y] assms(2) by (simp add: wf_hooks_def)
      then have "delivery_ok (y\<lparr>wd_FinalStatus := ''failed'', wd_ResponseBody := ''webhook config removed''\<rparr>)" by (simp add: delivery_ok_def)
      from persist_delivery_frame [OF f1(1) this p] persist_delivery_left [OF f1(1) p, of key] t1 f1 show ?thesis
        by (simp add: left_def)
    qed
    have r: "(\<exists>e'. r = Inl e') \<and> (d' = d1 \<or> (\<exists>y u. captured o1 (hook_GetDeliveryByID k) d = Some y
       \<and> persist_delivery now o1 (y\<lparr>wd_FinalStatus := ''failed'', wd_ResponseBody := ''webhook config removed''\<rparr>) d1 = (u, d')))"
      using assms(3) q Inl t unfolding hook_claim_def
      by (auto simp: throw_def bindE_def attempt_def split: if_splits option.splits prod.splits)
    then show ?thesis using park f1 t1 by auto
  next
    case (Inr p)
    obtain y cfg c where p: "p = (y, cfg, c)" by (cases p)
    from q Inr p have q': "RunInTx o1 (claim_tx now o1 k) d = (Inr (y, cfg, c), d1)" by simp
    with assms(1) obtain da db where "claim_tx now o1 k da = (Inr (y, cfg, c), db)" "tables da = tables d" "tables d1 = tables db"
      "tenant da = Some o1" "fired da = fired d" by (rule RunInTx_run) blast
    with claim_tx_left [of now o1 k da y cfg c db key] assms(2)
    have l: "left_of key (t_deliveries (tables d1)) \<le> left_of key (t_deliveries (tables d))"
      "c \<longrightarrow> claimed_from (tables d) (tables d1) (o1, y, cfg)" by simp_all
    have "d' = d1 \<and> (\<forall>f. r = Inr f \<longrightarrow> f = (o1, y, cfg) \<and> c)"
      using assms(3) q' t unfolding hook_claim_def by (auto simp: throw_def ret_def split: if_splits)
    with f1 l show ?thesis by auto
  qed
qed

text \<open>A response only writes its own delivery, and hands back no attempt of it.\<close>

lemma persisted_frame:
  assumes "\<not> in_tx d" "delivery_ok y" "bindE (persisted now o1 y) k d = (r, d')" "\<And>u d. snd (k u d) = d"
  shows "\<not> in_tx d' \<and> keeps_rows (tables d) (tables d') \<and> fired d' = fired d
    \<and> ((\<forall>x \<in> set (t_deliveries (tables d)). wd_ID x = wd_ID y \<and> wd_FinalStatus x \<noteq> ''delivered'' \<longrightarrow> left y \<le> left x)
       \<longrightarrow> left_of key (t_deliveries (tables d')) \<le> left_of key (t_deliveries (tables d)))"
proof -
  obtain q d1 where p: "persist_delivery now o1 y d = (q, d1)" by fastforce
  have "d' = d1"
    using assms(3) p assms(4) unfolding persisted_def
    by (cases q) (auto simp: bindE_def fail_if_def ret_def throw_def split: if_splits, metis snd_conv)
  with persist_delivery_frame [OF assms(1,2) p] persist_delivery_left [OF assms(1) p] show ?thesis by blast
qed

lemma persisted_frame_end:
  assumes "\<not> in_tx d" "delivery_ok y" "persisted now o1 y d = (r, d')"
  shows "\<not> in_tx d' \<and> keeps_rows (tables d) (tables d') \<and> fired d' = fired d
    \<and> ((\<forall>x \<in> set (t_deliveries (tables d)). wd_ID x = wd_ID y \<and> wd_FinalStatus x \<noteq> ''delivered'' \<longrightarrow> left y \<le> left x)
       \<longrightarrow> left_of key (t_deliveries (tables d')) \<le> left_of key (t_deliveries (tables d)))"
proof -
  have "bindE (persisted now o1 y) ret d = (r, d')" using assms(3) by (auto simp: bindE_def ret_def split: prod.splits sum.splits)
  from persisted_frame [OF assms(1,2) this, of key] show ?thesis by (simp add: ret_def)
qed

definition deliver_writes :: "WebhookDelivery \<Rightarrow> WebhookDelivery \<Rightarrow> bool" where
  "deliver_writes y z \<longleftrightarrow> wd_ID z = wd_ID y \<and> wd_Attempts z = wd_Attempts y \<and> delivery_ok z
     \<and> (wd_FinalStatus z = ''pending'' \<longrightarrow> wd_Attempts y < 3)"

lemma hook_deliver_frame:
  assumes "\<not> in_tx d" "wd_Attempts y \<le> 3" "hook_deliver ww now resp (o1, y, cfg) d = (r, d')"
  shows "\<not> in_tx d' \<and> keeps_rows (tables d) (tables d')
    \<and> (fired d' = fired d \<or> fired d' = fired d @ [Posted (wd_ID y) (signed_request ww y cfg)])
    \<and> ((\<forall>x \<in> set (t_deliveries (tables d)). wd_ID x = wd_ID y \<longrightarrow> wd_FinalStatus x = ''pending'' \<and> wd_Attempts x = wd_Attempts y)
       \<longrightarrow> left_of key (t_deliveries (tables d')) \<le> left_of key (t_deliveries (tables d)))"
proof (cases "ww_RequestOK ww (wh_URL cfg)")
  case False
  with assms show ?thesis by (auto simp: hook_deliver_def throw_def)
next
  case ok: True
  let ?d = "d\<lparr>fired := fired d @ [Posted (wd_ID y) (signed_request ww y cfg)]\<rparr>"
  have fin: "?thesis" if w: "deliver_writes y z" and
    z: "persisted now o1 z ?d = (r, d') \<or> (\<exists>e. bindE (persisted now o1 z) (\<lambda>_. throw e) ?d = (r, d'))" for z
  proof -
    have v: "\<not> in_tx ?d" "delivery_ok z" using assms(1) w by (simp_all add: deliver_writes_def)
    have "\<not> in_tx d' \<and> keeps_rows (tables ?d) (tables d') \<and> fired d' = fired ?d
      \<and> ((\<forall>x \<in> set (t_deliveries (tables ?d)). wd_ID x = wd_ID z \<and> wd_FinalStatus x \<noteq> ''delivered'' \<longrightarrow> left z \<le> left x)
        \<longrightarrow> left_of key (t_deliveries (tables d')) \<le> left_of key (t_deliveries (tables ?d)))"
      using z
    proof
      assume "persisted now o1 z ?d = (r, d')" from persisted_frame_end [OF v this] show ?thesis .
    next
      assume "\<exists>e. bindE (persisted now o1 z) (\<lambda>_. throw e) ?d = (r, d')"
      then obtain e where "bindE (persisted now o1 z) (\<lambda>_. throw e) ?d = (r, d')" ..
      from persisted_frame [OF v this] show ?thesis by (simp add: throw_def)
    qed
    moreover have "left z \<le> left x" if "wd_FinalStatus x = ''pending''" "wd_Attempts x = wd_Attempts y" for x
      using that w by (simp add: left_def deliver_writes_def)
    ultimately show ?thesis using w unfolding deliver_writes_def by simp
  qed
  show ?thesis
  proof (cases resp)
    case (BodyFailed code e)
    with assms ok show ?thesis by (auto simp: hook_deliver_def throw_def)
  next
    case (NoResponse e)
    show ?thesis
      by (rule fin [of "y\<lparr>wd_FinalStatus := (if maxDeliveryAttempts \<le> wd_Attempts y then ''failed'' else ''pending'')\<rparr>"])
        (use assms(2,3) ok NoResponse in \<open>auto simp: deliver_writes_def delivery_ok_def maxDeliveryAttempts_def hook_deliver_def transient_outcome_def Let_def\<close>)
  next
    case (Responded code body)
    let ?s = "if 200 \<le> code \<and> code < 300 then ''delivered'' else if 400 \<le> code \<and> code < 500 then ''failed''
      else if maxDeliveryAttempts \<le> wd_Attempts y then ''failed'' else ''pending''"
    show ?thesis
      by (rule fin [of "y\<lparr>wd_StatusCode := code, wd_ResponseBody := take 1024 body, wd_FinalStatus := ?s\<rparr>"])
        (use assms(2,3) ok Responded in \<open>auto simp: deliver_writes_def delivery_ok_def maxDeliveryAttempts_def hook_deliver_def transient_outcome_def
           Let_def split: if_splits\<close>)
  qed
qed

lemma RunInTx_left:
  assumes "\<not> in_tx d"
    and "\<And>d a d'. fn d = (Inr a, d') \<Longrightarrow> left_of key (t_deliveries (tables d')) \<le> left_of key (t_deliveries (tables d))"
  shows "left_of key (t_deliveries (tables (snd (RunInTx o1 fn d)))) \<le> left_of key (t_deliveries (tables d))"
  using RunInTx_tables [OF assms(1), of "\<lambda>r. left_of key (t_deliveries r) \<le> left_of key (t_deliveries (tables d))"] assms(2)
  by (meson order_refl order_trans)

lemma hook_DeleteConfig_left:
  "hook_DeleteConfig k d = (Inr u, d') \<Longrightarrow> left_of key (t_deliveries (tables d')) \<le> left_of key (t_deliveries (tables d))"
  unfolding hook_DeleteConfig_def by (drule exec_InrD(1)) (auto simp: Let_def left_of_filter dest!: sym [of _ "tables d'"])

lemma webhook_left:
  "webhook_Create x fmt k now a ccmd d = (Inr c, d') \<Longrightarrow> left_of key (t_deliveries (tables d')) \<le> left_of key (t_deliveries (tables d))"
  "webhook_Update x fmt now a k ucmd d = (Inr c, d') \<Longrightarrow> left_of key (t_deliveries (tables d')) \<le> left_of key (t_deliveries (tables d))"
  "webhook_Delete a k d = (Inr u, d') \<Longrightarrow> left_of key (t_deliveries (tables d')) \<le> left_of key (t_deliveries (tables d))"
proof -
  show "webhook_Create x fmt k now a ccmd d = (Inr c, d') \<Longrightarrow> left_of key (t_deliveries (tables d')) \<le> left_of key (t_deliveries (tables d))"
    unfolding webhook_Create_def by (elim op_InrE) (simp add: hook_CreateConfig_keeps)
  show "webhook_Update x fmt now a k ucmd d = (Inr c, d') \<Longrightarrow> left_of key (t_deliveries (tables d')) \<le> left_of key (t_deliveries (tables d))"
    unfolding webhook_Update_def foreign_webhook_def by (elim op_InrE) (simp add: hook_UpdateConfig_keeps hook_GetConfigByID_keeps)
  assume "webhook_Delete a k d = (Inr u, d')"
  then obtain cfg d1 where "hook_GetConfigByID k d = (Inr cfg, d1)" "hook_DeleteConfig k d1 = (Inr u, d')"
    unfolding webhook_Delete_def foreign_webhook_def by (elim op_InrE) auto
  then show "left_of key (t_deliveries (tables d')) \<le> left_of key (t_deliveries (tables d))"
    using hook_DeleteConfig_left [of k d1 u d' key] hook_GetConfigByID_keeps [of k d cfg d1] by simp
qed

lemma dispatch_tx_left:
  assumes "dispatch_tx jsonb ids now o1 e p d = (Inr u, d')" "key \<notin> range ids"
  shows "left_of key (t_deliveries (tables d')) \<le> left_of key (t_deliveries (tables d))"
proof -
  from assms(1) obtain cfgs d1 where l: "hook_ListConfigsByEvent o1 e d = (Inr cfgs, d1)"
    and cr: "create_deliveries jsonb now o1 e p (zip (map ids [0..<length cfgs]) cfgs) d1 = (Inr u, d')"
    unfolding dispatch_tx_def by (auto elim!: op_InrE)
  from l have "tables d1 = tables d" by (auto simp: hook_ListConfigsByEvent_def elim!: query_InrE)
  with create_deliveries_keeps [OF cr] obtain ys where ys: "t_deliveries (tables d') = t_deliveries (tables d) @ ys"
    "map wd_ID ys = map fst (zip (map ids [0..<length cfgs]) cfgs)" by metis
  have "key \<notin> set (map wd_ID ys)" unfolding ys(2) using assms(2) by auto
  with ys(1) left_of_fresh [of key ys] show ?thesis by simp
qed

text \<open>What follows the transaction of a dispatch leaves the tables alone.\<close>

lemma Dispatch_tables:
  fixes d :: "('m, hook_effect) hook_db"
  obtains d1 :: "('m, hook_effect) hook_db" where "tables d1 = tables d" "in_tx d1 = in_tx d"
    "tables (snd (Dispatch jsonb hn hq ids now o1 e p d)) = tables (snd (RunInTx o1 (dispatch_tx jsonb ids now o1 e p) d1))"
proof -
  obtain q d1 where n: "(if hn \<and> e = EventInterviewCompleted then attempt (emit (Notified o1 e)) else ret (Inr ())) d = (Inr q, d1)"
    using attempt_total [of "emit (Notified o1 e)" d] by (cases "hn \<and> e = EventInterviewCompleted") (auto simp: ret_def)
  then have d1: "tables d1 = tables d" "in_tx d1 = in_tx d"
    by (auto simp: attempt_def ret_def emit_def split: if_splits prod.splits option.splits dest!: next_fault_frameD)
  obtain r2 d2 where t: "RunInTx o1 (dispatch_tx jsonb ids now o1 e p) d1 = (r2, d2)" by fastforce
  have "tables (snd (Dispatch jsonb hn hq ids now o1 e p d)) = tables d2"
  proof (cases "(\<exists>e. r2 = Inl e) \<or> \<not> hq")
    case True
    then show ?thesis using n t by (auto simp: Dispatch_def bindE_def ret_def split: sum.splits)
  next
    case False
    then obtain ks where ks: "r2 = Inr ks" "hq" by (cases r2) auto
    obtain r3 d3 where q: "enqueue_deliveries o1 ks d2 = (r3, d3)" by fastforce
    then have "snd (Dispatch jsonb hn hq ids now o1 e p d) = d3" using n t ks
      by (cases r3) (auto simp: Dispatch_def bindE_def fail_if_def ret_def throw_def)
    with enqueue_frame [OF q] show ?thesis by simp
  qed
  with t that [OF d1] show ?thesis by simp
qed

lemma hook_call_left:
  assumes "\<not> in_tx d" "\<forall>o1 ids e p. c = HookEvent o1 ids e p \<longrightarrow> key \<notin> range ids"
  shows "left_of key (t_deliveries (tables (snd (hook_call_run x now c d)))) \<le> left_of key (t_deliveries (tables d))"
proof (cases c)
  case (HookCreate a k cmd)
  show ?thesis unfolding HookCreate hook_call_run.simps snd_unit_of by (rule RunInTx_left [OF assms(1)]) (rule webhook_left)
next
  case (HookUpdate a k cmd)
  show ?thesis unfolding HookUpdate hook_call_run.simps snd_unit_of by (rule RunInTx_left [OF assms(1)]) (rule webhook_left)
next
  case (HookDelete a k)
  show ?thesis unfolding HookDelete hook_call_run.simps by (rule RunInTx_left [OF assms(1)]) (rule webhook_left)
next
  case (HookEvent o1 ids e p)
  obtain d1 :: "('a, hook_effect) hook_db" where d1: "tables d1 = tables d" "in_tx d1 = in_tx d"
    and t: "tables (snd (hook_call_run x now c d)) = tables (snd (RunInTx o1 (dispatch_tx (he_jsonb x) ids now o1 e p) d1))"
    unfolding HookEvent hook_call_run.simps using Dispatch_tables [of d] by metis
  have "key \<notin> range ids" using assms(2) HookEvent by blast
  then have "left_of key (t_deliveries (tables (snd (RunInTx o1 (dispatch_tx (he_jsonb x) ids now o1 e p) d1)))) \<le> left_of key (t_deliveries (tables d1))"
    by (intro RunInTx_left) (use assms(1) d1(2) dispatch_tx_left in auto)
  with t d1(1) show ?thesis by simp
qed

section \<open>Properties\<close>

text \<open>Runs of the worker that do not overlap, among calls of the API and dispatched events.\<close>

datatype hook_run = RunTask time string hook_response | RunCall time hook_call

fun hook_seq :: "hook_env \<Rightarrow> hook_run list \<Rightarrow> ('m, hook_effect) hook_db \<Rightarrow> ('m, hook_effect) hook_db" where
  "hook_seq x [] d = d"
| "hook_seq x (RunTask now task resp # rs) d = hook_seq x rs (snd (hook_handle (he_worker x) now task resp d))"
| "hook_seq x (RunCall now c # rs) d = hook_seq x rs (snd (hook_call_run x now c d))"

text \<open>The identifiers a dispatch may draw for its deliveries.\<close>

fun draws :: "hook_run \<Rightarrow> uuid set" where
  "draws (RunCall now (HookEvent o1 ids e p)) = range ids"
| "draws r = {}"

lemma left_of_le: "wf_hooks r \<Longrightarrow> left_of key (t_deliveries r) \<le> 3"
proof -
  have "left_of key xs \<le> 3" if "distinct (map wd_ID xs)" for xs
    using that by (induction xs) (auto simp: left_def left_of_fresh)
  then show "wf_hooks r \<Longrightarrow> left_of key (t_deliveries r) \<le> 3" by (simp add: wf_hooks_def)
qed

lemma claimed_attempts: "claimed_from r r' (o1, y, cfg) \<Longrightarrow> wd_Attempts y \<le> 3"
  by (auto simp: claimed_from_def)

lemma hook_handle_posts:
  assumes "\<not> in_tx d" "wf_hooks (tables d)" "hook_handle ww now task resp d = (r, d')"
  shows "\<not> in_tx d' \<and> wf_hooks (tables d')
    \<and> posts key (fired d') + left_of key (t_deliveries (tables d')) \<le> posts key (fired d) + left_of key (t_deliveries (tables d))"
proof -
  obtain q d1 where q: "hook_claim ww now task d = (q, d1)" by fastforce
  note f = hook_claim_frame [OF assms(1,2) q, of key]
  have w: "wf_hooks (tables d1)" using f assms(2) by (simp add: keeps_rows_def)
  show ?thesis
  proof (cases q)
    case (Inl e)
    with assms(3) q f w show ?thesis by (auto simp: hook_handle_def bindE_def)
  next
    case (Inr fl)
    obtain o1 y cfg where fl: "fl = (o1, y, cfg)" by (cases fl)
    with f Inr have c: "claimed_from (tables d) (tables d1) (o1, y, cfg)" by simp
    have dl: "hook_deliver ww now resp (o1, y, cfg) d1 = (r, d')" using assms(3) q Inr fl by (simp add: hook_handle_def bindE_def)
    note g = hook_deliver_frame [OF conjunct1 [OF f] claimed_attempts [OF c] dl, of key]
    have l: "left_of key (t_deliveries (tables d')) \<le> left_of key (t_deliveries (tables d1))"
      using g c by (simp add: claimed_from_def)
    have "posts key (fired d') \<le> posts key (fired d) + (if key = wd_ID y then 1 else 0)"
      using g f by (auto simp: posts_def)
    moreover have "key = wd_ID y \<Longrightarrow> left_of key (t_deliveries (tables d1)) < left_of key (t_deliveries (tables d))"
      using c by (simp add: claimed_from_def)
    ultimately have "posts key (fired d') + left_of key (t_deliveries (tables d')) \<le> posts key (fired d) + left_of key (t_deliveries (tables d))"
      using l conjunct1 [OF conjunct2 [OF conjunct2 [OF conjunct2 [OF f]]]] by (cases "key = wd_ID y") simp_all
    moreover have "wf_hooks (tables d')" "\<not> in_tx d'" using g w by (simp_all add: keeps_rows_def)
    ultimately show ?thesis by blast
  qed
qed


text \<open>The demonstration store: one configuration, one pending delivery.\<close>

definition demo_hook :: WebhookConfig where
  "demo_hook = \<lparr>wh_ID = ''h'', wh_CreatedAt = 0, wh_UpdatedAt = 0, wh_OrgID = ''o'', wh_URL = ''u'', wh_Events = [EventInterviewCompleted],
     wh_Secret = ''s'', wh_Active = True\<rparr>"

definition demo_hook_db :: "(unit, hook_effect) hook_db" where
  "demo_hook_db = \<lparr>tables = \<lparr>t_jobs = [], t_question_sets = [], t_candidates = [], t_applications = [], t_contexts = [], t_prompts = [],
       t_job_contexts = [], t_interviews = [], t_tokens = [], t_bank = [], t_users = [], t_orgs = [''o''], t_hooks = [demo_hook],
     t_deliveries = [new_delivery ''k'' 0 ''o'' ''h'' EventInterviewCompleted ''{}'']\<rparr>,
     tenant = None, in_tx = False, aborted = False, saved = [], faults = [], pending = [], fired = []\<rparr>"

definition demo_hook_env :: hook_env where
  "demo_hook_env = \<lparr>he_net = \<lparr>un_Parse = (\<lambda>u. None), un_ParseIP = (\<lambda>h. None), un_Lookup = (\<lambda>h. Inr [])\<rparr>, he_fmt = (\<lambda>t. []),
     he_jsonb = Inr, he_notifs = False, he_queue = True,
     he_worker = \<lparr>ww_DecodePayload = (\<lambda>s. Inr (''k'', ''o'')), ww_ParseUUID = Inr, ww_HMAC = (\<lambda>p s. s), ww_RequestOK = (\<lambda>u. True)\<rparr>\<rparr>"

lemmas demo_hook_simps = demo_hook_db_def demo_hook_def demo_hook_env_def new_delivery_def

lemma demo_hook_ok: "\<not> in_tx demo_hook_db" "wf_hooks (tables demo_hook_db)"
  by (simp_all add: demo_hook_simps wf_hooks_def delivery_ok_def)

lemma demo_four_runs: "posts ''k'' (fired (hook_seq demo_hook_env (replicate 4 (RunTask 1 ''t'' (Responded 500 ''no''))) demo_hook_db)) = 3"
  by code_simp




text \<open>
  Overlapping runs may hand an attempt back: a run that persists its outcome writes the count it claimed with, under a
  later claim of another run.
\<close>

lemma overlapping_runs_lose_attempts:
  "map wd_Attempts (t_deliveries (tables (fst (hook_step demo_hook_env (Outcome 3 0 (Responded 500 []))
     (hook_step demo_hook_env (ClaimTask 2 ''t'') (hook_step demo_hook_env (ClaimTask 1 ''t'') (demo_hook_db, []))))))) = [1]"
  by code_simp

end
