(* ===== verification/Evaluation_Worker.thy ===== *)
theory Evaluation_Worker
  imports Webhook_Delivery Evaluation
begin

text \<open>
  The evaluation worker (\<open>src/backend/internal/evaluation/application/evaluation_worker.go\<close>): the task that scores an
  interview whose inline evaluation failed. It reads the transcript in one transaction, scores it outside of any, saves
  the report in a second one unless another report won meanwhile, and then tells the recruiters and the webhooks.

  Parameters: the decoders, the UUID parser, the provider and the encoders of what is stored and sent. The dispatcher is
  the one of \<open>Webhooks\<close>; the function that may stand in for it (\<open>WithWebhookDispatch\<close>) is configured nowhere.
\<close>

section \<open>The worker\<close>

record InterviewCompletedPayload =
  ic_InterviewID :: string
  ic_Score :: rat
  ic_Recommendation :: string
  ic_ReportURL :: string

record eval_worker =
  ew_DecodePayload :: "string \<Rightarrow> (string \<times> string) result"
  ew_ParseUUID :: "string \<Rightarrow> uuid result"
  ew_MarshalPairs :: "TranscriptPair list \<Rightarrow> string result"
  ew_Ask :: "string \<Rightarrow> string \<Rightarrow> json result result"
  ew_orders :: "string list \<times> string list"
  ew_MarshalReport :: "Report \<Rightarrow> string result"
  ew_MarshalPayload :: "InterviewCompletedPayload \<Rightarrow> string result"
  ew_jsonb :: "string \<Rightarrow> string result"
  ew_publicURL :: string
  ew_queue :: bool
  ew_dispatcher :: bool
  ew_notifs :: bool
  ew_hookQueue :: bool

text \<open>What phase 1 hands on: the two identifiers as they were sent and as they were parsed, and the transcript.\<close>

record eval_task =
  et_OrgID :: string
  et_InterviewID :: string
  et_org :: uuid
  et_iv :: uuid
  et_pairs :: "TranscriptPair list"

definition eval_parse :: "eval_worker \<Rightarrow> string \<Rightarrow> eval_task result" where
  "eval_parse ew task = (case ew_DecodePayload ew task of
     Inl e \<Rightarrow> Inl SkipRetry
   | Inr (rawOrg, rawIv) \<Rightarrow>
       if rawOrg = [] \<or> rawIv = [] then Inl SkipRetry
       else (case (ew_ParseUUID ew rawOrg, ew_ParseUUID ew rawIv) of
           (Inr o1, Inr k) \<Rightarrow> Inr \<lparr>et_OrgID = rawOrg, et_InterviewID = rawIv, et_org = o1, et_iv = k, et_pairs = []\<rparr>
         | _ \<Rightarrow> Inl SkipRetry))"

text \<open>Phase 1: the transcript, or that there is a report already.\<close>

definition eval_read :: "uuid \<Rightarrow> (('m, 'h) iv_db, bool \<times> TranscriptPair list) op" where
  "eval_read key = bindE (iv_GetByID key) (\<lambda>iv.
     if iv_Evaluation iv \<noteq> None then ret (True, []) else ret (False, TranscriptPairs iv))"

definition eval_start :: "eval_worker \<Rightarrow> string \<Rightarrow> (('m, 'h) iv_db, eval_task) op" where
  "eval_start ew task =
     bindE (lift (eval_parse ew task)) (\<lambda>t.
     bindE (map_error (\<lambda>e. if e = ErrNotFound then SkipRetry else e) (RunInTx (et_OrgID t) (eval_read (et_iv t)))) (\<lambda>(already, pairs).
     bindE (fail_if (already \<or> pairs = []) SkipRetry) (\<lambda>_. ret (t\<lparr>et_pairs := pairs\<rparr>))))"

text \<open>Phase 2: the report and its stored form.\<close>

definition eval_report :: "eval_worker \<Rightarrow> eval_task \<Rightarrow> (Report \<times> string) result" where
  "eval_report ew t = and_then
     (evaluate_transcript (ew_MarshalPairs ew) (ew_Ask ew (et_OrgID t)) (fst (ew_orders ew)) (snd (ew_orders ew)) (et_pairs t)) (\<lambda>report.
     and_then (ew_MarshalReport ew report) (\<lambda>raw. Inr (report, raw)))"

text \<open>Phase 3: true when the report is saved, false when another one stands.\<close>

definition eval_persist :: "time \<Rightarrow> eval_task \<Rightarrow> string \<Rightarrow> (('m, 'h) iv_db, bool) op" where
  "eval_persist dbnow t raw = bindE (attempt (RunInTx (et_OrgID t) (SaveEvaluation dbnow (et_iv t) raw))) (\<lambda>r. case r of
     Inr u \<Rightarrow> ret True
   | Inl e \<Rightarrow> if e = ErrEvaluationExists then ret False else throw e)"

text \<open>Phase 4: the addresses of the organization's recruiters, and an email task for each until one cannot be queued.\<close>

definition scorecard_audience :: "uuid \<Rightarrow> User \<Rightarrow> bool" where
  "scorecard_audience orgID u \<longleftrightarrow> u_OrgID u = orgID \<and> (u_Role u = RoleAdmin \<or> u_Role u = RoleRecruiter) \<and> u_Email u \<noteq> []"

definition recruiterEmails :: "uuid \<Rightarrow> (('m, 'h) iv_db, string list) op" where
  "recruiterEmails orgID = RunInTx orgID (map_error (Wrapped ''query scorecard recipients'') (query (\<lambda>t r.
     map u_Email (filter (\<lambda>u. scorecard_audience orgID u \<and> t = Some (u_OrgID u)) (t_users r)))))"

definition EmailTypeScorecard :: string where "EmailTypeScorecard = ''scorecard''"

definition report_url :: "eval_worker \<Rightarrow> uuid \<Rightarrow> string" where
  "report_url ew key = trim_suffix (ew_publicURL ew) ''/'' @ ''/interviews/'' @ key"

definition scorecard_mail :: "string \<Rightarrow> Report \<Rightarrow> string \<Rightarrow> SendEmailPayload" where
  "scorecard_mail url report to = \<lparr>sp_Type = EmailTypeScorecard, sp_To = to, sp_CandidateName = ''Candidate'', sp_JobTitle = [],
     sp_InviteURL = [], sp_Score = rp_OverallScore report, sp_Recommendation = rp_Recommendation report, sp_ReportURL = url,
     sp_OTPCode = [], sp_MagicLink = [], sp_Decision = [], sp_PortalURL = []\<rparr>"

fun send_scorecards :: "string \<Rightarrow> Report \<Rightarrow> string list \<Rightarrow> (('m, hook_effect) hook_db, unit) op" where
  "send_scorecards url report [] = ret ()"
| "send_scorecards url report (to # tos) = bindE (attempt (emit (Emailed (scorecard_mail url report to)))) (\<lambda>r. case r of
     Inl e \<Rightarrow> ret () | Inr u \<Rightarrow> send_scorecards url report tos)"

definition notifyScorecard :: "eval_worker \<Rightarrow> eval_task \<Rightarrow> Report \<Rightarrow> (('m, hook_effect) hook_db, unit) op" where
  "notifyScorecard ew t report =
     (if \<not> ew_queue ew then ret ()
      else bindE (attempt (recruiterEmails (et_org t))) (\<lambda>r. case r of
          Inl e \<Rightarrow> ret ()
        | Inr tos \<Rightarrow> send_scorecards (report_url ew (et_iv t)) report tos))"

text \<open>Phase 5: the webhook event; whatever fails is logged.\<close>

definition completed_payload :: "eval_worker \<Rightarrow> eval_task \<Rightarrow> Report \<Rightarrow> InterviewCompletedPayload" where
  "completed_payload ew t report = \<lparr>ic_InterviewID = et_InterviewID t, ic_Score = rp_OverallScore report,
     ic_Recommendation = rp_Recommendation report, ic_ReportURL = report_url ew (et_iv t)\<rparr>"

definition eval_dispatch :: "eval_worker \<Rightarrow> (nat \<Rightarrow> uuid) \<Rightarrow> time \<Rightarrow> eval_task \<Rightarrow> Report \<Rightarrow> (('m, hook_effect) hook_db, unit) op" where
  "eval_dispatch ew ids now t report =
     (if \<not> ew_dispatcher ew then ret ()
      else (case ew_MarshalPayload ew (completed_payload ew t report) of
          Inl e \<Rightarrow> ret ()
        | Inr payload \<Rightarrow> bindE (attempt (Dispatch (ew_jsonb ew) (ew_notifs ew) (ew_hookQueue ew) ids now (et_org t)
            EventInterviewCompleted payload)) (\<lambda>_. ret ())))"

definition eval_finish ::
  "eval_worker \<Rightarrow> (nat \<Rightarrow> uuid) \<Rightarrow> time \<Rightarrow> time \<Rightarrow> eval_task \<Rightarrow> Report \<times> string \<Rightarrow> (('m, hook_effect) hook_db, unit) op" where
  "eval_finish ew ids dbnow now t = (\<lambda>(report, raw).
     bindE (eval_persist dbnow t raw) (\<lambda>saved.
     if \<not> saved then ret ()
     else bindE (notifyScorecard ew t report) (\<lambda>_. eval_dispatch ew ids now t report)))"

text \<open>\<open>handle\<close>, with what others do to the database while the model scores the transcript.\<close>

definition eval_handle ::
  "eval_worker \<Rightarrow> (nat \<Rightarrow> uuid) \<Rightarrow> time \<Rightarrow> time \<Rightarrow> (('m, hook_effect) hook_db \<Rightarrow> ('m, hook_effect) hook_db) \<Rightarrow> string
     \<Rightarrow> (('m, hook_effect) hook_db, unit) op" where
  "eval_handle ew ids dbnow now world task =
     bindE (eval_start ew task) (\<lambda>t. bindE (lift (eval_report ew t)) (\<lambda>r. \<lambda>d. eval_finish ew ids dbnow now t r (world d)))"

section \<open>What a run does\<close>

lemma TranscriptPairs_hydrate [simp]: "TranscriptPairs (hydrate o1 iv) = TranscriptPairs iv"
  by (simp add: TranscriptPairs_def hydrate_def)

lemma hydrate_Evaluation [simp]: "iv_Evaluation (hydrate o1 iv) = iv_Evaluation iv"
  by (simp add: hydrate_def)

lemma quiet_iv [quiet_intros]: "quiet (iv_GetByID key)" "quiet (eval_read key)" "quiet (SaveEvaluation n key raw)"
  unfolding eval_read_def iv_GetByID_def SaveEvaluation_def update_iv_def by (intro quiet_intros)+

text \<open>The interview a report is for, as phase 1 read it.\<close>

definition transcript_read :: "'m iv_tables_scheme \<Rightarrow> eval_task \<Rightarrow> bool" where
  "transcript_read r t \<longleftrightarrow> (\<exists>iv \<in> set (t_interviews r). iv_ID iv = et_iv t \<and> iv_Evaluation iv = None
     \<and> et_pairs t = TranscriptPairs iv \<and> et_pairs t \<noteq> [])"

lemma eval_read_InrE:
  assumes "eval_read key d = (Inr (already, pairs), d')"
  obtains iv where "iv \<in> set (t_interviews (tables d))" "iv_ID iv = key" "already \<longleftrightarrow> iv_Evaluation iv \<noteq> None"
    "\<not> already \<longrightarrow> pairs = TranscriptPairs iv" "tables d' = tables d"
proof -
  from assms obtain iv1 d1 where g: "iv_GetByID key d = (Inr iv1, d1)"
    and f: "(if iv_Evaluation iv1 \<noteq> None then ret (True, []) else ret (False, TranscriptPairs iv1)) d1 = (Inr (already, pairs), d')"
    unfolding eval_read_def by (elim bindE_InrE)
  from g obtain x o1 where x: "iv_find key (tenant d) (tables d) = Some x" "iv1 = hydrate o1 x" "tables d1 = tables d"
    unfolding iv_GetByID_def by (auto elim!: query_row_InrE split: option.splits)
  have "x \<in> set (t_interviews (tables d)) \<and> iv_ID x = key"
    using x(1) by (auto simp: iv_find_def find_Some_iff)
  with x f show ?thesis by (intro that [of x]) (auto simp: ret_def split: if_splits)
qed

lemma eval_start_run:
  fixes d :: "('m, 'h) iv_db"
  assumes "\<not> in_tx d" "eval_start ew task d = (r, d1)"
  shows "tables d1 = tables d \<and> \<not> in_tx d1 \<and> fired d1 = fired d \<and> (\<forall>t. r = Inr t \<longrightarrow> transcript_read (tables d) t)"
proof (cases "eval_parse ew task")
  case (Inl e)
  then show ?thesis using assms by (auto simp: eval_start_def bindE_def lift_def)
next
  case (Inr t)
  obtain q d2 where q: "RunInTx (et_OrgID t) (eval_read (et_iv t)) d = (q, d2)" by fastforce
  have "tables (snd (RunInTx (et_OrgID t) (eval_read (et_iv t)) d)) = tables d \<and> \<not> in_tx (snd (RunInTx (et_OrgID t) (eval_read (et_iv t)) d))"
    by (rule RunInTx_tables [OF assms(1)]) (auto elim: eval_read_InrE)
  then have same: "tables d2 = tables d \<and> \<not> in_tx d2" by (simp add: q)
  have quiet: "fired d2 = fired d" using quietD [OF quiet_RunInTx [OF quiet_iv(2)] q] by blast
  have d1: "d1 = d2" and r: "r = (case q of Inl e \<Rightarrow> Inl (if e = ErrNotFound then SkipRetry else e)
      | Inr (already, pairs) \<Rightarrow> if already \<or> pairs = [] then Inl SkipRetry else Inr (t\<lparr>et_pairs := pairs\<rparr>))"
    using assms(2) Inr q
    by (auto simp: eval_start_def bindE_def lift_def map_error_def fail_if_def throw_def ret_def split: sum.splits prod.splits if_splits)
  have "transcript_read (tables d) t'" if t': "r = Inr t'" for t'
  proof -
    obtain pairs where p: "q = Inr (False, pairs)" "pairs \<noteq> []" "t' = t\<lparr>et_pairs := pairs\<rparr>"
      using t' r by (auto split: sum.splits prod.splits if_splits)
    from q [unfolded p(1)] obtain d3 d4 :: "('m, 'h) iv_db" where e: "eval_read (et_iv t) d3 = (Inr (False, pairs), d4)" "tables d3 = tables d"
      by (rule RunInTx_run [OF assms(1)]) (rule that, assumption+)
    from e(1) show ?thesis
      by (rule eval_read_InrE) (use e(2) p in \<open>auto simp: transcript_read_def\<close>)
  qed
  with same quiet d1 show ?thesis by blast
qed

text \<open>Saving: the interview had no report, and nothing else of it or of the database changes.\<close>

definition report_saved :: "time \<Rightarrow> eval_task \<Rightarrow> string \<Rightarrow> 'm iv_tables_scheme \<Rightarrow> 'm iv_tables_scheme" where
  "report_saved dbnow t raw r = t_interviews_update (map_hits
     (\<lambda>x. (iv_ID x = et_iv t \<and> iv_Evaluation x = None) \<and> sees_iv (Some (et_OrgID t)) r x)
     (\<lambda>x. x\<lparr>iv_Evaluation := Some raw, iv_UpdatedAt := dbnow\<rparr>)) r"

definition report_missing :: "eval_task \<Rightarrow> 'm iv_tables_scheme \<Rightarrow> bool" where
  "report_missing t r \<longleftrightarrow> (\<exists>x \<in> set (t_interviews r). iv_ID x = et_iv t \<and> iv_Evaluation x = None \<and> sees_iv (Some (et_OrgID t)) r x)"

lemma eval_persist_run:
  fixes d :: "('m, 'h) iv_db"
  assumes "\<not> in_tx d" "eval_persist dbnow t raw d = (q, d')"
  shows "\<not> in_tx d' \<and> fired d' = fired d
    \<and> (if q = Inr True then report_missing t (tables d) \<and> tables d' = report_saved dbnow t raw (tables d) else tables d' = tables d)"
proof -
  obtain r d1 where r: "RunInTx (et_OrgID t) (SaveEvaluation dbnow (et_iv t) raw) d = (r, d1)" by fastforce
  have d': "d' = d1" "q = (case r of Inr u \<Rightarrow> Inr True | Inl e \<Rightarrow> if e = ErrEvaluationExists then Inr False else Inl e)"
    using assms(2) r by (auto simp: eval_persist_def bindE_def attempt_def ret_def throw_def split: sum.splits if_splits)
  have f: "fired d1 = fired d" using quietD [OF quiet_RunInTx [OF quiet_iv(3)] r] by blast
  show ?thesis
  proof (cases r)
    case (Inl e)
    with RunInTx_atomic [of d "et_OrgID t" _ e d1] assms(1) r d' f show ?thesis by auto
  next
    case (Inr u)
    from r [unfolded Inr] obtain d2 d3 :: "('m, 'h) iv_db" where s: "SaveEvaluation dbnow (et_iv t) raw d2 = (Inr u, d3)" "tables d2 = tables d"
      "tables d1 = tables d3" "tenant d2 = Some (et_OrgID t)" and n: "\<not> in_tx d1" by (rule RunInTx_InrD [OF assms(1)]) (rule that, assumption+)
    from s(1) obtain n where n': "n \<noteq> 0" "update_iv (et_iv t) (\<lambda>x. iv_Evaluation x = None)
        (\<lambda>x. x\<lparr>iv_Evaluation := Some raw, iv_UpdatedAt := dbnow\<rparr>) d2 = (Inr n, d3)"
      unfolding SaveEvaluation_def by (auto elim!: op_InrE wrapped_InrE)
    from n'(2) [unfolded update_iv_def] have
      "n = length (filter (\<lambda>x. (iv_ID x = et_iv t \<and> iv_Evaluation x = None) \<and> sees_iv (Some (et_OrgID t)) (tables d) x) (t_interviews (tables d)))
       \<and> tables d3 = report_saved dbnow t raw (tables d)"
      by (rule update_rows_InrE) (simp add: s(2,4) report_saved_def)
    with n'(1) have "report_missing t (tables d)" "tables d3 = report_saved dbnow t raw (tables d)"
      by (auto simp: report_missing_def filter_empty_conv)
    with d' f s(3) n Inr show ?thesis by simp
  qed
qed


lemma recruiterEmails_run:
  fixes d :: "('m, 'h) iv_db"
  assumes "\<not> in_tx d" "recruiterEmails o1 d = (r, d')"
  shows "tables d' = tables d \<and> \<not> in_tx d' \<and> fired d' = fired d
    \<and> (\<forall>tos. r = Inr tos \<longrightarrow> tos = map u_Email (filter (scorecard_audience o1) (t_users (tables d))))"
proof -
  let ?q = "map_error (Wrapped ''query scorecard recipients'') (query (\<lambda>t r.
     map u_Email (filter (\<lambda>u. scorecard_audience o1 u \<and> t = Some (u_OrgID u)) (t_users r))))"
  have "tables (snd (RunInTx o1 ?q d)) = tables d \<and> \<not> in_tx (snd (RunInTx o1 ?q d))"
    by (rule RunInTx_tables [OF assms(1)]) (auto elim!: op_InrE query_InrE)
  then have same: "tables d' = tables d" "\<not> in_tx d'" using assms(2) by (simp_all add: recruiterEmails_def)
  have "quiet (RunInTx o1 ?q)" by (intro quiet_intros)
  from quietD [OF this assms(2) [unfolded recruiterEmails_def]] have f: "fired d' = fired d" by blast
  have "tos = map u_Email (filter (scorecard_audience o1) (t_users (tables d)))" if "r = Inr tos" for tos
  proof -
    from assms(2) [unfolded recruiterEmails_def that] obtain d1 d2 :: "('m, 'h) iv_db" where q: "?q d1 = (Inr tos, d2)" "tables d1 = tables d" "tenant d1 = Some o1"
      by (rule RunInTx_run [OF assms(1)]) (rule that, assumption+)
    have "(\<lambda>u. scorecard_audience o1 u \<and> Some o1 = Some (u_OrgID u)) = scorecard_audience o1"
      by (auto simp: scorecard_audience_def)
    with q show ?thesis by (auto elim!: op_InrE query_InrE)
  qed
  with same f show ?thesis by blast
qed

lemma send_scorecards_run:
  "send_scorecards url report tos d = (r, d') \<Longrightarrow> r = Inr () \<and> tables d' = tables d \<and> in_tx d' = in_tx d
     \<and> (\<exists>n. fired d' = fired d @ map (Emailed \<circ> scorecard_mail url report) (take n tos))"
proof (induction tos arbitrary: d r d')
  case (Cons to tos)
  obtain q d1 where q: "emit (Emailed (scorecard_mail url report to)) d = (q, d1)" by fastforce
  have d1: "tables d1 = tables d" "in_tx d1 = in_tx d"
    "fired d1 = (case q of Inl e \<Rightarrow> fired d | Inr u \<Rightarrow> fired d @ [Emailed (scorecard_mail url report to)])"
    using q by (auto simp: emit_def split: prod.splits option.splits dest!: next_fault_frameD)
  show ?case
  proof (cases q)
    case (Inl e)
    then have "d' = d1 \<and> r = Inr ()" using Cons.prems q by (simp add: bindE_def attempt_def ret_def)
    with d1 Inl show ?thesis by (auto intro: exI [of _ 0])
  next
    case (Inr u)
    then have "send_scorecards url report tos d1 = (r, d')" using Cons.prems q by (simp add: bindE_def attempt_def)
    from Cons.IH [OF this] obtain n where "r = Inr ()" "tables d' = tables d1" "in_tx d' = in_tx d1"
      "fired d' = fired d1 @ map (Emailed \<circ> scorecard_mail url report) (take n tos)" by blast
    with d1 Inr show ?thesis by (auto intro: exI [of _ "Suc n"])
  qed
qed (simp add: ret_def)

lemma notifyScorecard_run:
  assumes "\<not> in_tx d" "notifyScorecard ew t report d = (r, d')"
  shows "r = Inr () \<and> tables d' = tables d \<and> \<not> in_tx d'
    \<and> (\<exists>n. fired d' = fired d @ map (\<lambda>u. Emailed (scorecard_mail (report_url ew (et_iv t)) report (u_Email u)))
        (take n (filter (scorecard_audience (et_org t)) (t_users (tables d)))))"
proof (cases "ew_queue ew")
  case False
  then show ?thesis using assms by (auto simp: notifyScorecard_def ret_def intro: exI [of _ 0])
next
  case True
  obtain q d1 where q: "recruiterEmails (et_org t) d = (q, d1)" by fastforce
  note d1 = recruiterEmails_run [OF assms(1) q]
  show ?thesis
  proof (cases q)
    case (Inl e)
    then have "d' = d1 \<and> r = Inr ()" using assms(2) q True by (simp add: notifyScorecard_def bindE_def attempt_def ret_def)
    with d1 show ?thesis by (auto intro: exI [of _ 0])
  next
    case (Inr tos)
    then have "send_scorecards (report_url ew (et_iv t)) report tos d1 = (r, d')"
      using assms(2) q True by (simp add: notifyScorecard_def bindE_def attempt_def)
    from send_scorecards_run [OF this] obtain n where n: "r = Inr ()" "tables d' = tables d1" "in_tx d' = in_tx d1"
      "fired d' = fired d1 @ map (Emailed \<circ> scorecard_mail (report_url ew (et_iv t)) report) (take n tos)" by blast
    have "tos = map u_Email (filter (scorecard_audience (et_org t)) (t_users (tables d)))" using d1 Inr by blast
    with n d1 show ?thesis by (auto simp: take_map o_def)
  qed
qed

lemma eval_dispatch_run:
  assumes "\<not> in_tx d" "eval_dispatch ew ids now t report d = (r, d')"
  shows "r = Inr () \<and> \<not> in_tx d' \<and> beyond_deliveries (tables d') = beyond_deliveries (tables d)
    \<and> (\<exists>qs. fired d' = fired d @ qs \<and> set qs \<subseteq> insert (Notified (et_org t) EventInterviewCompleted) (range (\<lambda>k. Queued k (et_org t))))"
proof (cases "ew_dispatcher ew")
  case False
  then show ?thesis using assms by (auto simp: eval_dispatch_def ret_def)
next
  case True
  show ?thesis
  proof (cases "ew_MarshalPayload ew (completed_payload ew t report)")
    case (Inl e)
    then show ?thesis using True assms by (auto simp: eval_dispatch_def ret_def)
  next
    case (Inr payload)
    obtain q d1 where q: "Dispatch (ew_jsonb ew) (ew_notifs ew) (ew_hookQueue ew) ids now (et_org t) EventInterviewCompleted payload d = (q, d1)"
      by fastforce
    have "d' = d1 \<and> r = Inr ()" using assms(2) True Inr q by (simp add: eval_dispatch_def bindE_def attempt_def ret_def)
    with Dispatch_effects [OF assms(1) q] show ?thesis by blast
  qed
qed

text \<open>
  What a run that saved its report sent: the email to the recruiters of the organization, up to the first that could not
  be queued, then the notification and the deliveries of the event.
\<close>

definition report_announced :: "eval_worker \<Rightarrow> eval_task \<Rightarrow> Report \<Rightarrow> 'm iv_tables_scheme \<Rightarrow> hook_effect list \<Rightarrow> bool" where
  "report_announced ew t report r es \<longleftrightarrow> (\<exists>n qs.
     es = map (\<lambda>u. Emailed (scorecard_mail (report_url ew (et_iv t)) report (u_Email u)))
            (take n (filter (scorecard_audience (et_org t)) (t_users r))) @ qs
     \<and> set qs \<subseteq> insert (Notified (et_org t) EventInterviewCompleted) (range (\<lambda>k. Queued k (et_org t))))"

lemma eval_finish_run:
  assumes "\<not> in_tx d" "eval_finish ew ids dbnow now t (report, raw) d = (r, d')"
  shows "\<not> in_tx d' \<and> (tables d' = tables d \<and> fired d' = fired d
    \<or> r = Inr () \<and> report_missing t (tables d)
      \<and> beyond_deliveries (tables d') = beyond_deliveries (report_saved dbnow t raw (tables d))
      \<and> (\<exists>es. fired d' = fired d @ es \<and> report_announced ew t report (tables d) es))"
proof -
  obtain q d1 where q: "eval_persist dbnow t raw d = (q, d1)" by fastforce
  note p = eval_persist_run [OF assms(1) q]
  show ?thesis
  proof (cases "q = Inr True")
    case False
    then have "d' = d1" using assms(2) q by (auto simp: eval_finish_def bindE_def ret_def split: sum.splits)
    with False p show ?thesis by simp
  next
    case True
    obtain q2 d2 where q2: "notifyScorecard ew t report d1 = (q2, d2)" by fastforce
    have p1: "\<not> in_tx d1" "fired d1 = fired d" "report_missing t (tables d)" "tables d1 = report_saved dbnow t raw (tables d)"
      using p True by simp_all
    note n = notifyScorecard_run [OF p1(1) q2]
    then have d: "eval_dispatch ew ids now t report d2 = (r, d')"
      using assms(2) q q2 True by (auto simp: eval_finish_def bindE_def split: sum.splits)
    from n have n2: "\<not> in_tx d2" by blast
    note e = eval_dispatch_run [OF n2 d]
    have u: "t_users (tables d1) = t_users (tables d)" by (simp add: p1(4) report_saved_def)
    from n obtain k where k: "fired d2 = fired d1 @ map (\<lambda>u. Emailed (scorecard_mail (report_url ew (et_iv t)) report (u_Email u)))
        (take k (filter (scorecard_audience (et_org t)) (t_users (tables d1))))" and t2: "tables d2 = tables d1" by blast
    from e obtain qs where qs: "fired d' = fired d2 @ qs"
      "set qs \<subseteq> insert (Notified (et_org t) EventInterviewCompleted) (range (\<lambda>k. Queued k (et_org t)))" by blast
    have "\<exists>es. fired d' = fired d @ es \<and> report_announced ew t report (tables d) es"
      unfolding report_announced_def qs(1) k p1(2) u append_assoc using qs(2) by blast
    with e p1 t2 show ?thesis by simp
  qed
qed



text \<open>An interview with one answer; two users of its organization, one of them a recruiter, and the admin of another.\<close>

definition worker_user :: "string \<Rightarrow> uuid \<Rightarrow> string \<Rightarrow> User" where
  "worker_user email o1 role = \<lparr>u_ID = email, u_CreatedAt = 0, u_OrgID = o1, u_Email = email, u_Role = role,
     u_PasswordHash = [], u_AuthProvider = ''password''\<rparr>"

definition worker_db :: "(unit, hook_effect) hook_db" where
  "worker_db = \<lparr>tables = \<lparr>t_jobs = t_jobs demo_apply, t_question_sets = [], t_candidates = [],
       t_applications = [new_link 1 ''app'' ''o1'' ''c1'' ''j1''], t_contexts = [], t_prompts = [], t_job_contexts = [],
       t_interviews = [demo_replied], t_tokens = [], t_bank = [],
       t_users = [worker_user ''r@x.io'' ''o1'' ''recruiter'', worker_user ''m@x.io'' ''o1'' ''member'', worker_user ''a@y.io'' ''o2'' ''admin''],
       t_orgs = [''o1''], t_hooks = [], t_deliveries = []\<rparr>,
     tenant = None, in_tx = False, aborted = False, saved = [], faults = [], pending = [], fired = []\<rparr>"

definition sample_worker :: eval_worker where
  "sample_worker = \<lparr>ew_DecodePayload = (\<lambda>s. Inr (''o1'', ''iv'')), ew_ParseUUID = Inr, ew_MarshalPairs = (\<lambda>_. Inr ''[]''),
     ew_Ask = (\<lambda>o1 _. Inr (Inr demo_answer)), ew_orders = (weight_names, weight_names), ew_MarshalReport = (\<lambda>r. Inr ''{}''),
     ew_MarshalPayload = (\<lambda>p. Inr ''{}''), ew_jsonb = Inr, ew_publicURL = ''https://x/'', ew_queue = True, ew_dispatcher = True,
     ew_notifs = True, ew_hookQueue = True\<rparr>"

definition sample_task :: eval_task where
  "sample_task = \<lparr>et_OrgID = ''o1'', et_InterviewID = ''iv'', et_org = ''o1'', et_iv = ''iv'', et_pairs = TranscriptPairs demo_replied\<rparr>"

lemma sample_start: "eval_start sample_worker [] worker_db = (Inr sample_task, worker_db)"
  by code_simp


lemma sample_report:
  obtains report where "eval_report sample_worker sample_task = Inr (report, ''{}'')" "rp_Recommendation report = ''reconsider''"
proof -
  obtain r where r: "demo_report = Inr r" "rp_Recommendation r = ''reconsider''" using demo_report_exists by (elim exE conjE) (rule that)
  have "length (TranscriptPairs demo_replied) = 1" by code_simp
  then have "evaluate_transcript (\<lambda>_. Inr ''[]'') (\<lambda>_. Inr (Inr demo_answer)) weight_names weight_names (TranscriptPairs demo_replied) = demo_report"
    by (simp add: demo_report_def evaluate_transcript_def evaluation_window_def EvalWindow_def cong: sum.case_cong if_cong)
  then have "eval_report sample_worker sample_task = and_then demo_report (\<lambda>report. Inr (report, ''{}''))"
    by (simp add: eval_report_def sample_worker_def sample_task_def)
  then have "eval_report sample_worker sample_task = Inr (r, ''{}'')" unfolding r(1) by simp
  from that [OF this r(2)] show ?thesis .
qed

lemma sample_finish:
  "(case eval_finish sample_worker (\<lambda>n. ''k'') 50 50 sample_task (report, ''{}'') worker_db of (r, d) \<Rightarrow>
     r = Inr () \<and> map iv_Evaluation (t_interviews (tables d)) = [Some ''{}'']
     \<and> fired d = [Emailed (scorecard_mail ''https://x/interviews/iv'' report ''r@x.io''), Notified ''o1'' EventInterviewCompleted])"
  by code_simp


end
