(* ===== verification/Screening.thy ===== *)
theory Screening
  imports Prelude Float64
begin

text \<open>
  The domain of screening (\<open>src/backend/internal/screening/domain\<close>): the ladder of hiring stages (\<open>stage.go\<close>), the
  weighted score of a candidate for a job (\<open>scoring.go\<close>) and the match of two texts (\<open>semantic.go\<close>).

  Arithmetic is float64 (no fused multiply-add). A Go map is ranged over in no particular order, so the order in which
  the weights are summed is an argument. \<open>int(x)\<close> of a float is truncation, for values of an \<open>int\<close>; the square root of
  the cosine is an argument, which the score clamps whatever it is.
\<close>

section \<open>Stages\<close>

definition StageApplied :: string where "StageApplied = ''applied''"
definition StageScreeningPassed :: string where "StageScreeningPassed = ''screening_passed''"
definition StageScreeningFailed :: string where "StageScreeningFailed = ''screening_failed''"
definition StageInterviewInvited :: string where "StageInterviewInvited = ''interview_invited''"
definition StageInterviewCompleted :: string where "StageInterviewCompleted = ''interview_completed''"
definition StageOfferExtended :: string where "StageOfferExtended = ''offer_extended''"
definition StageHired :: string where "StageHired = ''hired''"
definition StageRejected :: string where "StageRejected = ''rejected''"

lemmas stage_defs = StageApplied_def StageScreeningPassed_def StageScreeningFailed_def StageInterviewInvited_def
  StageInterviewCompleted_def StageOfferExtended_def StageHired_def StageRejected_def

definition StageLadder :: "string list" where
  "StageLadder = [StageApplied, StageScreeningPassed, StageInterviewInvited, StageInterviewCompleted, StageOfferExtended, StageHired]"

definition stageOrder :: "string \<Rightarrow> nat option" where
  "stageOrder = map_of (zip StageLadder [0..<length StageLadder])"

definition stage_IsValid :: "string \<Rightarrow> bool" where
  "stage_IsValid s \<longleftrightarrow> stageOrder s \<noteq> None \<or> s = StageScreeningFailed \<or> s = StageRejected"

definition stage_terminal :: "string \<Rightarrow> bool" where
  "stage_terminal s \<longleftrightarrow> s = StageScreeningFailed \<or> s = StageRejected"

text \<open>Reading a missing key of the map gives zero.\<close>

definition stage_rank :: "string \<Rightarrow> nat" where
  "stage_rank s = (case stageOrder s of None \<Rightarrow> 0 | Some i \<Rightarrow> i)"

definition RequiresAdmin :: "string \<Rightarrow> string \<Rightarrow> bool" where
  "RequiresAdmin s next =
     (if \<not> stage_IsValid s \<or> \<not> stage_IsValid next \<or> s = next then False
      else if stage_terminal s then True
      else if stage_terminal next then False
      else stage_rank next < stage_rank s)"

definition CanTransitionTo :: "string \<Rightarrow> string \<Rightarrow> bool \<Rightarrow> bool" where
  "CanTransitionTo s next fromNil =
     (if \<not> stage_IsValid s \<or> \<not> stage_IsValid next then False
      else if fromNil then True
      else if s = next then True
      else if stage_terminal next then True
      else if stage_terminal s then False
      else stage_rank s < stage_rank next)"

section \<open>Scoring\<close>

definition scr_DefaultWeights :: "(string \<times> rat) list" where
  "scr_DefaultWeights = [(''skills_match'', rnd64 (35 / 100)), (''experience_years'', rnd64 (20 / 100)), (''semantic_match'', 25 / 100),
     (''education'', rnd64 (10 / 100)), (''certifications'', rnd64 (10 / 100))]"

record ResumeData =
  rd_Skills :: "string list"
  rd_ExperienceYears :: rat
  rd_Education :: string
  rd_Certifications :: "string list"
  rd_Summary :: string

record JobInfo =
  ji_RequiredSkills :: "string list"
  ji_MinExperience :: int
  ji_MinScoreToProceed :: rat
  ji_ScoringWeights :: "(string \<times> rat) list"

record OrgInfo =
  oi_ScoringWeights :: "(string \<times> rat) list"
  oi_MinScoreToProceed :: rat

record ScoreResult =
  sc_Total :: rat
  sc_Breakdown :: "(string \<times> rat) list"
  sc_Passed :: bool

definition resolveWeights :: "(string \<times> rat) list \<Rightarrow> (string \<times> rat) list \<Rightarrow> string \<Rightarrow> rat option" where
  "resolveWeights jobOver orgOver = map_of scr_DefaultWeights ++ map_of orgOver ++ map_of jobOver"

definition scr_clamp :: "rat \<Rightarrow> rat" where
  "scr_clamp v = (if v < 0 then 0 else if 1 < v then 1 else v)"

definition scr_round :: "rat \<Rightarrow> rat" where
  "scr_round v = fdiv (rnd64 (of_int (trunc (fadd (fmul v 1000) (1 / 2))))) 1000"

definition toSet :: "string list \<Rightarrow> string list" where
  "toSet items = remdups (filter (\<lambda>v. v \<noteq> []) (map (\<lambda>i. to_lower (trim_space i)) items))"

definition scoreSkills :: "string list \<Rightarrow> string list \<Rightarrow> rat" where
  "scoreSkills candidate required =
     (if required = [] then 1
      else let req = toSet required in
        if req = [] then 1
        else let matched = length (filter (\<lambda>s. to_lower (trim_space s) \<in> set req) candidate) in
          if length req < matched then 1 else fdiv (of_nat matched) (of_nat (length req)))"

definition scoreExperience :: "rat \<Rightarrow> int \<Rightarrow> rat" where
  "scoreExperience years m =
     (if years < 0 then 0 else if m \<le> 0 then 1
      else let ratio = fdiv years (rnd64 (of_int m)) in if 1 < ratio then 1 else ratio)"

definition scoreEducation :: "string \<Rightarrow> rat" where
  "scoreEducation education = (let e = to_lower education in
     if contains e ''phd'' \<or> contains e ''doctorate'' then 1
     else if contains e ''master'' then rnd64 (8 / 10)
     else if contains e ''bachelor'' \<or> contains e ''undergraduate'' then rnd64 (6 / 10)
     else if contains e ''high school'' then rnd64 (2 / 10)
     else if contains e ''diploma'' \<or> contains e ''associate'' then rnd64 (4 / 10)
     else 1 / 2)"

definition scoreCertifications :: "string list \<Rightarrow> rat" where
  "scoreCertifications certs = (if certs \<noteq> [] then 1 else 0)"

definition score_breakdown :: "ResumeData \<Rightarrow> JobInfo \<Rightarrow> rat \<Rightarrow> (string \<times> rat) list" where
  "score_breakdown resume job semanticScore =
     [(''skills_match'', scoreSkills (rd_Skills resume) (ji_RequiredSkills job)),
      (''experience_years'', scoreExperience (rd_ExperienceYears resume) (ji_MinExperience job)),
      (''semantic_match'', scr_clamp semanticScore),
      (''education'', scoreEducation (rd_Education resume)),
      (''certifications'', scoreCertifications (rd_Certifications resume))]"

text \<open>A weight for a key without a component multiplies zero.\<close>

definition component :: "(string \<times> rat) list \<Rightarrow> string \<Rightarrow> rat" where
  "component breakdown k = (case map_of breakdown k of None \<Rightarrow> 0 | Some v \<Rightarrow> v)"

definition weighted_sum :: "(string \<Rightarrow> rat option) \<Rightarrow> (string \<times> rat) list \<Rightarrow> string list \<Rightarrow> rat" where
  "weighted_sum weights breakdown order = foldl (\<lambda>total k. fadd total (fmul (the (weights k)) (component breakdown k))) 0 order"

definition passing_score :: "JobInfo \<Rightarrow> OrgInfo \<Rightarrow> rat" where
  "passing_score job org = (let m1 = ji_MinScoreToProceed job; m2 = (if m1 = 0 then oi_MinScoreToProceed org else m1) in
     if m2 = 0 then 50 else m2)"

text \<open>\<open>order\<close> lists the keys of the resolved weights, each once.\<close>

definition Score :: "string list \<Rightarrow> ResumeData \<Rightarrow> JobInfo \<Rightarrow> OrgInfo \<Rightarrow> rat \<Rightarrow> ScoreResult" where
  "Score order resume job org semanticScore =
     (let weights = resolveWeights (ji_ScoringWeights job) (oi_ScoringWeights org);
          breakdown = score_breakdown resume job semanticScore;
          total = scr_round (fmul (weighted_sum weights breakdown order) 100)
      in \<lparr>sc_Total = total, sc_Breakdown = breakdown, sc_Passed = (passing_score job org \<le> total)\<rparr>)"

section \<open>Semantic match\<close>

definition stopwords :: "string list" where
  "stopwords = [''the'', ''and'', ''for'', ''with'', ''that'', ''this'',
     ''from'', ''have'', ''has'', ''are'', ''was'', ''were'',
     ''will'', ''your'', ''our'', ''their'', ''they'', ''them'',
     ''about'', ''into'', ''over'', ''under'', ''also'', ''very'',
     ''just'', ''not'', ''can'', ''all'', ''any'', ''who'',
     ''what'', ''when'', ''where'', ''which'', ''while'', ''been'',
     ''being'', ''would'', ''could'', ''should'', ''more'',
     ''most'', ''some'', ''such'', ''than'', ''then'', ''there'',
     ''these'', ''those'', ''through'', ''using'', ''used'', ''use'',
     ''company'', ''companies'',
     ''team'', ''role'', ''including'', ''within'', ''across'', ''various'']"

definition Cosine :: "(rat \<Rightarrow> rat) \<Rightarrow> rat list \<Rightarrow> rat list \<Rightarrow> rat" where
  "Cosine sqrt64 a b =
     (if a = [] \<or> b = [] \<or> length a \<noteq> length b then 0
      else let dot = foldl (\<lambda>s (x, y). fadd s (fmul x y)) 0 (zip a b);
               na = foldl (\<lambda>s x. fadd s (fmul x x)) 0 a;
               nb = foldl (\<lambda>s y. fadd s (fmul y y)) 0 b
           in if na = 0 \<or> nb = 0 then 0 else fdiv dot (fmul (sqrt64 na) (sqrt64 nb)))"

definition SemanticScoreWithEmbedder :: "(rat \<Rightarrow> rat) \<Rightarrow> rat list \<Rightarrow> rat list \<Rightarrow> rat" where
  "SemanticScoreWithEmbedder sqrt64 candidateVec jobVec = (let s = Cosine sqrt64 candidateVec jobVec in
     if s < 0 then 0 else if 1 < s then 1 else s)"

definition trim_chars :: "string \<Rightarrow> string \<Rightarrow> string" where
  "trim_chars cutset s = rev (dropWhile (\<lambda>c. c \<in> set cutset) (rev (dropWhile (\<lambda>c. c \<in> set cutset) s)))"

definition token_cutset :: string where
  "token_cutset = ''.,;:!?()[]{}'' @ [CHR 0x22, CHR 0x27]"

definition tokenize :: "string \<Rightarrow> string list" where
  "tokenize text = remdups (filter (\<lambda>w. \<not> (length w < 4 \<or> w \<in> set stopwords))
     (map (trim_chars token_cutset) (split_fields (to_lower text))))"

definition SemanticScore :: "string \<Rightarrow> string \<Rightarrow> rat" where
  "SemanticScore candidateText jobText = (let cand = tokenize candidateText; job = tokenize jobText in
     if job = [] then 1 else fdiv (of_nat (length (filter (\<lambda>w. w \<in> set cand) job))) (of_nat (length job)))"

section \<open>Rounding below two\<close>

lemma rnd64_below_two:
  assumes "0 \<le> x" "x < 2"
  shows "rnd64 x \<le> x + 1 / 2 ^ 53"
proof (cases "x = 0")
  case False
  with assms have x: "0 < x" by simp
  have "exponent x \<le> 0"
  proof (rule ccontr)
    assume "\<not> exponent x \<le> 0"
    then have "two_pow 1 \<le> two_pow (exponent x)" by (intro two_pow_mono) simp
    moreover have "two_pow 1 = 2" by (simp add: two_pow_def)
    ultimately show False using exponent_bounds(1) [OF x] assms(2) by simp
  qed
  then have "ulp x \<le> two_pow (- 52)" unfolding ulp_def by (intro two_pow_mono) simp
  then have u: "ulp x / 2 \<le> 1 / 2 ^ 53" by (simp add: two_pow_def)
  have "(of_int (round_even (x / ulp x)) - x / ulp x) * ulp x \<le> 1 / 2 * ulp x"
    by (rule mult_right_mono [OF order.trans [OF abs_ge_self round_even_error]]) (simp add: less_imp_le)
  moreover have "(of_int (round_even (x / ulp x)) - x / ulp x) * ulp x = rnd_pos x - x"
    using less_imp_neq [OF ulp_pos [of x]] by (simp add: left_diff_distrib rnd_pos_def)
  ultimately have "rnd_pos x - x \<le> ulp x / 2" by simp
  with u x show ?thesis by (simp add: rnd64_def)
qed simp

section \<open>The score is in range\<close>

lemma fdiv_unit: "0 \<le> a \<Longrightarrow> a \<le> b \<Longrightarrow> 0 \<le> fdiv a b \<and> fdiv a b \<le> 1"
  unfolding fdiv_def by (auto intro!: fl.nonneg fl.le_one simp: divide_le_eq_1)

lemma scoreSkills_unit: "0 \<le> scoreSkills c r \<and> scoreSkills c r \<le> 1"
  unfolding scoreSkills_def Let_def by (simp add: fdiv_unit)

lemma scoreExperience_unit: "0 \<le> scoreExperience y m \<and> scoreExperience y m \<le> 1"
  unfolding scoreExperience_def Let_def fdiv_def by (auto intro!: fl.nonneg divide_nonneg_nonneg)

lemma scoreEducation_unit: "0 \<le> scoreEducation e \<and> scoreEducation e \<le> 1"
  unfolding scoreEducation_def Let_def by (auto intro: fl.nonneg fl.le_one)

lemma scr_clamp_unit: "0 \<le> scr_clamp v \<and> scr_clamp v \<le> 1"
  by (simp add: scr_clamp_def)

lemma breakdown_unit: "\<forall>(k, v) \<in> set (score_breakdown resume job s). 0 \<le> v \<and> v \<le> 1"
  using scoreSkills_unit scoreExperience_unit scoreEducation_unit scr_clamp_unit
  by (auto simp: score_breakdown_def scoreCertifications_def)

lemma component_unit: "\<forall>(k, v) \<in> set b. 0 \<le> v \<and> v \<le> 1 \<Longrightarrow> 0 \<le> component b k \<and> component b k \<le> 1"
  by (auto simp: component_def split: option.splits dest!: map_of_SomeD)

text \<open>The partial sums: each step adds its weight and two roundings at most.\<close>

lemma weighted_sum_bounds:
  assumes "\<And>k. k \<in> set order \<Longrightarrow> 0 \<le> the (w k)" "\<And>k. 0 \<le> component b k \<and> component b k \<le> 1"
    "0 \<le> t" "t + sum_list (map (\<lambda>k. the (w k)) order) + 2 * of_nat (length order) / 2 ^ 53 < 2"
  shows "0 \<le> foldl (\<lambda>total k. fadd total (fmul (the (w k)) (component b k))) t order
    \<and> foldl (\<lambda>total k. fadd total (fmul (the (w k)) (component b k))) t order
      \<le> t + sum_list (map (\<lambda>k. the (w k)) order) + 2 * of_nat (length order) / 2 ^ 53"
  using assms(1,3,4)
proof (induction order arbitrary: t)
  case (Cons k order)
  define e n where "e = (1 / 2 ^ 53 :: rat)" and "n = (2 * of_nat (length order) / 2 ^ 53 :: rat)"
  have en: "0 \<le> e" "0 \<le> n" "2 * of_nat (length (k # order)) / 2 ^ 53 = n + 2 * e"
    by (simp_all add: e_def n_def add_divide_distrib)
  let ?w = "the (w k)" and ?c = "component b k" and ?S = "sum_list (map (\<lambda>k. the (w k)) order)"
  have w: "0 \<le> ?w" "0 \<le> ?c" "?c \<le> 1" "0 \<le> ?S" using Cons.prems(1) assms(2) by (auto intro!: sum_list_nonneg)
  then have p: "0 \<le> ?w * ?c" "?w * ?c \<le> ?w" using mult_left_le [of ?c ?w] by simp_all
  have lim: "t + (?w + ?S) + (n + 2 * e) < 2" using Cons.prems(3) unfolding en(3) by simp
  have "?w * ?c < 2" using lim p w(4) Cons.prems(2) en(1,2) by linarith
  then have m: "0 \<le> fmul ?w ?c" "fmul ?w ?c \<le> ?w + e"
    using rnd64_below_two [OF p(1)] p by (auto simp: fmul_def e_def intro: fl.nonneg)
  have "t + fmul ?w ?c < 2" using m(2) lim en(1,2) w(4) by linarith
  moreover have "0 \<le> t + fmul ?w ?c" using m(1) Cons.prems(2) by simp
  ultimately have "0 \<le> fadd t (fmul ?w ?c)" "fadd t (fmul ?w ?c) \<le> t + fmul ?w ?c + e"
    using rnd64_below_two [of "t + fmul ?w ?c"] by (auto simp: fadd_def e_def intro: fl.nonneg)
  then have a: "0 \<le> fadd t (fmul ?w ?c)" "fadd t (fmul ?w ?c) \<le> t + ?w + 2 * e" using m(2) by linarith+
  have "fadd t (fmul ?w ?c) + ?S + n < 2" using a(2) lim by linarith
  from Cons.IH [OF _ a(1), folded n_def, OF _ this] Cons.prems(1) a(2) show ?case unfolding en(3) by simp
qed simp

lemma scr_round_bounds:
  assumes "0 \<le> v" "v \<le> 100 + 1 / 10 ^ 6"
  shows "0 \<le> scr_round v \<and> scr_round v \<le> 100"
proof -
  let ?x = "fadd (fmul v 1000) (1 / 2)"
  have "fmul v 1000 \<le> rnd64 (100000 + 1 / 8)" unfolding fmul_def by (rule rnd64_mono) (use assms(2) in simp)
  also have "\<dots> \<le> (100000 + 1 / 8) * (1 + 1 / 10 ^ 6)" by (rule rnd64_near) simp
  finally have "fmul v 1000 + 1 / 2 \<le> 100000 + 3 / 4" by simp
  then have "?x \<le> rnd64 (100000 + 3 / 4)" unfolding fadd_def by (rule rnd64_mono)
  also have "\<dots> \<le> (100000 + 3 / 4) * (1 + 1 / 10 ^ 6)" by (rule rnd64_near) simp
  finally have x: "?x < 100001" by simp
  have nn: "0 \<le> ?x" using assms(1) by (auto simp: fadd_def fmul_def intro!: fl.nonneg add_nonneg_nonneg)
  then have tr: "0 \<le> trunc ?x" "trunc ?x \<le> 100000" using x by (auto simp: trunc_def floor_le_iff)
  then have "rnd64 (of_int (trunc ?x)) = of_int (trunc ?x)" by (intro rnd64_int) simp
  then have e: "scr_round v = fdiv (of_int (trunc ?x)) 1000" by (simp add: scr_round_def)
  have "fdiv (of_int (trunc ?x)) 1000 \<le> rnd64 100" unfolding fdiv_def by (rule rnd64_mono) (use tr(2) in simp)
  moreover have "0 \<le> fdiv (of_int (trunc ?x)) 1000" unfolding fdiv_def by (rule fl.nonneg) (use tr(1) in simp)
  ultimately show ?thesis using rnd64_int [of 100] unfolding e by simp
qed


text \<open>A sum over the same keys in the same order grows with each component.\<close>

lemma weighted_sum_mono:
  assumes "\<And>k. k \<in> set order \<Longrightarrow> 0 \<le> the (w k)" "\<And>k. component b k \<le> component b' k" "t \<le> t'"
  shows "foldl (\<lambda>total k. fadd total (fmul (the (w k)) (component b k))) t order
    \<le> foldl (\<lambda>total k. fadd total (fmul (the (w k)) (component b' k))) t' order"
  using assms(1,3)
proof (induction order arbitrary: t t')
  case (Cons k order)
  have "fadd t (fmul (the (w k)) (component b k)) \<le> fadd t' (fmul (the (w k)) (component b' k))"
    unfolding fadd_def fmul_def using Cons.prems assms(2) by (intro rnd64_mono add_mono mult_left_mono) auto
  with Cons show ?case by simp
qed simp

lemma scr_round_mono: "0 \<le> v \<Longrightarrow> v \<le> v' \<Longrightarrow> scr_round v \<le> scr_round v'"
proof -
  assume v: "0 \<le> v" "v \<le> v'"
  have "fadd (fmul v 1000) (1 / 2) \<le> fadd (fmul v' 1000) (1 / 2)"
    unfolding fadd_def fmul_def using v(2) by (intro rnd64_mono add_mono mult_right_mono) auto
  moreover have "0 \<le> fadd (fmul v 1000) (1 / 2)"
    using v(1) by (auto simp: fadd_def fmul_def intro!: fl.nonneg add_nonneg_nonneg)
  ultimately have "trunc (fadd (fmul v 1000) (1 / 2)) \<le> trunc (fadd (fmul v' 1000) (1 / 2))" by (simp add: trunc_def floor_mono)
  then show ?thesis unfolding scr_round_def fdiv_def by (intro rnd64_mono divide_right_mono) auto
qed

definition weights_admissible :: "string list \<Rightarrow> JobInfo \<Rightarrow> OrgInfo \<Rightarrow> bool" where
  "weights_admissible order job org \<longleftrightarrow> (let w = resolveWeights (ji_ScoringWeights job) (oi_ScoringWeights org) in
     length order \<le> 1000 \<and> (\<forall>k \<in> set order. 0 \<le> the (w k)) \<and> sum_list (map (\<lambda>k. the (w k)) order) \<le> 1 + 1 / 10 ^ 9)"

lemma weighted_sum_range:
  assumes "weights_admissible order job org" "\<forall>(k, v) \<in> set b. 0 \<le> v \<and> v \<le> 1"
  shows "0 \<le> weighted_sum (resolveWeights (ji_ScoringWeights job) (oi_ScoringWeights org)) b order
    \<and> weighted_sum (resolveWeights (ji_ScoringWeights job) (oi_ScoringWeights org)) b order \<le> 1 + 2 / 10 ^ 9"
proof -
  let ?w = "resolveWeights (ji_ScoringWeights job) (oi_ScoringWeights org)"
  have w: "length order \<le> 1000" "\<And>k. k \<in> set order \<Longrightarrow> 0 \<le> the (?w k)" "sum_list (map (\<lambda>k. the (?w k)) order) \<le> 1 + 1 / 10 ^ 9"
    using assms(1) by (auto simp: weights_admissible_def Let_def)
  have "2 * (of_nat (length order) :: rat) \<le> 2 * of_nat 1000" using w(1) by (simp only: of_nat_le_iff mult_le_cancel_left) simp
  then have "2 * (of_nat (length order) :: rat) / 2 ^ 53 \<le> 1 / 10 ^ 9" by simp
  then obtain n :: rat where n: "2 * of_nat (length order) / 2 ^ 53 = n" "n \<le> 1 / 10 ^ 9" by blast
  have "0 + sum_list (map (\<lambda>k. the (?w k)) order) + n < 2" using w(3) n(2) by simp
  from weighted_sum_bounds [of order ?w b 0, unfolded n(1), OF w(2) component_unit [OF assms(2)] order_refl this]
  have "0 \<le> weighted_sum ?w b order" "weighted_sum ?w b order \<le> sum_list (map (\<lambda>k. the (?w k)) order) + n"
    by (simp_all add: weighted_sum_def)
  moreover have "sum_list (map (\<lambda>k. the (?w k)) order) + n \<le> 1 + 2 / 10 ^ 9" using w(3) n(2) by simp
  ultimately show ?thesis by (meson order.trans)
qed

text \<open>
  Property C34. Whatever the resume says and whatever the embedder returns, each component of a screening score lies between
  0 and 1; when the weights that apply are not negative and add up to one, the total lies between 0 and 100 in whatever
  order they are summed; and a candidate who is at least as good on every component never gets a lower total.
\<close>

theorem screening_score_sound:
  assumes "weights_admissible order job org"
  shows "(\<forall>(k, v) \<in> set (sc_Breakdown (Score order resume job org s)). 0 \<le> v \<and> v \<le> 1)
    \<and> 0 \<le> sc_Total (Score order resume job org s) \<and> sc_Total (Score order resume job org s) \<le> 100
    \<and> ((\<forall>k. component (sc_Breakdown (Score order resume job org s)) k \<le> component (sc_Breakdown (Score order better job org s')) k)
        \<longrightarrow> sc_Total (Score order resume job org s) \<le> sc_Total (Score order better job org s')
          \<and> (sc_Passed (Score order resume job org s) \<longrightarrow> sc_Passed (Score order better job org s')))"
proof -
  let ?w = "resolveWeights (ji_ScoringWeights job) (oi_ScoringWeights org)"
  let ?x = "weighted_sum ?w (score_breakdown resume job s) order" and ?y = "weighted_sum ?w (score_breakdown better job s') order"
  have x: "0 \<le> ?x" "?x \<le> 1 + 2 / 10 ^ 9" using weighted_sum_range [OF assms breakdown_unit] by blast+
  have w: "0 \<le> the (?w k)" if "k \<in> set order" for k using assms that by (simp add: weights_admissible_def Let_def)
  have f0: "0 \<le> fmul ?x 100" using x(1) by (auto simp: fmul_def intro!: fl.nonneg)
  have "fmul ?x 100 \<le> rnd64 (100 + 2 / 10 ^ 7)" unfolding fmul_def by (rule rnd64_mono) (use x(2) in simp)
  also have "\<dots> \<le> 100 + 1 / 10 ^ 6"
  proof -
    have "rnd64 (100 + 2 / 10 ^ 7) - (100 + 2 / 10 ^ 7) \<le> (100 + 2 / 10 ^ 7) / 2 ^ 53"
      by (rule order.trans [OF abs_ge_self rnd64_error]) simp
    then have "rnd64 (100 + 2 / 10 ^ 7) \<le> (100 + 2 / 10 ^ 7) / 2 ^ 53 + (100 + 2 / 10 ^ 7)" by (simp only: diff_le_eq)
    also have "\<dots> \<le> 100 + 1 / 10 ^ 6" by simp
    finally show ?thesis .
  qed
  finally have "fmul ?x 100 \<le> 100 + 1 / 10 ^ 6" .
  from scr_round_bounds [OF f0 this] have range: "0 \<le> scr_round (fmul ?x 100)" "scr_round (fmul ?x 100) \<le> 100" by blast+
  have mono: "scr_round (fmul ?x 100) \<le> scr_round (fmul ?y 100)"
    if c: "\<And>k. component (score_breakdown resume job s) k \<le> component (score_breakdown better job s') k"
  proof -
    have "?x \<le> ?y" unfolding weighted_sum_def by (rule weighted_sum_mono [OF w c order_refl])
    then have "fmul ?x 100 \<le> fmul ?y 100" unfolding fmul_def by (intro rnd64_mono mult_right_mono) auto
    with f0 show ?thesis by (rule scr_round_mono)
  qed
  show ?thesis using range mono breakdown_unit [of resume job s] by (fastforce simp: Score_def Let_def)
qed


text \<open>The default weights in one order, and a candidate with and without a certificate.\<close>

definition sample_job :: JobInfo where
  "sample_job = \<lparr>ji_RequiredSkills = [''Go'', ''SQL''], ji_MinExperience = 4, ji_MinScoreToProceed = 0, ji_ScoringWeights = []\<rparr>"

definition sample_org :: OrgInfo where "sample_org = \<lparr>oi_ScoringWeights = [], oi_MinScoreToProceed = 0\<rparr>"

definition sample_resume :: "string list \<Rightarrow> ResumeData" where
  "sample_resume certs = \<lparr>rd_Skills = [''go''], rd_ExperienceYears = 3, rd_Education = ''MSc'', rd_Certifications = certs, rd_Summary = []\<rparr>"

definition sample_order :: "string list" where
  "sample_order = [''education'', ''skills_match'', ''experience_years'', ''certifications'', ''semantic_match'']"

lemma sample_weights: "weights_admissible sample_order sample_job sample_org"
  by code_simp

theorem screening_score_sound_witness:
  "sc_Total (Score sample_order (sample_resume []) sample_job sample_org 0) \<le> 100
   \<and> sc_Total (Score sample_order (sample_resume []) sample_job sample_org 0)
     \<le> sc_Total (Score sample_order (sample_resume [''CKA'']) sample_job sample_org (1 / 2))"
proof -
  have "component (sc_Breakdown (Score sample_order (sample_resume []) sample_job sample_org 0)) k
     \<le> component (sc_Breakdown (Score sample_order (sample_resume [''CKA'']) sample_job sample_org (1 / 2))) k" for k
    by (simp add: Score_def Let_def score_breakdown_def component_def scoreCertifications_def sample_resume_def scr_clamp_def)
  with screening_score_sound [OF sample_weights, where resume = "sample_resume []" and s = 0
      and better = "sample_resume [''CKA'']" and s' = "1 / 2"] show ?thesis by blast
qed

end
