(* ===== verification/Screening_Service.thy ===== *)
theory Screening_Service
  imports Screening Webhooks
begin

text \<open>
  The use cases of screening (\<open>src/backend/internal/screening/application\<close>): the applications a recruiter creates
  (\<open>screening_service.go\<close> with the savepoint recovery of \<open>helpers.go\<close>), the hiring decisions and the email that
  follows them, the list of applications, and the worker that scores an application (\<open>score_worker.go\<close>).

  Parameters: the decoders and encoders of JSON, the UUID parser, the settings of an organization (\<open>orgs\<close>, read through
  another context), the embedder and the square root of the cosine. \<open>newid\<close> and the clocks are arguments.
\<close>

datatype scr_effect =
    ScoreQueued uuid uuid
  | MailQueued SendEmailPayload

record ApplicationResult =
  ar_ID :: uuid
  ar_CandidateID :: uuid
  ar_CandidateName :: string
  ar_CandidateEmail :: string
  ar_CVStatus :: string
  ar_JobID :: uuid
  ar_JobTitle :: string
  ar_Status :: string
  ar_CVScore :: "rat option"
  ar_PassedScreening :: "bool option"
  ar_Stage :: "string option"
  ar_RecruiterNotes :: "string option"
  ar_ScoreBreakdown :: string
  ar_ScoringWeights :: "(string \<times> rat) list option"
  ar_InterviewScore :: "rat option"

definition no_result :: ApplicationResult where
  "no_result = \<lparr>ar_ID = [], ar_CandidateID = [], ar_CandidateName = [], ar_CandidateEmail = [], ar_CVStatus = [], ar_JobID = [],
     ar_JobTitle = [], ar_Status = [], ar_CVScore = None, ar_PassedScreening = None, ar_Stage = None, ar_RecruiterNotes = None,
     ar_ScoreBreakdown = [], ar_ScoringWeights = None, ar_InterviewScore = None\<rparr>"

section \<open>Creating an application\<close>

text \<open>The surviving application, and whether this call created it.\<close>

definition CreateApplicationWithRecovery :: "Application \<Rightarrow> (('m, 'h) core_db, Application \<times> bool) op" where
  "CreateApplicationWithRecovery app =
     bindE (SavePoint ''create_app'') (\<lambda>_.
     bindE (attempt (app_Create app)) (\<lambda>r. case r of
       Inr u \<Rightarrow> ret (app, True)
     | Inl e \<Rightarrow> if \<not> err_is e app_ErrExists then throw e
         else bindE (RollbackTo ''create_app'') (\<lambda>_.
           bindE (app_GetByCandidateJob (app_OrgID app) (app_CandidateID app) (app_JobID app)) (\<lambda>winning. ret (winning, False)))))"

definition screening_tx :: "uuid \<Rightarrow> time \<Rightarrow> AuthContext \<Rightarrow> uuid \<Rightarrow> uuid \<Rightarrow> (('m, 'h) core_db, Application) op" where
  "screening_tx newid now actor candidateID jobID =
     bindE (map_error (\<lambda>e. if err_is e cand_ErrNotFound then NotFoundError ''candidate'' candidateID else e) (cand_GetByID candidateID)) (\<lambda>c.
     bindE (fail_if (cand_OrgID c \<noteq> ac_OrgID actor) (DomainError ''FORBIDDEN'' ''candidate belongs to another org'')) (\<lambda>_.
     bindE (fail_if (cand_CVStructured c = []) (DomainError ''CANDIDATE_NOT_READY'' ''candidate has no structured data yet'')) (\<lambda>_.
     bindE (map_error (\<lambda>e. if err_is e job_ErrNotFound then NotFoundError ''job'' jobID else e) (job_GetByID jobID)) (\<lambda>j.
     bindE (fail_if (job_OrgID j \<noteq> ac_OrgID actor) (DomainError ''FORBIDDEN'' ''job belongs to another org'')) (\<lambda>_.
     bindE (fail_if (job_Status j \<noteq> job_StatusActive) (DomainError ''JOB_NOT_ACTIVE'' ''job is not active'')) (\<lambda>_.
     bindE (attempt (app_GetByCandidateJob (ac_OrgID actor) candidateID jobID)) (\<lambda>r. case r of
       Inr app \<Rightarrow> ret app
     | Inl e \<Rightarrow> if e \<noteq> app_ErrNotFound then throw e
         else bindE (CreateApplicationWithRecovery (NewApplication newid now (ac_OrgID actor) candidateID jobID)) (\<lambda>(app, created).
           ret app))))))))"

definition screening_Create :: "uuid \<Rightarrow> time \<Rightarrow> AuthContext \<Rightarrow> uuid \<Rightarrow> uuid \<Rightarrow> (('m, scr_effect) core_db, ApplicationResult) op" where
  "screening_Create newid now actor candidateID jobID =
     bindE (check (Authorize actor [RoleAdmin, RoleRecruiter])) (\<lambda>_.
     bindE (RunInTx (ac_OrgID actor) (screening_tx newid now actor candidateID jobID)) (\<lambda>app.
     bindE (emit (ScoreQueued (ac_OrgID actor) (app_ID app))) (\<lambda>_.
     ret (no_result\<lparr>ar_ID := app_ID app, ar_CandidateID := app_CandidateID app, ar_JobID := app_JobID app, ar_Status := app_Status app\<rparr>))))"

section \<open>Decisions\<close>

definition move_check :: "AuthContext \<Rightarrow> string option \<Rightarrow> string \<Rightarrow> ('s, unit) op" where
  "move_check actor old next = (let current = (case old of None \<Rightarrow> [] | Some s \<Rightarrow> s) in
     fail_if (\<not> CanTransitionTo current next (old = None) \<and> (\<not> RequiresAdmin current next \<or> ac_Role actor \<noteq> RoleAdmin))
       (DomainError ''INVALID_STAGE_TRANSITION'' (''transition from '' @ go_quote current @ '' to '' @ go_quote next @ '' is not allowed'')))"

definition decision_result :: "Application \<Rightarrow> ApplicationResult" where
  "decision_result a = no_result\<lparr>ar_ID := app_ID a, ar_CandidateID := app_CandidateID a, ar_JobID := app_JobID a, ar_Status := app_Status a,
     ar_CVScore := app_CVScore a, ar_PassedScreening := app_PassedScreening a, ar_Stage := app_Stage a,
     ar_RecruiterNotes := app_RecruiterNotes a, ar_ScoreBreakdown := app_ScoreBreakdown a\<rparr>"

definition decision_tx ::
  "time \<Rightarrow> AuthContext \<Rightarrow> uuid \<Rightarrow> string option \<Rightarrow> string option \<Rightarrow> (('m, 'h) core_db, ApplicationResult) op" where
  "decision_tx dbnow actor key next notes =
     bindE (map_error (\<lambda>e. if err_is e app_ErrNotFound then NotFoundError ''application'' key else e) (app_GetByID key)) (\<lambda>app0.
     bindE (case next of None \<Rightarrow> ret () | Some s \<Rightarrow> move_check actor (app_Stage app0) s) (\<lambda>_.
     bindE (app_UpdateDecision dbnow (ac_OrgID actor) key next notes) (\<lambda>_.
     bindE (app_GetByID key) (\<lambda>app.
     bindE (attempt (job_GetByID (app_JobID app))) (\<lambda>j.
     ret (case j of Inl e \<Rightarrow> decision_result app
       | Inr job \<Rightarrow> (decision_result app)\<lparr>ar_JobTitle := job_Title job, ar_ScoringWeights := job_ScoringWeights job\<rparr>))))))"

definition decisionDetails :: "uuid \<Rightarrow> uuid \<Rightarrow> (('m, 'h) core_db, string \<times> string \<times> string) op" where
  "decisionDetails orgID key = RunInTx orgID (
     bindE (app_GetByID key) (\<lambda>app. bindE (cand_GetByID (app_CandidateID app)) (\<lambda>c.
     bindE (job_GetByID (app_JobID app)) (\<lambda>j. ret (cand_Email c, cand_Name c, job_Title j)))))"

definition EmailTypeCandidateDecision :: string where "EmailTypeCandidateDecision = ''candidate_decision''"

definition decision_mail :: "string \<Rightarrow> string \<Rightarrow> string \<Rightarrow> string \<Rightarrow> string \<Rightarrow> SendEmailPayload" where
  "decision_mail portalURL stage email name title = \<lparr>sp_Type = EmailTypeCandidateDecision, sp_To = email, sp_CandidateName = name,
     sp_JobTitle = title, sp_InviteURL = [], sp_Score = 0, sp_Recommendation = [], sp_ReportURL = [], sp_OTPCode = [], sp_MagicLink = [],
     sp_Decision = (if stage = StageRejected then ''Application not proceeding'' else ''Offer extended''),
     sp_PortalURL = trim_suffix portalURL ''/'' @ ''/candidate/portal''\<rparr>"

definition notifyDecision :: "bool \<Rightarrow> string \<Rightarrow> uuid \<Rightarrow> uuid \<Rightarrow> string \<Rightarrow> (('m, scr_effect) core_db, unit) op" where
  "notifyDecision hasQueue portalURL orgID key stage =
     (if \<not> hasQueue then ret ()
      else bindE (attempt (decisionDetails orgID key)) (\<lambda>r. case r of
          Inl e \<Rightarrow> ret ()
        | Inr (email, name, title) \<Rightarrow> if email = [] then ret ()
            else bindE (attempt (emit (MailQueued (decision_mail portalURL stage email name title)))) (\<lambda>_. ret ())))"

definition parse_stage :: "string option \<Rightarrow> string option result" where
  "parse_stage stage = (case stage of None \<Rightarrow> Inr None
     | Some s \<Rightarrow> if stage_IsValid (trim_space s) then Inr (Some (trim_space s))
         else Inl (DomainError ''INVALID_STAGE'' ''unknown lifecycle stage''))"

definition screening_UpdateDecision ::
  "bool \<Rightarrow> string \<Rightarrow> time \<Rightarrow> AuthContext \<Rightarrow> uuid \<Rightarrow> string option \<Rightarrow> string option \<Rightarrow> (('m, scr_effect) core_db, ApplicationResult) op" where
  "screening_UpdateDecision hasQueue portalURL dbnow actor key stage notes =
     bindE (check (Authorize actor [RoleAdmin, RoleRecruiter])) (\<lambda>_.
     bindE (lift (parse_stage stage)) (\<lambda>next.
     bindE (RunInTx (ac_OrgID actor) (decision_tx dbnow actor key next notes)) (\<lambda>out.
     bindE (case next of None \<Rightarrow> ret ()
       | Some s \<Rightarrow> if s = StageOfferExtended \<or> s = StageRejected then notifyDecision hasQueue portalURL (ac_OrgID actor) key s
           else ret ()) (\<lambda>_. ret out))))"

section \<open>The list\<close>

text \<open>The repository's list, with the score of the latest evaluated interview; \<open>score_of\<close> reads it from the JSON.\<close>

definition app_List :: "(string \<Rightarrow> rat option) \<Rightarrow> uuid \<Rightarrow> uuid option \<Rightarrow> (('m, 'h) iv_db, Application list) op" where
  "app_List score_of orgID jobID = query (\<lambda>t r. newest_first app_CreatedAt (map (\<lambda>a. a\<lparr>app_InterviewScore :=
       (case newest_first iv_CreatedAt (filter (\<lambda>iv. iv_ApplicationID iv = app_ID a \<and> iv_Evaluation iv \<noteq> None \<and> sees_iv t r iv) (t_interviews r)) of
          [] \<Rightarrow> None | iv # _ \<Rightarrow> score_of (the (iv_Evaluation iv)))\<rparr>)
     (filter (\<lambda>a. app_OrgID a = orgID \<and> (jobID = None \<or> jobID = Some (app_JobID a)) \<and> sees_app t a) (t_applications r))))"

definition list_row :: "Candidate list \<Rightarrow> Job list \<Rightarrow> Application \<Rightarrow> ApplicationResult" where
  "list_row cands jobs a =
     (let r0 = (decision_result a)\<lparr>ar_InterviewScore := app_InterviewScore a\<rparr>;
          r1 = (case find (\<lambda>c. cand_ID c = app_CandidateID a) cands of None \<Rightarrow> r0
             | Some c \<Rightarrow> r0\<lparr>ar_CandidateName := cand_Name c, ar_CandidateEmail := cand_Email c, ar_CVStatus := cand_Status c\<rparr>)
      in (case find (\<lambda>j. job_ID j = app_JobID a) jobs of None \<Rightarrow> r1
         | Some j \<Rightarrow> r1\<lparr>ar_JobTitle := job_Title j, ar_ScoringWeights := job_ScoringWeights j\<rparr>))"

definition screening_List ::
  "(string \<Rightarrow> rat option) \<Rightarrow> AuthContext \<Rightarrow> uuid option \<Rightarrow> (('m, 'h) iv_db, ApplicationResult list) op" where
  "screening_List score_of actor jobID = RunInTx (ac_OrgID actor) (
     bindE (app_List score_of (ac_OrgID actor) jobID) (\<lambda>apps.
     bindE (cand_ListByIDs (ac_OrgID actor) (map app_CandidateID apps)) (\<lambda>cands.
     bindE (job_ListByIDs (ac_OrgID actor) (map app_JobID apps)) (\<lambda>jobs. ret (map (list_row cands jobs) apps)))))"

section \<open>The score worker\<close>

record score_worker =
  sw_DecodePayload :: "string \<Rightarrow> (string \<times> string) result"
  sw_ParseUUID :: "string \<Rightarrow> uuid result"
  sw_Settings :: "uuid \<Rightarrow> ((string \<times> rat) list \<times> rat) result"
  sw_DecodeResume :: "string \<Rightarrow> ResumeData result"
  sw_Embed :: "(string \<Rightarrow> rat list result) option"
  sw_sqrt :: "rat \<Rightarrow> rat"
  sw_order :: "string list"
  sw_MarshalBreakdown :: "(string \<times> rat) list \<Rightarrow> string result"

definition resumeFromCandidate :: "score_worker \<Rightarrow> Candidate \<Rightarrow> ResumeData result" where
  "resumeFromCandidate sw c = (if cand_CVStructured c = [] then Inl (Sentinel ''candidate has no structured data'')
     else sw_DecodeResume sw (cand_CVStructured c))"

definition jobMin :: "Job \<Rightarrow> rat" where
  "jobMin j = (case job_MinScoreToProceed j of None \<Rightarrow> 0 | Some m \<Rightarrow> m)"

text \<open>Embeddings when both texts have one, else, and when their match is zero, the overlap of the words.\<close>

definition semantic_match :: "score_worker \<Rightarrow> string \<Rightarrow> string \<Rightarrow> rat" where
  "semantic_match sw candText jobText =
     (let semantic = (case sw_Embed sw of None \<Rightarrow> 0
        | Some emb \<Rightarrow> (let vec = (\<lambda>s. case emb s of Inl e \<Rightarrow> [] | Inr v \<Rightarrow> v) in
            if vec candText \<noteq> [] \<and> vec jobText \<noteq> [] then SemanticScoreWithEmbedder (sw_sqrt sw) (vec candText) (vec jobText) else 0))
      in if semantic = 0 then SemanticScore candText jobText else semantic)"

definition application_score :: "score_worker \<Rightarrow> Candidate \<Rightarrow> Job \<Rightarrow> ResumeData \<Rightarrow> (string \<times> rat) list \<Rightarrow> rat \<Rightarrow> ScoreResult" where
  "application_score sw c j resume orgWeights orgMin =
     (let candText = cand_CVRawText c @ '' '' @ rd_Summary resume @ '' '' @ join_with '' '' (rd_Skills resume);
          jobText = job_Description j @ '' '' @ join_with '' '' (job_RequiredSkills j)
      in Score (sw_order sw) resume
           \<lparr>ji_RequiredSkills = job_RequiredSkills j, ji_MinExperience = job_MinExperience j, ji_MinScoreToProceed = jobMin j,
            ji_ScoringWeights = (case job_ScoringWeights j of None \<Rightarrow> [] | Some w \<Rightarrow> w)\<rparr>
           \<lparr>oi_ScoringWeights = orgWeights, oi_MinScoreToProceed = orgMin\<rparr> (semantic_match sw candText jobText))"

definition score_tx :: "score_worker \<Rightarrow> time \<Rightarrow> uuid \<Rightarrow> (('m, 'h) core_db, unit) op" where
  "score_tx sw dbnow key =
     bindE (map_error (\<lambda>e. if err_is e app_ErrNotFound then SkipRetry else e) (app_GetByID key)) (\<lambda>app.
     bindE (cand_GetByID (app_CandidateID app)) (\<lambda>c.
     bindE (job_GetByID (app_JobID app)) (\<lambda>j.
     bindE (lift (sw_Settings sw (app_OrgID app))) (\<lambda>(orgWeights, orgMin).
     bindE (map_error (\<lambda>e. SkipRetry) (lift (resumeFromCandidate sw c))) (\<lambda>resume.
     let result = application_score sw c j resume orgWeights orgMin in
     bindE (map_error (Wrapped ''marshal score breakdown'') (lift (sw_MarshalBreakdown sw (sc_Breakdown result)))) (\<lambda>breakdown.
     app_Update dbnow (app\<lparr>app_CVScore := Some (sc_Total result), app_ScoreBreakdown := breakdown, app_PassedScreening := Some (sc_Passed result),
       app_Status := (if sc_Passed result then StatusPassed else StatusRejected)\<rparr>)))))))"

definition score_handle :: "score_worker \<Rightarrow> time \<Rightarrow> string \<Rightarrow> (('m, 'h) core_db, unit) op" where
  "score_handle sw dbnow task = (case sw_DecodePayload sw task of
     Inl e \<Rightarrow> throw SkipRetry
   | Inr (orgID, appID) \<Rightarrow> (case sw_ParseUUID sw appID of
       Inl e \<Rightarrow> throw SkipRetry
     | Inr key \<Rightarrow> if appID = [] then throw SkipRetry else RunInTx orgID (score_tx sw dbnow key)))"

section \<open>What a decision may do\<close>

text \<open>The rule, stated without the code: who may move an application from one stage to another.\<close>

definition move_allowed :: "bool \<Rightarrow> string option \<Rightarrow> string \<Rightarrow> bool" where
  "move_allowed admin old next \<longleftrightarrow> (\<exists>s. old = Some s \<and> stage_IsValid s \<and> stage_IsValid next
     \<and> (admin \<or> s = next \<or> stage_terminal next \<or> \<not> stage_terminal s \<and> stage_rank s < stage_rank next))"

lemma stage_cases:
  assumes "stage_IsValid s" "\<not> stage_terminal s"
  obtains i where "i < 6" "s = StageLadder ! i" "stage_rank s = i"
proof -
  from assms have "stageOrder s \<noteq> None" by (auto simp: stage_IsValid_def stage_terminal_def)
  then have "s \<in> set StageLadder" by (auto simp: stageOrder_def dest!: map_of_SomeD set_zip_leftD)
  then obtain i where i: "i < length StageLadder" "s = StageLadder ! i" by (auto simp: in_set_conv_nth)
  have six: "length StageLadder = 6" by (simp add: StageLadder_def)
  have "stage_rank (StageLadder ! j) = j" if "j < 6" for j
  proof -
    have "\<forall>j \<in> set [0..<6]. stage_rank (StageLadder ! j) = j" by code_simp
    with that show ?thesis by simp
  qed
  with i six show ?thesis by (intro that [of i]) simp_all
qed

lemma stage_rank_inject:
  assumes "stage_IsValid s" "\<not> stage_terminal s" "stage_IsValid t" "\<not> stage_terminal t" "stage_rank s = stage_rank t"
  shows "s = t"
  using assms by (metis stage_cases)

lemma empty_stage_invalid: "\<not> stage_IsValid []"
  by code_simp

lemma move_check_allowed:
  assumes "stage_IsValid next"
  shows "move_check actor old next d = (if move_allowed (ac_Role actor = RoleAdmin) old next then (Inr (), d)
     else (Inl (DomainError ''INVALID_STAGE_TRANSITION'' (''transition from '' @ go_quote (case old of None \<Rightarrow> [] | Some s \<Rightarrow> s)
         @ '' to '' @ go_quote next @ '' is not allowed'')), d))"
proof (cases old)
  case None
  then show ?thesis
    by (simp add: move_check_def Let_def CanTransitionTo_def RequiresAdmin_def empty_stage_invalid move_allowed_def fail_if_def throw_def)
next
  case (Some s)
  show ?thesis
  proof (cases "stage_IsValid s")
    case False
    then show ?thesis
      using Some by (simp add: move_check_def Let_def CanTransitionTo_def RequiresAdmin_def move_allowed_def fail_if_def throw_def)
  next
    case True
    have "stage_rank s < stage_rank next \<or> stage_rank next < stage_rank s"
      if "s \<noteq> next" "\<not> stage_terminal s" "\<not> stage_terminal next"
      using stage_rank_inject [of s "next"] that True assms by (metis linorder_neqE_nat)
    then show ?thesis using Some True assms
      by (auto simp: move_check_def Let_def CanTransitionTo_def RequiresAdmin_def move_allowed_def fail_if_def throw_def ret_def)
  qed
qed

lemma decision_tx_run:
  assumes "decision_tx dbnow actor key next notes d = (Inr out, d')" "\<forall>s. next = Some s \<longrightarrow> stage_IsValid s"
  obtains a where "find (\<lambda>x. app_ID x = key \<and> sees_app (tenant d) x) (t_applications (tables d)) = Some a"
    "\<forall>s. next = Some s \<longrightarrow> move_allowed (ac_Role actor = RoleAdmin) (app_Stage a) s"
    "tables d' = t_applications_update (map_hits (\<lambda>x. app_ID x = key \<and> app_OrgID x = ac_OrgID actor \<and> sees_app (tenant d) x)
       (\<lambda>x. x\<lparr>app_Stage := coalesce next (app_Stage x), app_RecruiterNotes := coalesce notes (app_RecruiterNotes x), app_UpdatedAt := dbnow\<rparr>))
       (tables d)"
proof -
  from assms(1) obtain a d1 d2 n d3 app d4 j d5 where
    g: "app_GetByID key d = (Inr a, d1)"
    and m: "(case next of None \<Rightarrow> ret () | Some s \<Rightarrow> move_check actor (app_Stage a) s) d1 = (Inr (), d2)"
    and u: "app_UpdateDecision dbnow (ac_OrgID actor) key next notes d2 = (Inr n, d3)"
    and g2: "app_GetByID key d3 = (Inr app, d4)" and j: "job_GetByID (app_JobID app) d4 = (j, d5)" and d': "d' = d5"
    unfolding decision_tx_def by (elim op_InrE) (auto simp: ret_def)
  have a: "find (\<lambda>x. app_ID x = key \<and> sees_app (tenant d) x) (t_applications (tables d)) = Some a" "tables d1 = tables d" "tenant d1 = tenant d"
    using g unfolding app_GetByID_def by (auto elim!: query_row_InrE dest: ranD)
  have d2: "d2 = d1" and ok: "\<forall>s. next = Some s \<longrightarrow> move_allowed (ac_Role actor = RoleAdmin) (app_Stage a) s"
    using m assms(2) by (auto simp: ret_def move_check_allowed split: option.splits if_splits)
  have "tables d3 = t_applications_update (map_hits (\<lambda>x. app_ID x = key \<and> app_OrgID x = ac_OrgID actor \<and> sees_app (tenant d) x)
       (\<lambda>x. x\<lparr>app_Stage := coalesce next (app_Stage x), app_RecruiterNotes := coalesce notes (app_RecruiterNotes x), app_UpdatedAt := dbnow\<rparr>))
       (tables d)"
    using u unfolding app_UpdateDecision_def by (auto elim!: op_InrE update_rows_InrE simp: d2 a(2,3))
  moreover have "tables d4 = tables d3" using g2 unfolding app_GetByID_def by (auto elim!: query_row_InrE)
  moreover have "tables d5 = tables d4"
    using j unfolding job_GetByID_def query_row_def by (auto simp: exec_def stmt_def split: if_splits option.splits prod.splits sum.splits dest!: next_fault_frameD)
  ultimately show ?thesis using that a(1) ok d' by simp
qed


section \<open>The service\<close>

lemma quiet_decision_tx [quiet_intros]: "quiet (decision_tx dbnow actor key next notes)"
  unfolding decision_tx_def app_GetByID_def job_GetByID_def app_UpdateDecision_def move_check_def Let_def by (intro quiet_intros)

lemma find_SomeD: "find P xs = Some x \<Longrightarrow> x \<in> set xs \<and> P x"
  by (auto simp: find_Some_iff)

lemma decisionDetails_run:
  fixes d :: "('m, 'h) core_db"
  assumes "\<not> in_tx d" "decisionDetails o1 key d = (r, d')"
  shows "tables d' = tables d \<and> \<not> in_tx d' \<and> fired d' = fired d
    \<and> (\<forall>email name title. r = Inr (email, name, title) \<longrightarrow> (\<exists>a c. a \<in> set (t_applications (tables d)) \<and> app_ID a = key
        \<and> c \<in> set (t_candidates (tables d)) \<and> cand_ID c = app_CandidateID a \<and> email = cand_Email c \<and> name = cand_Name c))"
proof -
  let ?f = "bindE (app_GetByID key) (\<lambda>app. bindE (cand_GetByID (app_CandidateID app)) (\<lambda>c.
     bindE (job_GetByID (app_JobID app)) (\<lambda>j. ret (cand_Email c, cand_Name c, job_Title j))))"
  have body: "tables d2 = tables d1 \<and> (\<exists>a c. a \<in> set (t_applications (tables d1)) \<and> app_ID a = key
        \<and> c \<in> set (t_candidates (tables d1)) \<and> cand_ID c = app_CandidateID a \<and> fst x = cand_Email c \<and> fst (snd x) = cand_Name c)"
    if "?f d1 = (Inr x, d2)" for d1 d2 :: "('m, 'h) core_db" and x
    using that unfolding app_GetByID_def cand_GetByID_def job_GetByID_def
    by (elim op_InrE query_row_InrE) (drule find_SomeD, drule find_SomeD, auto)
  have "tables (snd (RunInTx o1 ?f d)) = tables d \<and> \<not> in_tx (snd (RunInTx o1 ?f d))"
    by (rule RunInTx_tables [OF assms(1)]) (use body in auto)
  then have same: "tables d' = tables d" "\<not> in_tx d'" using assms(2) by (simp_all add: decisionDetails_def)
  have "quiet (RunInTx o1 ?f)" unfolding app_GetByID_def cand_GetByID_def job_GetByID_def by (intro quiet_intros)
  from quietD [OF this assms(2) [unfolded decisionDetails_def]] have f: "fired d' = fired d" by blast
  have "\<exists>a c. a \<in> set (t_applications (tables d)) \<and> app_ID a = key \<and> c \<in> set (t_candidates (tables d))
      \<and> cand_ID c = app_CandidateID a \<and> email = cand_Email c \<and> name = cand_Name c" if r: "r = Inr (email, name, title)" for email name title
  proof -
    from assms(2) [unfolded decisionDetails_def r] obtain d1 d2 :: "('m, 'h) core_db"
      where q: "?f d1 = (Inr (email, name, title), d2)" "tables d1 = tables d"
      by (rule RunInTx_run [OF assms(1)]) (rule that, assumption+)
    from body [OF q(1)] q(2) show ?thesis by simp
  qed
  with same f show ?thesis by blast
qed

lemma notifyDecision_run:
  assumes "\<not> in_tx d" "notifyDecision hq portal o1 key stage d = (r, d')"
  shows "r = Inr () \<and> tables d' = tables d \<and> (fired d' = fired d \<or> (\<exists>a c title. a \<in> set (t_applications (tables d)) \<and> app_ID a = key
        \<and> c \<in> set (t_candidates (tables d)) \<and> cand_ID c = app_CandidateID a
        \<and> fired d' = fired d @ [MailQueued (decision_mail portal stage (cand_Email c) (cand_Name c) title)]))"
proof (cases hq)
  case False
  then show ?thesis using assms by (auto simp: notifyDecision_def ret_def)
next
  case True
  obtain q d1 where q: "decisionDetails o1 key d = (q, d1)" by fastforce
  note run = decisionDetails_run [OF assms(1) q]
  show ?thesis
  proof (cases "\<exists>email name title. q = Inr (email, name, title) \<and> email \<noteq> []")
    case False
    then have "r = Inr () \<and> d' = d1" using assms(2) q True
      by (cases q) (auto simp: notifyDecision_def bindE_def attempt_def ret_def split: prod.splits if_splits)
    with run show ?thesis by simp
  next
    case True': True
    then obtain email name title where e: "q = Inr (email, name, title)" "email \<noteq> []" by blast
    let ?mail = "MailQueued (decision_mail portal stage email name title)"
    obtain x d2 where x: "emit ?mail d1 = (x, d2)" by fastforce
    have "r = Inr () \<and> d' = d2" using assms(2) q True e x by (auto simp: notifyDecision_def bindE_def attempt_def ret_def)
    moreover have "tables d2 = tables d1 \<and> (fired d2 = fired d1 \<or> fired d2 = fired d1 @ [?mail])"
      using x by (auto simp: emit_def split: prod.splits option.splits dest!: next_fault_frameD)
    ultimately show ?thesis using run e(1) by metis
  qed
qed

lemma decision_committed:
  fixes d :: "('m, 'h) core_db"
  assumes "\<not> in_tx d" "RunInTx (ac_OrgID actor) (decision_tx dbnow actor key next notes) d = (Inr out, d')"
    "\<forall>s. next = Some s \<longrightarrow> stage_IsValid s"
  obtains a where "find (\<lambda>x. app_ID x = key \<and> sees_app (Some (ac_OrgID actor)) x) (t_applications (tables d)) = Some a"
    "\<forall>s. next = Some s \<longrightarrow> move_allowed (ac_Role actor = RoleAdmin) (app_Stage a) s"
    "tables d' = t_applications_update (map_hits (\<lambda>x. app_ID x = key \<and> app_OrgID x = ac_OrgID actor \<and> sees_app (Some (ac_OrgID actor)) x)
       (\<lambda>x. x\<lparr>app_Stage := coalesce next (app_Stage x), app_RecruiterNotes := coalesce notes (app_RecruiterNotes x), app_UpdatedAt := dbnow\<rparr>))
       (tables d)"
proof -
  from assms(2) obtain d1 d2 :: "('m, 'h) core_db" where r: "decision_tx dbnow actor key next notes d1 = (Inr out, d2)"
    "tables d1 = tables d" "tables d' = tables d2" "tenant d1 = Some (ac_OrgID actor)"
    by (rule RunInTx_run [OF assms(1)]) (rule that, assumption+)
  from r(1) assms(3) show ?thesis by (rule decision_tx_run) (rule that, use r(2-) in simp_all)
qed

text \<open>
  Property C35. A recruiter's decision follows the ladder. One that is accepted was made by an admin or a recruiter of the
  organization that owns the application, names a known stage, and moves on from the stage stored before: forward, to
  an end, or nowhere, or anywhere for an admin. Only the stage, the notes and the time of that application change. One
  that is refused, or fails, changes nothing and sends nothing. The candidate of that very application, and nobody
  else, is sent at most one email, and only for an offer or a rejection.
\<close>

theorem decision_follows_ladder:
  assumes "\<not> in_tx d" "screening_UpdateDecision hq portal dbnow actor key stage notes d = (r, d')"
  shows "case r of Inl e \<Rightarrow> tables d' = tables d \<and> fired d' = fired d
    | Inr out \<Rightarrow> (ac_Role actor = RoleAdmin \<or> ac_Role actor = RoleRecruiter)
      \<and> (\<exists>a \<in> set (t_applications (tables d)). app_ID a = key \<and> app_OrgID a = ac_OrgID actor
          \<and> (\<forall>s. stage = Some s \<longrightarrow> move_allowed (ac_Role actor = RoleAdmin) (app_Stage a) (trim_space s)))
      \<and> tables d' = t_applications_update (map_hits (\<lambda>x. app_ID x = key \<and> app_OrgID x = ac_OrgID actor)
           (\<lambda>x. x\<lparr>app_Stage := coalesce (map_option trim_space stage) (app_Stage x),
                  app_RecruiterNotes := coalesce notes (app_RecruiterNotes x), app_UpdatedAt := dbnow\<rparr>)) (tables d)
      \<and> (fired d' = fired d \<or> (\<exists>s a c title. stage = Some s \<and> (trim_space s = StageOfferExtended \<or> trim_space s = StageRejected)
           \<and> a \<in> set (t_applications (tables d')) \<and> app_ID a = key \<and> c \<in> set (t_candidates (tables d)) \<and> cand_ID c = app_CandidateID a
           \<and> fired d' = fired d @ [MailQueued (decision_mail portal (trim_space s) (cand_Email c) (cand_Name c) title)]))"
proof (cases "Authorize actor [RoleAdmin, RoleRecruiter] = None \<and> (\<exists>next. parse_stage stage = Inr next)")
  case False
  then have "\<exists>e. r = Inl e \<and> d' = d"
    using assms(2) by (cases "Authorize actor [RoleAdmin, RoleRecruiter]"; cases "parse_stage stage")
      (auto simp: screening_UpdateDecision_def bindE_def check_def lift_def ret_def throw_def)
  then show ?thesis by auto
next
  case True
  then obtain "next" where ok: "Authorize actor [RoleAdmin, RoleRecruiter] = None" and n: "parse_stage stage = Inr next" by blast
  have role: "ac_Role actor = RoleAdmin \<or> ac_Role actor = RoleRecruiter" using ok by (auto simp: Authorize_def split: if_splits)
  have nx: "next = map_option trim_space stage" "\<forall>s. next = Some s \<longrightarrow> stage_IsValid s"
    using n by (auto simp: parse_stage_def split: option.splits if_splits)
  obtain q d1 where q: "RunInTx (ac_OrgID actor) (decision_tx dbnow actor key next notes) d = (q, d1)" by fastforce
  have f1: "fired d1 = fired d" using quietD [OF quiet_RunInTx [OF quiet_decision_tx] q] by blast
  show ?thesis
  proof (cases q)
    case (Inl e)
    then have "r = Inl e \<and> d' = d1"
      using assms(2) ok n q by (simp add: screening_UpdateDecision_def bindE_def check_def lift_def ret_def)
    with RunInTx_atomic [of d "ac_OrgID actor" _ e d1] assms(1) q Inl f1 show ?thesis by simp
  next
    case (Inr out)
    let ?mail = "case next of None \<Rightarrow> ret () | Some s \<Rightarrow> if s = StageOfferExtended \<or> s = StageRejected
        then notifyDecision hq portal (ac_OrgID actor) key s else ret ()"
    obtain x d2 where x: "?mail d1 = (x, d2)" by fastforce
    have n1: "\<not> in_tx d1" using q Inr assms(1) by (metis RunInTx_InrD)
    have m: "x = Inr () \<and> tables d2 = tables d1 \<and> (fired d2 = fired d1 \<or> (\<exists>s a c title. next = Some s \<and> (s = StageOfferExtended \<or> s = StageRejected)
        \<and> a \<in> set (t_applications (tables d1)) \<and> app_ID a = key \<and> c \<in> set (t_candidates (tables d1)) \<and> cand_ID c = app_CandidateID a
        \<and> fired d2 = fired d1 @ [MailQueued (decision_mail portal s (cand_Email c) (cand_Name c) title)]))"
      using x notifyDecision_run [OF n1] by (auto simp: ret_def split: option.splits if_splits)
    have r: "r = Inr out" "d' = d2"
      using assms(2) ok n q Inr x m by (simp_all add: screening_UpdateDecision_def bindE_def check_def lift_def ret_def)
    obtain a where a: "find (\<lambda>x. app_ID x = key \<and> sees_app (Some (ac_OrgID actor)) x) (t_applications (tables d)) = Some a"
      "\<forall>s. next = Some s \<longrightarrow> move_allowed (ac_Role actor = RoleAdmin) (app_Stage a) s"
      and t: "tables d1 = t_applications_update (map_hits (\<lambda>x. app_ID x = key \<and> app_OrgID x = ac_OrgID actor \<and> sees_app (Some (ac_OrgID actor)) x)
       (\<lambda>x. x\<lparr>app_Stage := coalesce next (app_Stage x), app_RecruiterNotes := coalesce notes (app_RecruiterNotes x), app_UpdatedAt := dbnow\<rparr>))
       (tables d)"
      by (rule decision_committed [OF assms(1) q [unfolded Inr] nx(2)])
    have hit: "(\<lambda>x. app_ID x = key \<and> app_OrgID x = ac_OrgID actor \<and> sees_app (Some (ac_OrgID actor)) x)
      = (\<lambda>x. app_ID x = key \<and> app_OrgID x = ac_OrgID actor)" by (auto simp: sees_app_def)
    have "a \<in> set (t_applications (tables d)) \<and> app_ID a = key \<and> app_OrgID a = ac_OrgID actor"
      using a(1) by (auto simp: find_Some_iff sees_app_def)
    then have "\<exists>a \<in> set (t_applications (tables d)). app_ID a = key \<and> app_OrgID a = ac_OrgID actor
          \<and> (\<forall>s. stage = Some s \<longrightarrow> move_allowed (ac_Role actor = RoleAdmin) (app_Stage a) (trim_space s))"
      using a(2) nx(1) by auto
    moreover have "fired d' = fired d \<or> (\<exists>s a c title. stage = Some s \<and> (trim_space s = StageOfferExtended \<or> trim_space s = StageRejected)
        \<and> a \<in> set (t_applications (tables d')) \<and> app_ID a = key \<and> c \<in> set (t_candidates (tables d)) \<and> cand_ID c = app_CandidateID a
        \<and> fired d' = fired d @ [MailQueued (decision_mail portal (trim_space s) (cand_Email c) (cand_Name c) title)])" (is "_ \<or> ?sent")
    proof (cases "fired d2 = fired d1")
      case False
      with m obtain s b c title where s: "next = Some s" "s = StageOfferExtended \<or> s = StageRejected"
        "b \<in> set (t_applications (tables d1))" "app_ID b = key" "c \<in> set (t_candidates (tables d1))" "cand_ID c = app_CandidateID b"
        "fired d2 = fired d1 @ [MailQueued (decision_mail portal s (cand_Email c) (cand_Name c) title)]" by blast
      from s(1) nx(1) obtain z where z: "stage = Some z" "s = trim_space z" by auto
      have "t_candidates (tables d1) = t_candidates (tables d)" by (simp add: t)
      then have ?sent using s z f1 r(2) m by metis
      then show ?thesis ..
    qed (use f1 r(2) in simp)
    moreover have "tables d' = tables d1" using m r(2) by simp
    ultimately show ?thesis using role t [unfolded hit] nx(1) unfolding r(1) by simp
  qed
qed


text \<open>One application, at the first stage.\<close>

definition ladder_db :: "(core_tables, scr_effect) db" where
  "ladder_db = \<lparr>tables = demo_apply\<lparr>t_applications := [new_link 1 ''app'' ''o1'' ''c1'' ''j1'']\<rparr>, tenant = None, in_tx = False,
     aborted = False, saved = [], faults = [], pending = [], fired = []\<rparr>"

definition ladder_actor :: "string \<Rightarrow> AuthContext" where
  "ladder_actor role = \<lparr>ac_UserID = ''u'', ac_OrgID = ''o1'', ac_Role = role\<rparr>"

definition ladder_run :: "string \<Rightarrow> string \<Rightarrow> (core_tables, scr_effect) db \<Rightarrow> ApplicationResult result \<times> (core_tables, scr_effect) db" where
  "ladder_run role stage = screening_UpdateDecision True ''https://x/'' 5 (ladder_actor role) ''app'' (Some stage) None"

lemma ladder_sent: "(case ladder_run RoleRecruiter '' rejected '' ladder_db of (r, d) \<Rightarrow>
   (case r of Inl e \<Rightarrow> False | Inr out \<Rightarrow> ar_Stage out = Some StageRejected)
   \<and> fired d = [MailQueued (decision_mail ''https://x/'' StageRejected ''ann@x.io'' ''Ann'' ''Dev'')])"
  by code_simp

lemma ladder_refused: "(case ladder_run RoleRecruiter ''applied'' (snd (ladder_run RoleRecruiter ''hired'' ladder_db)) of (r, d) \<Rightarrow>
   (case r of Inl e \<Rightarrow> True | Inr out \<Rightarrow> False)) \<and> \<not> in_tx (snd (ladder_run RoleRecruiter ''hired'' ladder_db))"
  by code_simp

theorem decision_follows_ladder_witness:
  "map app_Stage (t_applications (tables (snd (ladder_run RoleRecruiter '' rejected '' ladder_db)))) = [Some StageRejected]
   \<and> (let d = snd (ladder_run RoleRecruiter ''hired'' ladder_db) in tables (snd (ladder_run RoleRecruiter ''applied'' d)) = tables d)"
proof -
  have n: "\<not> in_tx ladder_db" by (simp add: ladder_db_def)
  obtain out d1 where r1: "ladder_run RoleRecruiter '' rejected '' ladder_db = (Inr out, d1)"
    using ladder_sent by (auto split: prod.splits sum.splits)
  have trim: "trim_space '' rejected '' = StageRejected" by code_simp
  have "map app_Stage (t_applications (tables d1)) = [Some StageRejected]"
    using decision_follows_ladder [OF n r1 [unfolded ladder_run_def]]
    by (simp add: trim ladder_db_def ladder_actor_def new_link_def NewApplication_def map_hits_def coalesce_def)
  moreover obtain e d2 where r2: "ladder_run RoleRecruiter ''applied'' (snd (ladder_run RoleRecruiter ''hired'' ladder_db)) = (Inl e, d2)"
    using ladder_refused by (auto split: prod.splits sum.splits)
  moreover have "tables d' = tables d" if "\<not> in_tx d" "ladder_run role stage d = (Inl e, d')"
    for d d' :: "(core_tables, scr_effect) db" and role stage e
    using decision_follows_ladder [OF that(1) that(2) [unfolded ladder_run_def]] by simp
  ultimately show ?thesis using conjunct2 [OF ladder_refused] r1 r2 by (simp add: Let_def)
qed

end
