(* ===== verification/LLM_Client.thy ===== *)
theory LLM_Client
  imports Shared
begin

text \<open>
  The client every context uses to reach a model (\<open>src/backend/internal/llm\<close>): retry with exponential backoff,
  the fallback provider and the budget ledger (\<open>client.go\<close>), and the ledger on Redis (\<open>token_ledger.go\<close>).

  A provider is a parameter: each of its calls is an operation on a world of its own. The state also holds the log
  of what the client does, with the outcome of each call, so that the theorems can speak of it. A wait that the
  context interrupts is an input, \<open>cl_Wait\<close>. Durations are in seconds; the tracing spans are left out, and so are the
  temperature and the schema of a request, which go to the provider unread.
\<close>

section \<open>Requests and providers\<close>

record llm_message =
  lm_Role :: string
  lm_Content :: string

record ChatRequest =
  lq_OrgID :: string
  lq_Model :: string
  lq_Messages :: "llm_message list"
  lq_ResponseFormat :: string
  lq_MaxTokens :: int

record ChatResponse =
  cr_Content :: string
  cr_FinishReason :: string
  cr_PromptTokens :: int
  cr_CompletionTokens :: int

record StructuredRequest =
  sr_OrgID :: string
  sr_Model :: string
  sr_System :: string
  sr_User :: string

text \<open>A stream is the list of its tokens; a structured answer is its text; an embedding is its list of numbers.\<close>

record 'w provider =
  pv_Chat :: "ChatRequest \<Rightarrow> ('w, ChatResponse) op"
  pv_ChatStream :: "ChatRequest \<Rightarrow> ('w, string list) op"
  pv_StructuredOutput :: "StructuredRequest \<Rightarrow> ('w, string) op"
  pv_Embed :: "string \<Rightarrow> ('w, int list) op"
  pv_CountTokens :: "string \<Rightarrow> nat"

definition ErrRateLimited :: error where "ErrRateLimited = Sentinel ''llm rate limited''"
definition ErrUpstream :: error where "ErrUpstream = Sentinel ''llm upstream error''"
definition ErrStructuredParse :: error where "ErrStructuredParse = Sentinel ''llm structured output parse failed''"

definition isRetryable :: "error \<Rightarrow> bool" where
  "isRetryable e \<longleftrightarrow> err_is e ErrRateLimited \<or> err_is e ErrUpstream"

text \<open>The class of an error in a span; \<open>network\<close> is what \<open>errors.As\<close> with a \<open>net.Error\<close> target tells (its timeout).\<close>

definition safeErrorClass :: "(error \<Rightarrow> bool option) \<Rightarrow> error list \<Rightarrow> error option \<Rightarrow> string" where
  "safeErrorClass network contextErrors r = (case r of None \<Rightarrow> ''unknown''
   | Some e \<Rightarrow>
       if err_is e ErrRateLimited then ''rate_limited''
       else if err_is e ErrUpstream then ''upstream''
       else if err_is e ErrStructuredParse then ''bad_request''
       else if list_ex (err_is e) contextErrors then ''timeout''
       else (case network e of Some timeout \<Rightarrow> (if timeout then ''timeout'' else ''network'') | None \<Rightarrow> ''unknown''))"

section \<open>The client\<close>

text \<open>\<open>cl_Charge\<close> is the ledger, if there is one; \<open>cl_Wait\<close> the outcome of a backoff, an error when the context is done first.\<close>

record 'w client =
  cl_primary :: "'w provider"
  cl_fallback :: "'w provider option"
  cl_Charge :: "(string \<Rightarrow> int \<Rightarrow> ('w, unit) op) option"
  cl_maxRetries :: nat
  cl_Wait :: "nat \<Rightarrow> ('w, unit) op"
  cl_Err :: "'w \<Rightarrow> error option"

definition NewClient ::
  "'w provider \<Rightarrow> 'w provider option \<Rightarrow> (string \<Rightarrow> int \<Rightarrow> ('w, unit) op) option \<Rightarrow> int \<Rightarrow> (nat \<Rightarrow> ('w, unit) op) \<Rightarrow> ('w \<Rightarrow> error option) \<Rightarrow> 'w client" where
  "NewClient primary fallback ledger maxRetries wait err = \<lparr>cl_primary = primary, cl_fallback = fallback, cl_Charge = ledger,
     cl_maxRetries = (if maxRetries \<le> 0 then 3 else nat maxRetries), cl_Wait = wait, cl_Err = err\<rparr>"

definition chatBudgetEstimate :: int where "chatBudgetEstimate = 500"
definition chatStreamBudgetEstimate :: int where "chatStreamBudgetEstimate = 1500"
definition structuredOutputBudgetGuess :: int where "structuredOutputBudgetGuess = 800"

text \<open>What the client does: charges, calls with their outcome (an error, if any), waits, and the retry hook.\<close>

datatype llm_event =
    Charged string int "error option"
  | Primary "error option"
  | Fallback "error option"
  | Retried nat error
  | Waited nat

type_synonym 'w llm = "'w \<times> llm_event list"

definition outcome_of :: "'a result \<Rightarrow> error option" where
  "outcome_of r = (case r of Inl e \<Rightarrow> Some e | Inr a \<Rightarrow> None)"

definition logged :: "(error option \<Rightarrow> llm_event) \<Rightarrow> ('w, 'a) op \<Rightarrow> ('w llm, 'a) op" where
  "logged ev m = (\<lambda>(w, lg). case m w of (r, w') \<Rightarrow> (r, (w', lg @ [ev (outcome_of r)])))"

definition note_event :: "llm_event \<Rightarrow> ('w llm, unit) op" where
  "note_event ev = (\<lambda>(w, lg). (Inr (), (w, lg @ [ev])))"

definition charge :: "'w client \<Rightarrow> string \<Rightarrow> int \<Rightarrow> ('w llm, unit) op" where
  "charge c orgID tokens = (case cl_Charge c of None \<Rightarrow> ret ()
     | Some ledger \<Rightarrow> if orgID = [] then ret () else logged (Charged orgID tokens) (ledger orgID tokens))"

definition backoff :: "'w client \<Rightarrow> nat \<Rightarrow> ('w llm, unit) op" where
  "backoff c k = (\<lambda>(w, lg). case cl_Wait c (2 ^ k) w of (r, w') \<Rightarrow> (r, (w', lg @ [Waited (2 ^ k)])))"

text \<open>
  The retry loop from attempt \<open>k\<close> with \<open>n\<close> attempts left, one at least: what the last call returned, or, as the error of
  the operation, that the context was done during a backoff.
\<close>

fun retry_loop :: "'w client \<Rightarrow> (error option \<Rightarrow> llm_event) \<Rightarrow> ('w, 'a) op \<Rightarrow> nat \<Rightarrow> nat \<Rightarrow> ('w llm, 'a result) op" where
  "retry_loop c ev call k 0 = ret (Inl ErrUpstream)"
| "retry_loop c ev call k (Suc n) = bindE (attempt (logged ev call)) (\<lambda>r. case r of
     Inr a \<Rightarrow> ret (Inr a)
   | Inl e \<Rightarrow> bindE (note_event (Retried (k + 1) e)) (\<lambda>_.
       if \<not> isRetryable e \<or> n = 0 then ret (Inl e)
       else bindE (backoff c k) (\<lambda>_. retry_loop c ev call (k + 1) n)))"

definition all_failed :: "'w client \<Rightarrow> error \<Rightarrow> error" where
  "all_failed c e = Wrapped (''all providers failed after '' @ itoa_nat (cl_maxRetries c) @ '' attempts'') e"

text \<open>The true-up is best effort, and only upwards.\<close>

definition true_up :: "'w client \<Rightarrow> ChatRequest \<Rightarrow> ChatResponse \<Rightarrow> ('w llm, unit) op" where
  "true_up c req resp = (let diff = cr_PromptTokens resp + cr_CompletionTokens resp - chatBudgetEstimate in
     (\<lambda>s. if 0 < diff \<and> cl_Err c (fst s) = None then bindE (attempt (charge c (lq_OrgID req) diff)) (\<lambda>_. ret ()) s else ret () s))"

definition Chat :: "'w client \<Rightarrow> ChatRequest \<Rightarrow> ('w llm, ChatResponse) op" where
  "Chat c req =
     bindE (charge c (lq_OrgID req) chatBudgetEstimate) (\<lambda>_.
     bindE (retry_loop c Primary (pv_Chat (cl_primary c) req) 0 (cl_maxRetries c)) (\<lambda>r1.
     bindE (case (r1, cl_fallback c) of
         (Inl e, Some fb) \<Rightarrow> if isRetryable e then attempt (logged Fallback (pv_Chat fb req)) else ret r1
       | _ \<Rightarrow> ret r1) (\<lambda>r2. case r2 of
       Inl e \<Rightarrow> throw (all_failed c e)
     | Inr resp \<Rightarrow> bindE (true_up c req resp) (\<lambda>_. ret resp))))"

definition ChatStream :: "'w client \<Rightarrow> ChatRequest \<Rightarrow> ('w llm, string list) op" where
  "ChatStream c req =
     bindE (charge c (lq_OrgID req) chatStreamBudgetEstimate) (\<lambda>_.
     bindE (retry_loop c Primary (pv_ChatStream (cl_primary c) req) 0 (cl_maxRetries c)) (\<lambda>r1.
     bindE (case (r1, cl_fallback c) of
         (Inl e, Some fb) \<Rightarrow> if isRetryable e
           then retry_loop c Fallback (pv_ChatStream fb req) 0 (cl_maxRetries c) else ret r1
       | _ \<Rightarrow> ret r1) (\<lambda>r2. case r2 of Inl e \<Rightarrow> throw (all_failed c e) | Inr ch \<Rightarrow> ret ch)))"

definition StructuredOutput :: "'w client \<Rightarrow> StructuredRequest \<Rightarrow> ('w llm, string) op" where
  "StructuredOutput c req =
     bindE (charge c (sr_OrgID req) structuredOutputBudgetGuess) (\<lambda>_.
     bindE (attempt (logged Primary (pv_StructuredOutput (cl_primary c) req))) (\<lambda>r. case (r, cl_fallback c) of
         (Inl e, Some fb) \<Rightarrow> logged Fallback (pv_StructuredOutput fb req)
       | _ \<Rightarrow> lift r))"

definition Embed :: "'w client \<Rightarrow> string \<Rightarrow> ('w, int list) op" where
  "Embed c text = pv_Embed (cl_primary c) text"

definition CountTokens :: "'w client \<Rightarrow> string \<Rightarrow> nat" where
  "CountTokens c text = pv_CountTokens (cl_primary c) text"

section \<open>The ledger\<close>

text \<open>Redis: the counters with the instant they expire; \<open>down\<close> is the failure of the script call, if it fails.\<close>

type_synonym usage = "string \<rightharpoonup> int \<times> int"

definition usage_key :: "string \<Rightarrow> string \<Rightarrow> string" where
  "usage_key orgID day = ''llm:usage:org:'' @ orgID @ '':'' @ day"

definition current_usage :: "int \<Rightarrow> string \<Rightarrow> usage \<Rightarrow> int option" where
  "current_usage now k u = (case u k of None \<Rightarrow> None | Some (v, e) \<Rightarrow> if now < e then Some v else None)"

text \<open>
  \<open>recordUsageScript\<close>: \<open>INCRBY\<close> creates a missing counter at zero and keeps its expiry, none at first (the counter of
  a script that stops between its two commands is not modelled: a script is atomic); \<open>EXPIRE\<close> on the first charge.
\<close>

definition recordUsage :: "int \<Rightarrow> string \<Rightarrow> int \<Rightarrow> int \<Rightarrow> usage \<Rightarrow> int \<times> usage" where
  "recordUsage now k tokens ttl u = (case current_usage now k u of
     None \<Rightarrow> (tokens, u(k \<mapsto> (tokens, now + ttl)))
   | Some v \<Rightarrow> (v + tokens, u(k \<mapsto> (v + tokens, if v + tokens = tokens then now + ttl else snd (the (u k))))))"

definition CheckAndRecord :: "int \<Rightarrow> string \<Rightarrow> int \<Rightarrow> error option \<Rightarrow> string \<Rightarrow> int \<Rightarrow> (usage, unit) op" where
  "CheckAndRecord dailyCap day now down orgID tokens u =
     (if dailyCap \<le> 0 then (Inr (), u)
      else (case down of Some e \<Rightarrow> (Inl e, u)
        | None \<Rightarrow> (case recordUsage now (usage_key orgID day) tokens (48 * 3600) u of
            (v, u') \<Rightarrow> if dailyCap < v then (Inl ErrRateLimited, u') else (Inr (), u'))))"

section \<open>The protocol of a call\<close>

definition primaries :: "llm_event list \<Rightarrow> error option list" where
  "primaries es = concat (map (\<lambda>e. case e of Primary r \<Rightarrow> [r] | _ \<Rightarrow> []) es)"

definition fallbacks :: "llm_event list \<Rightarrow> error option list" where
  "fallbacks es = concat (map (\<lambda>e. case e of Fallback r \<Rightarrow> [r] | _ \<Rightarrow> []) es)"

definition waits :: "llm_event list \<Rightarrow> nat list" where
  "waits es = concat (map (\<lambda>e. case e of Waited n \<Rightarrow> [n] | _ \<Rightarrow> []) es)"

definition charges :: "llm_event list \<Rightarrow> int list" where
  "charges es = concat (map (\<lambda>e. case e of Charged o1 n r \<Rightarrow> [n] | _ \<Rightarrow> []) es)"

lemma projections_append [simp]:
  "primaries (xs @ ys) = primaries xs @ primaries ys" "fallbacks (xs @ ys) = fallbacks xs @ fallbacks ys"
  "waits (xs @ ys) = waits xs @ waits ys" "charges (xs @ ys) = charges xs @ charges ys"
  by (simp_all add: primaries_def fallbacks_def waits_def charges_def)

lemma projections_Cons [simp]:
  "primaries [] = []" "fallbacks [] = []" "waits [] = []" "charges [] = []"
  "primaries (e # xs) = (case e of Primary r \<Rightarrow> [r] | _ \<Rightarrow> []) @ primaries xs"
  "fallbacks (e # xs) = (case e of Fallback r \<Rightarrow> [r] | _ \<Rightarrow> []) @ fallbacks xs"
  "waits (e # xs) = (case e of Waited n \<Rightarrow> [n] | _ \<Rightarrow> []) @ waits xs"
  "charges (e # xs) = (case e of Charged o1 n r \<Rightarrow> [n] | _ \<Rightarrow> []) @ charges xs"
  by (simp_all add: primaries_def fallbacks_def waits_def charges_def)

definition retryable :: "error option \<Rightarrow> bool" where
  "retryable r \<longleftrightarrow> (case r of None \<Rightarrow> False | Some e \<Rightarrow> isRetryable e)"

text \<open>The outcomes of the calls of a loop that had \<open>n\<close> attempts, with the backoffs between them.\<close>

definition loop_trace :: "nat \<Rightarrow> nat \<Rightarrow> error option list \<Rightarrow> nat list \<Rightarrow> 'b result result \<Rightarrow> bool" where
  "loop_trace k n rs ws q \<longleftrightarrow> rs \<noteq> [] \<and> length rs \<le> n \<and> (\<forall>r \<in> set (butlast rs). retryable r)
     \<and> (case q of
          Inl e \<Rightarrow> retryable (last rs) \<and> length rs < n \<and> ws = map (\<lambda>j. 2 ^ (k + j)) [0..<length rs]
        | Inr (Inr a) \<Rightarrow> last rs = None \<and> ws = map (\<lambda>j. 2 ^ (k + j)) [0..<length rs - 1]
        | Inr (Inl e) \<Rightarrow> last rs = Some e \<and> (isRetryable e \<longrightarrow> length rs = n) \<and> ws = map (\<lambda>j. 2 ^ (k + j)) [0..<length rs - 1])"

lemma loop_trace_more:
  assumes "loop_trace (Suc k) n rs ws q" "isRetryable e"
  shows "loop_trace k (Suc n) (Some e # rs) (2 ^ k # ws) q"
proof -
  have up: "(2 :: nat) ^ k # map (\<lambda>j. 2 ^ (Suc k + j)) [0..<m] = map (\<lambda>j. 2 ^ (k + j)) [0..<Suc m]" for m :: nat
    by (simp only: upt_conv_Cons map_Suc_upt [symmetric] zero_less_Suc list.map map_map o_def) simp
  have m: "rs \<noteq> [] \<Longrightarrow> Suc (length rs - 1) = length rs" by (cases rs) auto
  show ?thesis
    using assms up [of "length rs"] up [of "length rs - 1"] m
    by (auto simp: loop_trace_def retryable_def split: sum.splits simp del: upt_Suc)
qed

lemma loop_traced:
  assumes "retry_loop c ev call k n (w, lg) = (q, (w', lg'))" "0 < n" "ev = Primary \<or> ev = Fallback"
  shows "\<exists>new. lg' = lg @ new \<and> charges new = []
    \<and> loop_trace k n (if ev = Primary then primaries new else fallbacks new) (waits new) q
    \<and> (if ev = Primary then fallbacks new else primaries new) = []
    \<and> (\<forall>a. q = Inr (Inr a) \<longrightarrow> (\<exists>w1 w2. call w1 = (Inr a, w2)))"
  using assms(1,2)
proof (induction n arbitrary: k w lg)
  case (Suc n)
  obtain r w1 where r: "call w = (r, w1)" by fastforce
  have ev: "ev (outcome_of r) = Primary (outcome_of r) \<and> ev = Primary \<or> ev (outcome_of r) = Fallback (outcome_of r) \<and> ev = Fallback \<and> ev \<noteq> Primary"
    using assms(3) by (auto dest: fun_cong [of _ _ None])
  show ?case
  proof (cases r)
    case (Inr a)
    then have "lg' = lg @ [ev (outcome_of r)] \<and> q = Inr (Inr a)"
      using Suc.prems(1) r by (simp add: bindE_def attempt_def logged_def ret_def)
    then show ?thesis using ev r Inr by (intro exI [of _ "[ev (outcome_of r)]"]) (auto simp: loop_trace_def outcome_of_def)
  next
    case (Inl e)
    show ?thesis
    proof (cases "\<not> isRetryable e \<or> n = 0")
      case True
      then have "lg' = lg @ [ev (outcome_of r), Retried (k + 1) e] \<and> q = Inr (Inl e)"
        using Suc.prems(1) r Inl by (auto simp: bindE_def attempt_def logged_def ret_def note_event_def)
      then show ?thesis using ev r Inl True
        by (intro exI [of _ "[ev (outcome_of r), Retried (k + 1) e]"]) (auto simp: loop_trace_def outcome_of_def)
    next
      case False
      obtain x w2 where x: "cl_Wait c (2 ^ k) w1 = (x, w2)" by fastforce
      let ?new = "[ev (outcome_of r), Retried (k + 1) e, Waited (2 ^ k)]"
      show ?thesis
      proof (cases x)
        case Inl': (Inl e2)
        then have "lg' = lg @ ?new \<and> q = Inl e2"
          using Suc.prems(1) r Inl x False by (auto simp: bindE_def attempt_def logged_def ret_def note_event_def backoff_def)
        then show ?thesis using ev r Inl False
          by (intro exI [of _ ?new]) (auto simp: loop_trace_def outcome_of_def retryable_def)
      next
        case Inr': (Inr u)
        then have "retry_loop c ev call (k + 1) n (w2, lg @ ?new) = (q, (w', lg'))"
          using Suc.prems(1) r Inl x False by (auto simp: bindE_def attempt_def logged_def ret_def note_event_def backoff_def)
        with Suc.IH [of "k + 1" w2 "lg @ ?new"] False obtain new where new: "lg' = (lg @ ?new) @ new" "charges new = []"
          "loop_trace (Suc k) n (if ev = Primary then primaries new else fallbacks new) (waits new) q"
          "(if ev = Primary then fallbacks new else primaries new) = []"
          "\<forall>a. q = Inr (Inr a) \<longrightarrow> (\<exists>w1 w2. call w1 = (Inr a, w2))" by auto
        have "loop_trace k (Suc n) (Some e # (if ev = Primary then primaries new else fallbacks new)) (2 ^ k # waits new) q"
          by (rule loop_trace_more [OF new(3)]) (use False in simp)
        then show ?thesis using ev new Inl r
          by (intro exI [of _ "?new @ new"]) (auto simp: outcome_of_def)
      qed
    qed
  qed
qed simp

text \<open>What a call of the client needs of the ledger: an organization and a ledger to charge.\<close>

definition chargeable :: "'w client \<Rightarrow> string \<Rightarrow> bool" where
  "chargeable c orgID \<longleftrightarrow> cl_Charge c \<noteq> None \<and> orgID \<noteq> []"

lemma charge_traced:
  assumes "charge c orgID n (w, lg) = (r, (w', lg'))"
  shows "\<exists>new. lg' = lg @ new \<and> primaries new = [] \<and> fallbacks new = [] \<and> waits new = []
    \<and> charges new = (if chargeable c orgID then [n] else []) \<and> (\<not> chargeable c orgID \<longrightarrow> r = Inr ())
    \<and> (chargeable c orgID \<longrightarrow> new = [Charged orgID n (outcome_of r)])"
  using assms by (auto simp: charge_def chargeable_def logged_def ret_def outcome_of_def split: option.splits if_splits prod.splits)

lemma true_up_traced:
  assumes "true_up c req resp (w, lg) = (r, (w', lg'))"
  shows "r = Inr () \<and> (\<exists>new. lg' = lg @ new \<and> primaries new = [] \<and> fallbacks new = [] \<and> waits new = []
    \<and> (charges new = [] \<or> chargeable c (lq_OrgID req) \<and> chatBudgetEstimate < cr_PromptTokens resp + cr_CompletionTokens resp
        \<and> charges new = [cr_PromptTokens resp + cr_CompletionTokens resp - chatBudgetEstimate]))"
proof -
  let ?diff = "cr_PromptTokens resp + cr_CompletionTokens resp - chatBudgetEstimate"
  show ?thesis
  proof (cases "0 < ?diff \<and> cl_Err c w = None")
    case True
    obtain x w1 lg1 where x: "charge c (lq_OrgID req) ?diff (w, lg) = (x, (w1, lg1))" by (metis prod.exhaust)
    from charge_traced [OF x] True assms x show ?thesis
      by (auto simp: true_up_def Let_def bindE_def attempt_def ret_def split: if_splits)
  next
    case False
    then show ?thesis using assms by (auto simp: true_up_def Let_def ret_def)
  qed
qed

text \<open>
  The calls of one request: the retries of the primary, then the fallback once. \<open>interrupted\<close> tells that a backoff
  ended the request.
\<close>

definition calls_ok :: "'w client \<Rightarrow> error option list \<Rightarrow> error option list \<Rightarrow> nat list \<Rightarrow> bool" where
  "calls_ok c ps fs ws \<longleftrightarrow> length ps \<le> cl_maxRetries c \<and> length fs \<le> 1 \<and> (\<forall>p \<in> set (butlast ps). retryable p)
     \<and> (fs \<noteq> [] \<longrightarrow> ps \<noteq> [] \<and> length ps = cl_maxRetries c \<and> retryable (last ps) \<and> cl_fallback c \<noteq> None)
     \<and> ws = map (\<lambda>j. 2 ^ j) [0..<length ws] \<and> length ws < cl_maxRetries c"

text \<open>
  How a chat request ends. With an answer, that of the last call. Without: the ledger refused the charge and nothing
  was called; or the context was done while the client waited to retry; or the last call failed, after the fallback
  unless there is none or the error is not one to retry.
\<close>

definition chat_ends :: "'w client \<Rightarrow> ChatRequest \<Rightarrow> llm_event list \<Rightarrow> ChatResponse result \<Rightarrow> bool" where
  "chat_ends c req new r \<longleftrightarrow> (let ps = primaries new; fs = fallbacks new in
     case r of
       Inr resp \<Rightarrow> ps @ fs \<noteq> [] \<and> last (ps @ fs) = None
         \<and> (\<exists>pv \<in> insert (cl_primary c) (set_option (cl_fallback c)). \<exists>v. fst (pv_Chat pv req v) = Inr resp)
     | Inl e \<Rightarrow>
         (\<exists>n. new = [Charged (lq_OrgID req) n (Some e)])
         \<or> (fs = [] \<and> ps \<noteq> [] \<and> length ps < cl_maxRetries c \<and> retryable (last ps) \<and> length (waits new) = length ps)
         \<or> (\<exists>e0. ps @ fs \<noteq> [] \<and> last (ps @ fs) = Some e0 \<and> e = all_failed c e0
              \<and> (isRetryable e0 \<longrightarrow> length ps = cl_maxRetries c \<and> (fs = [] \<longrightarrow> cl_fallback c = None))))"

lemma calls_ok_loop:
  assumes "loop_trace 0 (cl_maxRetries c) ps ws (Inr r1)"
    "fs = (case r1 of Inl e \<Rightarrow> if isRetryable e \<and> cl_fallback c \<noteq> None then [x] else [] | Inr a \<Rightarrow> [])"
  shows "calls_ok c ps fs ws"
proof -
  have ps: "ps \<noteq> []" "length ps \<le> cl_maxRetries c" "\<forall>p \<in> set (butlast ps). retryable p"
    and ws: "ws = map (\<lambda>j. 2 ^ j) [0..<length ps - 1]"
    using assms(1) by (auto simp: loop_trace_def split: sum.splits)
  have "length ws = length ps - 1" by (simp add: ws)
  with ps(1,2) have "length ws < cl_maxRetries c" by (cases ps) auto
  moreover have "fs \<noteq> [] \<longrightarrow> length ps = cl_maxRetries c \<and> retryable (last ps) \<and> cl_fallback c \<noteq> None"
    using assms by (auto simp: loop_trace_def retryable_def split: sum.splits if_splits)
  moreover have "length fs \<le> 1" using assms(2) by (simp split: sum.splits)
  ultimately show ?thesis using ps ws by (simp add: calls_ok_def)
qed

lemma chat_ends_loop:
  assumes "loop_trace 0 (cl_maxRetries c) (primaries new) ws (Inr r1)"
    "fallbacks new = (case r1 of Inl e \<Rightarrow> if isRetryable e \<and> cl_fallback c \<noteq> None then [outcome_of r2] else [] | Inr a \<Rightarrow> [])"
    "fallbacks new = [] \<longrightarrow> r2 = r1"
  shows "primaries new @ fallbacks new \<noteq> [] \<and> last (primaries new @ fallbacks new) = outcome_of r2
    \<and> (\<forall>e. r2 = Inl e \<longrightarrow> isRetryable e \<longrightarrow> length (primaries new) = cl_maxRetries c \<and> (fallbacks new = [] \<longrightarrow> cl_fallback c = None))"
  using assms by (auto simp: loop_trace_def outcome_of_def split: sum.splits if_splits)

lemma next_traced:
  obtains r2 w2 n2 where
    "(case (r1, cl_fallback c) of (Inl e, Some fb) \<Rightarrow> if isRetryable e then attempt (logged Fallback (pv_Chat fb req)) else ret r1
       | _ \<Rightarrow> ret r1) (w1, lg1) = (Inr r2, (w2, lg1 @ n2))"
    "primaries n2 = []" "waits n2 = []" "charges n2 = []"
    "fallbacks n2 = (case r1 of Inl e \<Rightarrow> if isRetryable e \<and> cl_fallback c \<noteq> None then [outcome_of r2] else [] | Inr a \<Rightarrow> [])"
    "fallbacks n2 = [] \<longrightarrow> r2 = r1"
    "\<forall>a. r2 = Inr a \<longrightarrow> r1 = Inr a \<or> (\<exists>fb v. cl_fallback c = Some fb \<and> fst (pv_Chat fb req v) = Inr a)"
proof (cases "\<exists>e fb. r1 = Inl e \<and> isRetryable e \<and> cl_fallback c = Some fb")
  case True
  then obtain e fb where e: "r1 = Inl e" "isRetryable e" "cl_fallback c = Some fb" by auto
  obtain r2 w2 where r2: "pv_Chat fb req w1 = (r2, w2)" by fastforce
  show ?thesis
  proof (rule that [of r2 w2 "[Fallback (outcome_of r2)]"])
    show "\<forall>a. r2 = Inr a \<longrightarrow> r1 = Inr a \<or> (\<exists>fb v. cl_fallback c = Some fb \<and> fst (pv_Chat fb req v) = Inr a)"
      using r2 e(3) by (metis fst_conv)
  qed (simp_all add: e r2 attempt_def logged_def)
next
  case False
  then show ?thesis by (intro that [of r1 w1 "[]"]) (auto simp: ret_def split: sum.splits option.splits)
qed


text \<open>A primary that is always rate limited, a fallback that answers with 700 tokens, a ledger that accepts.\<close>

definition limited_provider :: "nat provider" where
  "limited_provider = \<lparr>pv_Chat = (\<lambda>req n. (Inl ErrRateLimited, n + 1)), pv_ChatStream = (\<lambda>req. throw ErrRateLimited),
     pv_StructuredOutput = (\<lambda>req. throw ErrRateLimited), pv_Embed = (\<lambda>text. throw ErrRateLimited), pv_CountTokens = size\<rparr>"

definition answering_provider :: "nat provider" where
  "answering_provider = limited_provider\<lparr>pv_Chat := \<lambda>req n. (Inr \<lparr>cr_Content = ''hi'', cr_FinishReason = ''stop'',
     cr_PromptTokens = 600, cr_CompletionTokens = 100\<rparr>, n + 1)\<rparr>"

definition sample_client :: "nat client" where
  "sample_client = NewClient limited_provider (Some answering_provider) (Some (\<lambda>orgID tokens. ret ())) 2 (\<lambda>n. ret ()) (\<lambda>w. None)"

definition sample_request :: ChatRequest where
  "sample_request = \<lparr>lq_OrgID = ''o'', lq_Model = ''m'', lq_Messages = [], lq_ResponseFormat = [], lq_MaxTokens = 10\<rparr>"

definition sample_events :: "llm_event list" where
  "sample_events = [Charged ''o'' 500 None, Primary (Some ErrRateLimited), Retried 1 ErrRateLimited, Waited 1,
     Primary (Some ErrRateLimited), Retried 2 ErrRateLimited, Fallback None, Charged ''o'' 200 None]"

lemma sample_chat:
  "\<exists>resp. Chat sample_client sample_request (0, []) = (Inr resp, (3, sample_events))"
  by (simp add: Chat_def sample_client_def NewClient_def sample_request_def sample_events_def bindE_def charge_def logged_def
      ret_def outcome_of_def chatBudgetEstimate_def numeral_2_eq_2 attempt_def limited_provider_def answering_provider_def
      note_event_def backoff_def isRetryable_def err_is.simps ErrRateLimited_def true_up_def)


section \<open>The budget of a day\<close>

text \<open>
  The charges of one organization against the ledger, with the instants they are made at, and the sum of the accepted
  ones. A charge that is refused counts on the counter all the same.
\<close>

fun ledger_run :: "int \<Rightarrow> string \<Rightarrow> string \<Rightarrow> (int \<times> int) list \<Rightarrow> usage \<Rightarrow> int" where
  "ledger_run cap day orgID [] u = 0"
| "ledger_run cap day orgID ((now, tokens) # cs) u = (case CheckAndRecord cap day now None orgID tokens u of
     (Inl e, u') \<Rightarrow> ledger_run cap day orgID cs u' | (Inr x, u') \<Rightarrow> tokens + ledger_run cap day orgID cs u')"

lemma ledger_run_spent:
  assumes "u (usage_key orgID day) = Some (v, e)" "0 < v" "\<forall>(now, tokens) \<in> set cs. 0 < tokens \<and> now < e" "0 < cap"
  shows "ledger_run cap day orgID cs u \<le> max 0 (cap - v)"
  using assms
proof (induction cs arbitrary: u v)
  case (Cons c cs)
  obtain now tokens where c: "c = (now, tokens)" by (cases c)
  let ?u = "u(usage_key orgID day \<mapsto> (v + tokens, e))"
  have "recordUsage now (usage_key orgID day) tokens (48 * 3600) u = (v + tokens, ?u)"
    using Cons.prems c by (simp add: recordUsage_def current_usage_def)
  moreover have "ledger_run cap day orgID cs ?u \<le> max 0 (cap - (v + tokens))"
    by (rule Cons.IH) (use Cons.prems c in auto)
  ultimately show ?case using Cons.prems c by (auto simp: CheckAndRecord_def)
qed simp

text \<open>Over a day, the charges the ledger accepts never exceed the cap of an organization.\<close>

lemma ledger_within_cap:
  assumes "u (usage_key orgID day) = None" "\<forall>(now, tokens) \<in> set cs. 0 < tokens \<and> t \<le> now \<and> now < t + 48 * 3600" "0 < cap"
  shows "ledger_run cap day orgID cs u \<le> cap"
proof (cases cs)
  case (Cons c cs')
  obtain now tokens where c: "c = (now, tokens)" by (cases c)
  let ?u = "u(usage_key orgID day \<mapsto> (tokens, now + 48 * 3600))"
  have "recordUsage now (usage_key orgID day) tokens (48 * 3600) u = (tokens, ?u)"
    using assms(1) by (simp add: recordUsage_def current_usage_def)
  moreover have "ledger_run cap day orgID cs' ?u \<le> max 0 (cap - tokens)"
    by (rule ledger_run_spent) (use assms Cons c in auto)
  ultimately show ?thesis using assms Cons c by (auto simp: CheckAndRecord_def)
qed (use assms(3) in simp)

end
