(* ===== verification/Candidate_Portal.thy ===== *)
theory Candidate_Portal
  imports Interview_Store Webhooks
begin

text \<open>
  The candidate portal: the passwordless login of candidates, the list and the export of their applications, and the
  erasure of their data (\<open>src/backend/internal/screening/api/candidate_portal_handler.go\<close>,
  \<open>screening/infrastructure/persistence/postgres_portal_repo.go\<close>, with the security-definer functions of the migrations
  018, 025 and 026). No tenant is involved: every statement runs on the pool, on its own.

  Parameters: SHA-256, the token library, the random code and the new identities, the clocks, what the evaluation's
  JSON says. Whether the demo mode is on (\<open>INTIVAI_DEMO_TOKENS\<close>) is a field of the environment.
\<close>

section \<open>Tables\<close>

record CandidateOTP =
  otp_ID :: uuid
  otp_Email :: string
  otp_CodeHash :: string
  otp_Token :: string
  otp_Attempts :: nat
  otp_ExpiresAt :: time

record otp_row = CandidateOTP +
  otp_UsedAt :: "time option"
  otp_CreatedAt :: time

record data_request =
  dr_CandidateID :: uuid
  dr_OrgID :: uuid
  dr_Action :: string
  dr_CompletedAt :: time

record portal_tables = iv_tables +
  t_otps :: "otp_row list"
  t_data_requests :: "data_request list"
  t_org_rows :: "Org list"

datatype portal_effect =
    MailedOTP SendEmailPayload
  | LoggedIn string \<comment> \<open>the cookie with the candidate's token\<close>
  | LoggedOut

type_synonym 'm portal_db = "('m portal_tables_scheme, portal_effect) db"

section \<open>The repository\<close>

record portal_env =
  pe_hash :: "string \<Rightarrow> string"
  pe_Issue :: "string \<Rightarrow> string result"
  pe_Parse :: "string \<Rightarrow> (string \<times> string) result" \<comment> \<open>type and e-mail of a token\<close>
  pe_demo :: bool
  pe_queue :: bool
  pe_publicURL :: string
  pe_format :: "time \<Rightarrow> string"
  pe_score :: "string \<Rightarrow> rat option"
  pe_recommendation :: "string \<Rightarrow> string"

definition live_otp :: "time \<Rightarrow> otp_row \<Rightarrow> bool" where
  "live_otp dbnow x \<longleftrightarrow> otp_UsedAt x = None \<and> dbnow < otp_ExpiresAt x"

definition insert_otp :: "otp_row \<Rightarrow> ('m portal_tables_scheme, 'h) db \<Rightarrow> unit result \<times> ('m portal_tables_scheme, 'h) db" where
  "insert_otp x = pool_stmt (\<lambda>r.
     if otp_ID x \<in> otp_ID ` set (t_otps r) then (Inl (unique_violation ''candidate_otps_pkey''), r)
     else if otp_Token x \<in> otp_Token ` set (t_otps r) then (Inl (unique_violation ''candidate_otps_token_key''), r)
     else (Inr (), t_otps_update (\<lambda>xs. xs @ [x]) r))"

definition CreateOTP :: "time \<Rightarrow> uuid \<Rightarrow> string \<Rightarrow> string \<Rightarrow> string \<Rightarrow> time \<Rightarrow> (('m portal_tables_scheme, 'h) db, unit) op" where
  "CreateOTP dbnow newid email codeHash token expiresAt = insert_otp \<lparr>otp_ID = newid, otp_Email = email, otp_CodeHash = codeHash,
     otp_Token = token, otp_Attempts = 0, otp_ExpiresAt = expiresAt, otp_UsedAt = None, otp_CreatedAt = dbnow\<rparr>"

text \<open>The code hash of a magic link is that of a fresh UUID, \<open>secret\<close>.\<close>

definition CreateMagicToken ::
  "portal_env \<Rightarrow> time \<Rightarrow> uuid \<Rightarrow> uuid \<Rightarrow> string \<Rightarrow> string \<Rightarrow> time \<Rightarrow> (('m portal_tables_scheme, 'h) db, unit) op" where
  "CreateMagicToken e dbnow newid secret email token expiresAt = insert_otp \<lparr>otp_ID = newid, otp_Email = email,
     otp_CodeHash = pe_hash e secret, otp_Token = token, otp_Attempts = 0, otp_ExpiresAt = expiresAt, otp_UsedAt = None, otp_CreatedAt = dbnow\<rparr>"

definition latest :: "time list \<Rightarrow> time option" where
  "latest ts = (if ts = [] then None else Some (Max (set ts)))"

definition LastRequestAt :: "string \<Rightarrow> (('m portal_tables_scheme, 'h) db, time option) op" where
  "LastRequestAt email = pool_stmt (\<lambda>r. (Inr (latest (map otp_CreatedAt
     (filter (\<lambda>x. to_lower (otp_Email x) = email \<and> otp_UsedAt x = None) (t_otps r)))), r))"

definition OTPCountSince :: "string \<Rightarrow> time \<Rightarrow> (('m portal_tables_scheme, 'h) db, nat) op" where
  "OTPCountSince email since = pool_stmt (\<lambda>r.
     (Inr (length (filter (\<lambda>x. to_lower (otp_Email x) = email \<and> since < otp_CreatedAt x) (t_otps r))), r))"

text \<open>\<open>ORDER BY created_at DESC LIMIT 1\<close>, and the columns that are scanned.\<close>

definition newest_otp :: "(otp_row \<Rightarrow> bool) \<Rightarrow> 'm portal_tables_scheme \<Rightarrow> CandidateOTP option" where
  "newest_otp p r = map_option CandidateOTP.truncate (first_row (newest_first otp_CreatedAt (filter p (t_otps r))))"

definition demo_token :: "portal_env \<Rightarrow> string \<Rightarrow> bool" where
  "demo_token e token \<longleftrightarrow> pe_demo e \<and> has_prefix token ''demo-''"

definition FindValidByToken :: "portal_env \<Rightarrow> time \<Rightarrow> string \<Rightarrow> (('m portal_tables_scheme, 'h) db, CandidateOTP option) op" where
  "FindValidByToken e dbnow token = (if demo_token e token
     then pool_stmt (\<lambda>r. (Inr (newest_otp (\<lambda>x. otp_Token x = token \<and> dbnow < otp_ExpiresAt x) r), r))
     else pool_stmt (\<lambda>r. (Inr (newest_otp (\<lambda>x. otp_Token x = token \<and> live_otp dbnow x) r), r)))"

definition FindValidByCodeHash :: "time \<Rightarrow> string \<Rightarrow> string \<Rightarrow> (('m portal_tables_scheme, 'h) db, CandidateOTP option) op" where
  "FindValidByCodeHash dbnow email codeHash = pool_stmt (\<lambda>r.
     (Inr (newest_otp (\<lambda>x. to_lower (otp_Email x) = email \<and> otp_CodeHash x = codeHash \<and> live_otp dbnow x) r), r))"

definition IncrementAttempts :: "time \<Rightarrow> string \<Rightarrow> (('m portal_tables_scheme, 'h) db, unit) op" where
  "IncrementAttempts dbnow email = pool_stmt (\<lambda>r. (Inr (), t_otps_update
     (map_hits (\<lambda>x. to_lower (otp_Email x) = email \<and> live_otp dbnow x) (\<lambda>x. x\<lparr>otp_Attempts := otp_Attempts x + 1\<rparr>)) r))"

text \<open>\<open>Scan\<close> of no row leaves the token empty.\<close>

definition Consume :: "portal_env \<Rightarrow> time \<Rightarrow> uuid \<Rightarrow> (('m portal_tables_scheme, 'h) db, bool) op" where
  "Consume e dbnow key =
     bindE (pool_stmt (\<lambda>r. (Inr (case find (\<lambda>x. otp_ID x = key) (t_otps r) of None \<Rightarrow> [] | Some x \<Rightarrow> otp_Token x), r))) (\<lambda>token.
     if demo_token e token then ret True
     else pool_stmt (\<lambda>r. (Inr (list_ex (\<lambda>x. otp_ID x = key \<and> otp_UsedAt x = None) (t_otps r)),
       t_otps_update (map_hits (\<lambda>x. otp_ID x = key \<and> otp_UsedAt x = None) (\<lambda>x. x\<lparr>otp_UsedAt := Some dbnow\<rparr>)) r)))"

definition PurgeExpired :: "time \<Rightarrow> string \<Rightarrow> (('m portal_tables_scheme, 'h) db, unit) op" where
  "PurgeExpired dbnow email = pool_stmt (\<lambda>r. (Inr (), t_otps_update
     (filter (\<lambda>x. \<not> (to_lower (otp_Email x) = email \<and> (otp_ExpiresAt x < dbnow \<or> otp_UsedAt x \<noteq> None)))) r))"

text \<open>
  \<open>candidate_erase\<close>. The tokens of an interview reference it and no cascade is declared, so the deletion of an
  interview that has one is refused, and with it the whole call. The requests on record go with their candidate.
\<close>

definition of_email :: "string \<Rightarrow> Candidate \<Rightarrow> bool" where
  "of_email email c \<longleftrightarrow> to_lower (cand_Email c) = to_lower email"

definition erased_ids :: "string \<Rightarrow> 'm core_tables_scheme \<Rightarrow> uuid list" where
  "erased_ids email r = map cand_ID (filter (of_email email) (t_candidates r))"

definition erased_apps :: "string \<Rightarrow> 'm core_tables_scheme \<Rightarrow> uuid list" where
  "erased_apps email r = map app_ID (filter (\<lambda>a. app_CandidateID a \<in> set (erased_ids email r)) (t_applications r))"

definition erased_interviews :: "string \<Rightarrow> 'm iv_tables_scheme \<Rightarrow> uuid list" where
  "erased_interviews email r = map iv_ID (filter (\<lambda>iv. iv_ApplicationID iv \<in> set (erased_apps email r)) (t_interviews r))"

definition without_email :: "string \<Rightarrow> 'm portal_tables_scheme \<Rightarrow> 'm portal_tables_scheme" where
  "without_email email r =
     t_interviews_update (filter (\<lambda>iv. iv_ApplicationID iv \<notin> set (erased_apps email r)))
    (t_applications_update (filter (\<lambda>a. app_CandidateID a \<notin> set (erased_ids email r)))
    (t_candidates_update (filter (\<lambda>c. cand_ID c \<notin> set (erased_ids email r)))
    (t_data_requests_update (filter (\<lambda>q. dr_CandidateID q \<notin> set (erased_ids email r)))
    (t_otps_update (filter (\<lambda>x. to_lower (otp_Email x) \<noteq> to_lower email)) r))))"

definition EraseCandidate :: "string \<Rightarrow> (('m portal_tables_scheme, 'h) db, unit) op" where
  "EraseCandidate email = pool_stmt (\<lambda>r.
     if list_ex (\<lambda>t. it_InterviewID t \<in> set (erased_interviews email r)) (t_tokens r)
     then (Inl (foreign_key_violation ''interview_tokens_interview_id_fkey''), r)
     else (Inr (), without_email email r))"

definition LogDataRequest :: "time \<Rightarrow> string \<Rightarrow> string \<Rightarrow> (('m portal_tables_scheme, 'h) db, unit) op" where
  "LogDataRequest dbnow email action = pool_stmt (\<lambda>r.
     if action \<noteq> ''export'' \<and> action \<noteq> ''delete'' then (Inl (PgError ''23514'' []), r)
     else (Inr (), t_data_requests_update (\<lambda>xs. xs @ map (\<lambda>c. \<lparr>dr_CandidateID = cand_ID c, dr_OrgID = cand_OrgID c,
       dr_Action = action, dr_CompletedAt = dbnow\<rparr>) (filter (of_email email) (t_candidates r))) r))"

record CandidateApplicationView =
  cv_ApplicationID :: uuid
  cv_OrgID :: uuid
  cv_OrgName :: string
  cv_OrgSlug :: string
  cv_JobID :: uuid
  cv_JobTitle :: string
  cv_JobLocation :: string
  cv_JobEmploymentType :: string
  cv_CandidateID :: uuid
  cv_CandidateName :: string
  cv_CandidateEmail :: string
  cv_CVScore :: "rat option"
  cv_PassedScreening :: "bool option"
  cv_ApplicationStatus :: string
  cv_AppliedAt :: string
  cv_InterviewID :: "uuid option"
  cv_InterviewStatus :: "Status option"
  cv_InterviewType :: "string option"
  cv_OverallScore :: "rat option"
  cv_Recommendation :: string

text \<open>One row of the join; \<open>Create\<close> gives every interview the type \<open>chat\<close>.\<close>

definition portal_view :: "portal_env \<Rightarrow> Candidate \<Rightarrow> Application \<Rightarrow> Job \<Rightarrow> Org \<Rightarrow> Interview option \<Rightarrow> CandidateApplicationView" where
  "portal_view e c a j og iv = \<lparr>cv_ApplicationID = app_ID a, cv_OrgID = app_OrgID a, cv_OrgName = org_Name og, cv_OrgSlug = org_Slug og,
     cv_JobID = job_ID j, cv_JobTitle = job_Title j, cv_JobLocation = job_Location j, cv_JobEmploymentType = job_EmploymentType j,
     cv_CandidateID = cand_ID c, cv_CandidateName = cand_Name c, cv_CandidateEmail = cand_Email c, cv_CVScore = app_CVScore a,
     cv_PassedScreening = app_PassedScreening a, cv_ApplicationStatus = app_Status a, cv_AppliedAt = pe_format e (app_CreatedAt a),
     cv_InterviewID = map_option iv_ID iv, cv_InterviewStatus = map_option iv_Status iv, cv_InterviewType = map_option (\<lambda>_. ''chat'') iv,
     cv_OverallScore = Option.bind (Option.bind iv iv_Evaluation) (pe_score e),
     cv_Recommendation = (case Option.bind iv iv_Evaluation of None \<Rightarrow> [] | Some x \<Rightarrow> pe_recommendation e x)\<rparr>"

definition interviews_or_none :: "Interview list \<Rightarrow> Interview option list" where
  "interviews_or_none ivs = (if ivs = [] then [None] else map Some ivs)"

definition applications_lookup :: "portal_env \<Rightarrow> string \<Rightarrow> 'm portal_tables_scheme \<Rightarrow> CandidateApplicationView list" where
  "applications_lookup e email r = map snd (newest_first fst (concat (map (\<lambda>c. concat (map (\<lambda>a. concat (map (\<lambda>j. concat (map (\<lambda>og.
       map (\<lambda>iv. (app_CreatedAt a, portal_view e c a j og iv))
         (interviews_or_none (filter (\<lambda>iv. iv_ApplicationID iv = app_ID a) (t_interviews r))))
       (filter (\<lambda>og. org_ID og = app_OrgID a) (t_org_rows r))))
       (filter (\<lambda>j. job_ID j = app_JobID a) (t_jobs r))))
       (filter (\<lambda>a. app_CandidateID a = cand_ID c) (t_applications r))))
       (filter (of_email email) (t_candidates r)))))"

definition portal_ListApplications :: "portal_env \<Rightarrow> string \<Rightarrow> (('m portal_tables_scheme, 'h) db, CandidateApplicationView list) op" where
  "portal_ListApplications e email = pool_stmt (\<lambda>r. (Inr (applications_lookup e email r), r))"


section \<open>Requesting a code\<close>

definition otpTTL :: duration where "otpTTL = 10 * minute"
definition otpResendCooldown :: duration where "otpResendCooldown = 60 * second"
definition maxOTPAttempts :: nat where "maxOTPAttempts = 5"
definition maxOTPDaily :: nat where "maxOTPDaily = 5"
definition candidateTokenTTL :: duration where "candidateTokenTTL = 7 * 24 * 60 * minute"

definition internal_error :: "string \<Rightarrow> error" where
  "internal_error m = DomainError ''INTERNAL_ERROR'' m"

definition pad6 :: "nat \<Rightarrow> string" where
  "pad6 n = (let s = itoa_nat n in replicate (6 - length s) (CHR ''0'') @ s)"

definition EmailTypeCandidateOTP :: string where "EmailTypeCandidateOTP = ''candidate_otp''"

definition magic_link :: "portal_env \<Rightarrow> string \<Rightarrow> string" where
  "magic_link e token = trim_suffix (pe_publicURL e) ''/'' @ ''/candidate/portal?token='' @ token"

definition otp_mail :: "portal_env \<Rightarrow> string \<Rightarrow> string \<Rightarrow> string \<Rightarrow> SendEmailPayload" where
  "otp_mail e email code token = \<lparr>sp_Type = EmailTypeCandidateOTP, sp_To = email, sp_CandidateName = [], sp_JobTitle = [],
     sp_InviteURL = [], sp_Score = 0, sp_Recommendation = [], sp_ReportURL = [], sp_OTPCode = code, sp_MagicLink = magic_link e token,
     sp_Decision = [], sp_PortalURL = []\<rparr>"

text \<open>\<open>clk\<close> is the process clock at the readings of the handler, \<open>random\<close> the answer of \<open>rand.Int\<close>.\<close>

definition otp_refused :: "(nat \<Rightarrow> time) \<Rightarrow> string \<Rightarrow> (('m portal_tables_scheme, 'h) db, unit) op" where
  "otp_refused clk email =
     bindE (map_error (\<lambda>_. internal_error ''failed to check otp cooldown'') (LastRequestAt email)) (\<lambda>last.
     bindE (fail_if (case last of None \<Rightarrow> False | Some t \<Rightarrow> time_sub (clk 0) t < otpResendCooldown)
       (DomainError ''TOO_MANY_REQUESTS'' ''please wait before requesting another code'')) (\<lambda>_.
     bindE (map_error (\<lambda>_. internal_error ''failed to check otp usage'') (OTPCountSince email (clk 1 - 24 * 60 * minute))) (\<lambda>issued.
     fail_if (maxOTPDaily \<le> issued) (DomainError ''TOO_MANY_REQUESTS'' ''daily verification code limit reached''))))"

definition RequestOTP ::
  "portal_env \<Rightarrow> (nat \<Rightarrow> time) \<Rightarrow> time \<Rightarrow> uuid \<Rightarrow> uuid \<Rightarrow> nat result \<Rightarrow> string option \<Rightarrow> ('m portal_db, string \<times> int) op" where
  "RequestOTP e clk dbnow newid token random body = (case body of
     None \<Rightarrow> throw (DomainError ''BAD_REQUEST'' ''invalid request body'')
   | Some raw \<Rightarrow>
       (let email = to_lower (trim_space raw) in
        bindE (fail_if (email = [] \<or> \<not> contains email ''@'') (DomainError ''BAD_REQUEST'' ''valid email address is required'')) (\<lambda>_.
        bindE (otp_refused clk email) (\<lambda>_.
        bindE (map_error (\<lambda>_. internal_error ''failed to purge expired codes'') (PurgeExpired dbnow email)) (\<lambda>_.
        bindE (map_error (\<lambda>_. internal_error ''failed to generate otp'') (lift random)) (\<lambda>n.
        bindE (map_error (\<lambda>_. internal_error ''failed to record otp'') (CreateOTP dbnow newid email (pe_hash e (pad6 n)) token (clk 2 + otpTTL))) (\<lambda>_.
        bindE (if pe_queue e then bindE (attempt (emit (MailedOTP (otp_mail e email (pad6 n) token)))) (\<lambda>_. ret ()) else ret ()) (\<lambda>_.
        ret (email, int_seconds otpTTL)))))))))"

section \<open>Logging in\<close>

record VerifyOTPRequest =
  vr_Email :: string
  vr_Code :: string
  vr_Token :: string

definition vr_email :: "VerifyOTPRequest \<Rightarrow> string" where "vr_email q = to_lower (trim_space (vr_Email q))"
definition vr_code :: "VerifyOTPRequest \<Rightarrow> string" where "vr_code q = trim_space (vr_Code q)"
definition vr_token :: "VerifyOTPRequest \<Rightarrow> string" where "vr_token q = trim_space (vr_Token q)"

text \<open>The lookup, and the failure that is recorded when a code is not found.\<close>

definition verify_find :: "portal_env \<Rightarrow> time \<Rightarrow> VerifyOTPRequest \<Rightarrow> (('m portal_tables_scheme, 'h) db, CandidateOTP option) op" where
  "verify_find e dbnow q = map_error (\<lambda>_. internal_error ''verification lookup failed'')
     (if vr_token q \<noteq> [] then FindValidByToken e dbnow (vr_token q)
      else FindValidByCodeHash dbnow (vr_email q) (pe_hash e (vr_code q)))"

definition note_failure :: "time \<Rightarrow> VerifyOTPRequest \<Rightarrow> CandidateOTP option \<Rightarrow> (('m portal_tables_scheme, 'h) db, unit) op" where
  "note_failure dbnow q found = (if vr_token q = [] \<and> found = None
     then map_error (\<lambda>_. internal_error ''failed to record verification attempt'') (IncrementAttempts dbnow (vr_email q)) else ret ())"

definition verify_found :: "CandidateOTP option \<Rightarrow> CandidateOTP result" where
  "verify_found found = (case found of
     None \<Rightarrow> Inl (DomainError ''UNAUTHORIZED'' ''invalid or expired verification code'')
   | Some otp \<Rightarrow> if maxOTPAttempts \<le> otp_Attempts otp
       then Inl (DomainError ''TOO_MANY_REQUESTS'' ''too many attempts, request a new code'') else Inr otp)"

definition verify_finish :: "portal_env \<Rightarrow> time \<Rightarrow> time \<Rightarrow> CandidateOTP \<Rightarrow> ('m portal_db, string \<times> string \<times> string) op" where
  "verify_finish e dbnow now otp =
     bindE (map_error (\<lambda>_. internal_error ''failed to consume verification code'') (Consume e dbnow (otp_ID otp))) (\<lambda>consumed.
     bindE (fail_if (\<not> consumed) (DomainError ''UNAUTHORIZED'' ''invalid or expired verification code'')) (\<lambda>_.
     bindE (map_error (\<lambda>_. internal_error ''failed to issue candidate token'') (lift (pe_Issue e (otp_Email otp)))) (\<lambda>jwt.
     bindE (\<lambda>d. (Inr (), d\<lparr>fired := fired d @ [LoggedIn jwt]\<rparr>)) (\<lambda>_.
     ret (jwt, otp_Email otp, pe_format e (now + candidateTokenTTL))))))"

text \<open>The handler; other requests may run between any two of its statements, \<open>world\<close> says what they do.\<close>

definition VerifyOTP ::
  "portal_env \<Rightarrow> (nat \<Rightarrow> 'm portal_db \<Rightarrow> 'm portal_db) \<Rightarrow> time \<Rightarrow> time \<Rightarrow> VerifyOTPRequest option
     \<Rightarrow> ('m portal_db, string \<times> string \<times> string) op" where
  "VerifyOTP e world dbnow now body = (case body of
     None \<Rightarrow> throw (DomainError ''BAD_REQUEST'' ''invalid request body'')
   | Some q \<Rightarrow>
       if vr_token q = [] \<and> (vr_email q = [] \<or> vr_code q = [])
       then throw (DomainError ''BAD_REQUEST'' ''provide either (email + code) or magic token'')
       else bindE (verify_find e dbnow q) (\<lambda>found. \<lambda>d. bindE (note_failure dbnow q found) (\<lambda>_.
         bindE (lift (verify_found found)) (\<lambda>otp. \<lambda>d. verify_finish e dbnow now otp (world 1 d))) (world 0 d)))"

definition trim_prefix :: "string \<Rightarrow> string \<Rightarrow> string" where
  "trim_prefix s p = (if has_prefix s p then drop (length p) s else s)"

definition RequireCandidateAuth :: "portal_env \<Rightarrow> string \<Rightarrow> string \<Rightarrow> string result" where
  "RequireCandidateAuth e cookie header =
     (let token = (if cookie = [] \<and> has_prefix header bearer then trim_prefix header bearer else cookie) in
      if token = [] then Inl (DomainError ''UNAUTHORIZED'' ''missing candidate authorization'')
      else (case pe_Parse e token of
          Inl x \<Rightarrow> Inl (DomainError ''UNAUTHORIZED'' ''invalid candidate authorization token'')
        | Inr (typ, email) \<Rightarrow>
            if typ \<noteq> TokenTypeCandidate then Inl (DomainError ''UNAUTHORIZED'' ''invalid candidate authorization token'')
            else if email = [] then Inl (DomainError ''UNAUTHORIZED'' ''candidate email missing from claims'')
            else Inr email))"

definition portal_Logout :: "('m portal_db, unit) op" where
  "portal_Logout d = (Inr (), d\<lparr>fired := fired d @ [LoggedOut]\<rparr>)"

section \<open>The candidate's own data\<close>

text \<open>\<open>email\<close> is what \<open>RequireCandidateAuth\<close> left for the handler.\<close>

definition portal_Applications :: "portal_env \<Rightarrow> string \<Rightarrow> (('m portal_tables_scheme, 'h) db, CandidateApplicationView list) op" where
  "portal_Applications e email = (if email = [] then throw (DomainError ''UNAUTHORIZED'' ''unauthorized'')
     else map_error (\<lambda>_. internal_error ''internal server error'') (portal_ListApplications e email))"

definition portal_Export ::
  "portal_env \<Rightarrow> time \<Rightarrow> time \<Rightarrow> string \<Rightarrow> (('m portal_tables_scheme, 'h) db, string \<times> CandidateApplicationView list \<times> string) op" where
  "portal_Export e dbnow now email = (if email = [] then throw (DomainError ''UNAUTHORIZED'' ''unauthorized'')
     else bindE (attempt (LogDataRequest dbnow email ''export'')) (\<lambda>_.
       bindE (map_error (\<lambda>_. internal_error ''internal server error'') (portal_ListApplications e email)) (\<lambda>apps.
       ret (email, apps, pe_format e now))))"

definition DeleteMe :: "time \<Rightarrow> string \<Rightarrow> ('m portal_db, unit) op" where
  "DeleteMe dbnow email = (if email = [] then throw (DomainError ''UNAUTHORIZED'' ''unauthorized'')
     else bindE (attempt (LogDataRequest dbnow email ''delete'')) (\<lambda>_.
       bindE (map_error (\<lambda>_. internal_error ''failed to erase candidate data'') (EraseCandidate email)) (\<lambda>_.
       portal_Logout)))"


section \<open>What a login rests on\<close>

text \<open>The request a flight serves, what its lookup found, and when.\<close>

type_synonym otp_flight = "VerifyOTPRequest \<times> CandidateOTP \<times> time"

definition presents :: "portal_env \<Rightarrow> VerifyOTPRequest \<Rightarrow> CandidateOTP \<Rightarrow> bool" where
  "presents e q otp \<longleftrightarrow> (if vr_token q \<noteq> [] then otp_Token otp = vr_token q
     else to_lower (otp_Email otp) = vr_email q \<and> otp_CodeHash otp = pe_hash e (vr_code q))"

lemma newest_otp_Some:
  assumes "newest_otp p r = Some otp"
  obtains x where "x \<in> set (t_otps r)" "p x" "otp = CandidateOTP.truncate x"
proof -
  from assms obtain x where x: "first_row (newest_first otp_CreatedAt (filter p (t_otps r))) = Some x" "otp = CandidateOTP.truncate x"
    by (auto simp: newest_otp_def)
  from x(1) have "x \<in> set (newest_first otp_CreatedAt (filter p (t_otps r)))"
    by (cases "newest_first otp_CreatedAt (filter p (t_otps r))") (simp_all add: first_row_def)
  then have "x \<in> set (t_otps r)" "p x" by (simp_all add: newest_first_def)
  from this x(2) show ?thesis by (rule that)
qed

lemma truncate_simps [simp]:
  "otp_ID (CandidateOTP.truncate x) = otp_ID x" "otp_Email (CandidateOTP.truncate x) = otp_Email x"
  "otp_CodeHash (CandidateOTP.truncate x) = otp_CodeHash x" "otp_Token (CandidateOTP.truncate x) = otp_Token x"
  "otp_Attempts (CandidateOTP.truncate x) = otp_Attempts x" "otp_ExpiresAt (CandidateOTP.truncate x) = otp_ExpiresAt x"
  by (simp_all add: CandidateOTP.truncate_def)

lemma verify_find_run:
  assumes "verify_find e dbnow q d = (Inr found, d')"
  shows "tables d' = tables d \<and> (\<forall>otp. found = Some otp \<longrightarrow> presents e q otp \<and> dbnow < otp_ExpiresAt otp
    \<and> (\<exists>x \<in> set (t_otps (tables d)). otp = CandidateOTP.truncate x))"
proof -
  obtain p where p: "(found = newest_otp p (tables d)) \<and> tables d' = tables d"
    "\<And>x. p x \<Longrightarrow> presents e q (CandidateOTP.truncate x) \<and> dbnow < otp_ExpiresAt x"
  proof (cases "vr_token q = []")
    case True
    with assms have "FindValidByCodeHash dbnow (vr_email q) (pe_hash e (vr_code q)) d = (Inr found, d')"
      by (simp add: verify_find_def map_error_Inr)
    with True show ?thesis unfolding FindValidByCodeHash_def
      by (intro that [of "\<lambda>x. to_lower (otp_Email x) = vr_email q \<and> otp_CodeHash x = pe_hash e (vr_code q) \<and> live_otp dbnow x"])
        (auto dest!: pool_stmt_run simp: presents_def live_otp_def)
  next
    case False
    with assms have f: "FindValidByToken e dbnow (vr_token q) d = (Inr found, d')" by (simp add: verify_find_def map_error_Inr)
    show ?thesis
    proof (cases "demo_token e (vr_token q)")
      case True
      with f have "pool_stmt (\<lambda>r. (Inr (newest_otp (\<lambda>x. otp_Token x = vr_token q \<and> dbnow < otp_ExpiresAt x) r), r)) d = (Inr found, d')"
        by (simp add: FindValidByToken_def)
      with False show ?thesis
        by (intro that [of "\<lambda>x. otp_Token x = vr_token q \<and> dbnow < otp_ExpiresAt x"]) (auto dest!: pool_stmt_run simp: presents_def)
    next
      case False
      with f have "pool_stmt (\<lambda>r. (Inr (newest_otp (\<lambda>x. otp_Token x = vr_token q \<and> live_otp dbnow x) r), r)) d = (Inr found, d')"
        by (simp add: FindValidByToken_def)
      with \<open>vr_token q \<noteq> []\<close> show ?thesis
        by (intro that [of "\<lambda>x. otp_Token x = vr_token q \<and> live_otp dbnow x"])
          (auto dest!: pool_stmt_run simp: presents_def live_otp_def)
    qed
  qed
  show ?thesis using p by (auto elim!: newest_otp_Some)
qed

text \<open>What a statement other than \<open>Consume\<close> does to the rows: it drops some, counts failures, or adds a new one.\<close>

definition otps_move :: "otp_row list \<Rightarrow> otp_row list \<Rightarrow> uuid set \<Rightarrow> bool" where
  "otps_move xs ys new \<longleftrightarrow> (distinct (map otp_ID xs) \<longrightarrow> distinct (map otp_ID ys))
     \<and> (\<forall>y \<in> set ys. otp_ID y \<in> new \<or> (\<exists>x \<in> set xs. otp_ID x = otp_ID y \<and> otp_Token x = otp_Token y
          \<and> (otp_UsedAt y = None \<longrightarrow> otp_UsedAt x = None)))"

lemma otps_move_refl [simp]: "otps_move xs xs new"
  unfolding otps_move_def by blast

lemma otps_move_filter: "otps_move xs (filter p xs) new"
  unfolding otps_move_def by (auto simp: distinct_map_filter)

lemma otps_move_hits:
  assumes "\<And>x. otp_ID (f x) = otp_ID x" "\<And>x. otp_Token (f x) = otp_Token x" "\<And>x. otp_UsedAt (f x) = None \<Longrightarrow> otp_UsedAt x = None"
  shows "otps_move xs (map_hits hit f xs) new"
proof -
  have "map otp_ID (map_hits hit f xs) = map otp_ID xs" by (simp add: map_hits_def assms(1))
  moreover have "\<exists>x \<in> set xs. otp_ID x = otp_ID y \<and> otp_Token x = otp_Token y \<and> (otp_UsedAt y = None \<longrightarrow> otp_UsedAt x = None)"
    if "y \<in> set (map_hits hit f xs)" for y
    using that assms unfolding set_map_hits by (elim UnE imageE CollectE conjE) metis+
  ultimately show ?thesis by (simp add: otps_move_def)
qed

inductive portal_reach :: "portal_env \<Rightarrow> 'm portal_db \<Rightarrow> 'm portal_db \<Rightarrow> otp_flight list \<Rightarrow> otp_flight list \<Rightarrow> uuid set \<Rightarrow> bool" for e d0 where
  start: "portal_reach e d0 d0 [] [] (otp_ID ` set (t_otps (tables d0)))"
| create: "portal_reach e d0 d fl gs seen \<Longrightarrow> newid \<notin> seen \<Longrightarrow> CreateOTP dbnow newid email h tok expires d = (r, d') \<Longrightarrow>
    portal_reach e d0 d' fl gs (insert newid seen)"
| magic: "portal_reach e d0 d fl gs seen \<Longrightarrow> newid \<notin> seen \<Longrightarrow> CreateMagicToken e dbnow newid secret email tok expires d = (r, d') \<Longrightarrow>
    portal_reach e d0 d' fl gs (insert newid seen)"
| failure: "portal_reach e d0 d fl gs seen \<Longrightarrow> IncrementAttempts dbnow email d = (r, d') \<Longrightarrow> portal_reach e d0 d' fl gs seen"
| purge: "portal_reach e d0 d fl gs seen \<Longrightarrow> PurgeExpired dbnow email d = (r, d') \<Longrightarrow> portal_reach e d0 d' fl gs seen"
| erase: "portal_reach e d0 d fl gs seen \<Longrightarrow> EraseCandidate email d = (r, d') \<Longrightarrow> portal_reach e d0 d' fl gs seen"
| elsewhere: "portal_reach e d0 d fl gs seen \<Longrightarrow> t_otps (tables d') = t_otps (tables d) \<Longrightarrow> portal_reach e d0 d' fl gs seen"
| look: "portal_reach e d0 d fl gs seen \<Longrightarrow> verify_find e dbnow q d = (Inr found, d') \<Longrightarrow> verify_found found = Inr otp \<Longrightarrow>
    portal_reach e d0 d' (fl @ [(q, otp, dbnow)]) gs seen"
| finish: "portal_reach e d0 d (fl1 @ (q, otp, t) # fl2) gs seen \<Longrightarrow> verify_finish e dbnow now otp d = (r, d') \<Longrightarrow>
    portal_reach e d0 d' (fl1 @ fl2) (case r of Inl x \<Rightarrow> gs | Inr out \<Rightarrow> gs @ [(q, otp, t)]) seen"

definition flight_ok :: "portal_env \<Rightarrow> otp_row list \<Rightarrow> uuid set \<Rightarrow> otp_flight \<Rightarrow> bool" where
  "flight_ok e xs seen = (\<lambda>(q, otp, t). presents e q otp \<and> t < otp_ExpiresAt otp \<and> otp_Attempts otp < maxOTPAttempts \<and> otp_ID otp \<in> seen
     \<and> (\<forall>x \<in> set xs. otp_ID x = otp_ID otp \<longrightarrow> otp_Token x = otp_Token otp))"

definition spent :: "portal_env \<Rightarrow> otp_flight list \<Rightarrow> uuid list" where
  "spent e gs = map (\<lambda>(q, otp, t). otp_ID otp) (filter (\<lambda>(q, otp, t). \<not> demo_token e (otp_Token otp)) gs)"

definition portal_inv :: "portal_env \<Rightarrow> otp_row list \<Rightarrow> otp_flight list \<Rightarrow> otp_flight list \<Rightarrow> uuid set \<Rightarrow> bool" where
  "portal_inv e xs fl gs seen \<longleftrightarrow> distinct (map otp_ID xs) \<and> otp_ID ` set xs \<subseteq> seen \<and> (\<forall>f \<in> set fl \<union> set gs. flight_ok e xs seen f)
     \<and> distinct (spent e gs) \<and> (\<forall>x \<in> set xs. otp_ID x \<in> set (spent e gs) \<longrightarrow> otp_UsedAt x \<noteq> None)"

lemma spent_seen: "\<forall>f \<in> set gs. flight_ok e xs seen f \<Longrightarrow> set (spent e gs) \<subseteq> seen"
  by (auto simp: spent_def flight_ok_def)

lemma portal_inv_move:
  assumes "portal_inv e xs fl gs seen" "otps_move xs ys new" "new \<inter> seen = {}"
  shows "portal_inv e ys fl gs (seen \<union> new)"
proof -
  note i = assms(1) [unfolded portal_inv_def]
  have m: "\<exists>x \<in> set xs. otp_ID x = otp_ID y \<and> otp_Token x = otp_Token y \<and> (otp_UsedAt y = None \<longrightarrow> otp_UsedAt x = None)"
    if "y \<in> set ys" "otp_ID y \<in> seen" for y
    using that assms(2,3) unfolding otps_move_def by blast
  have "otp_ID ` set ys \<subseteq> seen \<union> new"
    using assms(2) i unfolding otps_move_def by (auto, metis imageI subsetD)
  moreover have "flight_ok e ys (seen \<union> new) f" if f: "f \<in> set fl \<union> set gs" for f
  proof -
    obtain q otp t where [simp]: "f = (q, otp, t)" by (cases f)
    from i f have ok: "flight_ok e xs seen f" by blast
    then have "otp_Token y = otp_Token otp" if "y \<in> set ys" "otp_ID y = otp_ID otp" for y
      using m [OF that(1)] that(2) by (auto simp: flight_ok_def)
    with ok show ?thesis by (auto simp: flight_ok_def)
  qed
  moreover have "otp_UsedAt y \<noteq> None" if y: "y \<in> set ys" "otp_ID y \<in> set (spent e gs)" for y
  proof -
    have "otp_ID y \<in> seen" using spent_seen [of gs e xs seen] i y(2) by blast
    from m [OF y(1) this] i y(2) show ?thesis by metis
  qed
  ultimately show ?thesis using i assms(2) by (simp add: portal_inv_def otps_move_def)
qed

lemma otps_stmt_move:
  assumes "pool_stmt f d = (r, d')" "\<And>t. otps_move (t_otps t) (t_otps (snd (f t))) new"
  shows "otps_move (t_otps (tables d)) (t_otps (tables d')) new"
  using pool_stmt_run [OF assms(1)] assms(2) [of "tables d"] by auto

lemma insert_otp_move:
  assumes "insert_otp x d = (r, d')"
  shows "otps_move (t_otps (tables d)) (t_otps (tables d')) {otp_ID x}"
  by (rule otps_stmt_move [OF assms [unfolded insert_otp_def]]) (auto simp: otps_move_def)

lemma count_move:
  assumes "IncrementAttempts dbnow email d = (r, d')"
  shows "otps_move (t_otps (tables d)) (t_otps (tables d')) {}"
  by (rule otps_stmt_move [OF assms [unfolded IncrementAttempts_def]]) (auto intro!: otps_move_hits)

lemma purge_move:
  assumes "PurgeExpired dbnow email d = (r, d')"
  shows "otps_move (t_otps (tables d)) (t_otps (tables d')) {}"
  by (rule otps_stmt_move [OF assms [unfolded PurgeExpired_def]]) (simp add: otps_move_filter del: de_Morgan_conj)

lemma without_email_simps:
  "t_otps (without_email email r) = filter (\<lambda>x. to_lower (otp_Email x) \<noteq> to_lower email) (t_otps r)"
  "t_candidates (without_email email r) = filter (\<lambda>c. cand_ID c \<notin> set (erased_ids email r)) (t_candidates r)"
  "t_applications (without_email email r) = filter (\<lambda>a. app_CandidateID a \<notin> set (erased_ids email r)) (t_applications r)"
  "t_interviews (without_email email r) = filter (\<lambda>iv. iv_ApplicationID iv \<notin> set (erased_apps email r)) (t_interviews r)"
  "t_data_requests (without_email email r) = filter (\<lambda>q. dr_CandidateID q \<notin> set (erased_ids email r)) (t_data_requests r)"
  "t_jobs (without_email email r) = t_jobs r" "t_tokens (without_email email r) = t_tokens r" "t_users (without_email email r) = t_users r"
  by (simp_all add: without_email_def)

lemma erase_move:
  assumes "EraseCandidate email d = (r, d')"
  shows "otps_move (t_otps (tables d)) (t_otps (tables d')) {}"
  by (rule otps_stmt_move [OF assms [unfolded EraseCandidate_def]]) (simp add: otps_move_filter without_email_simps)

text \<open>\<open>Consume\<close> lets a request pass for an unused row, which it marks, or for a demo token.\<close>

definition otps_marked :: "time \<Rightarrow> uuid \<Rightarrow> otp_row list \<Rightarrow> otp_row list" where
  "otps_marked dbnow key = map_hits (\<lambda>x. otp_ID x = key \<and> otp_UsedAt x = None) (\<lambda>x. x\<lparr>otp_UsedAt := Some dbnow\<rparr>)"

lemma otps_marked_move: "otps_move xs (otps_marked dbnow key xs) {}"
  unfolding otps_marked_def by (rule otps_move_hits) simp_all

lemma otps_marked_used: "x \<in> set (otps_marked dbnow key xs) \<Longrightarrow> otp_ID x = key \<Longrightarrow> otp_UsedAt x \<noteq> None"
  unfolding otps_marked_def set_map_hits by (elim UnE imageE CollectE conjE) simp_all

lemma Consume_run:
  assumes "Consume e dbnow key d = (r, d')"
  shows "tables d' = tables d \<and> (r = Inr True \<longrightarrow> (\<exists>x \<in> set (t_otps (tables d)). otp_ID x = key \<and> demo_token e (otp_Token x)))
    \<or> t_otps (tables d') = otps_marked dbnow key (t_otps (tables d))
      \<and> (r = Inr True \<longrightarrow> (\<exists>x \<in> set (t_otps (tables d)). otp_ID x = key \<and> otp_UsedAt x = None))"
proof -
  let ?tok = "\<lambda>r. case find (\<lambda>x. otp_ID x = key) (t_otps r) of None \<Rightarrow> [] | Some x \<Rightarrow> otp_Token x"
  obtain a d1 where a: "pool_stmt (\<lambda>r. (Inr (?tok r), r)) d = (a, d1)" by fastforce
  from pool_stmt_run [OF a] have t1: "tables d1 = tables d" and ta: "a = Inr (?tok (tables d)) \<or> (\<exists>x. a = Inl x)" by auto
  show ?thesis
  proof (cases a)
    case (Inl x)
    with assms a t1 show ?thesis by (auto simp: Consume_def bindE_def)
  next
    case (Inr tok)
    show ?thesis
    proof (cases "demo_token e tok")
      case True
      with assms a Inr have r: "d' = d1" by (simp add: Consume_def bindE_def ret_def)
      from True have "tok \<noteq> []" by (auto simp: demo_token_def has_prefix_def)
      with ta Inr obtain x where "find (\<lambda>x. otp_ID x = key) (t_otps (tables d)) = Some x" "otp_Token x = tok"
        by (auto split: option.splits)
      with True have "\<exists>x \<in> set (t_otps (tables d)). otp_ID x = key \<and> demo_token e (otp_Token x)"
        by (auto simp: find_Some_iff)
      with r t1 show ?thesis by simp
    next
      case False
      with assms a Inr have "pool_stmt (\<lambda>r. (Inr (list_ex (\<lambda>x. otp_ID x = key \<and> otp_UsedAt x = None) (t_otps r)),
          t_otps_update (otps_marked dbnow key) r)) d1 = (r, d')"
        by (simp add: Consume_def bindE_def otps_marked_def)
      from pool_stmt_run [OF this] consider
          "tables d' = t_otps_update (otps_marked dbnow key) (tables d)"
          "r = Inr (\<exists>x \<in> set (t_otps (tables d)). otp_ID x = key \<and> otp_UsedAt x = None)"
        | x where "r = Inl x" "tables d' = tables d"
        unfolding t1 by (auto simp: list_ex_iff)
      then show ?thesis by cases simp_all
    qed
  qed
qed

lemma quiet_Consume: "quiet (Consume e dbnow key)"
  unfolding Consume_def by (intro quiet_intros)

lemma verify_finish_run:
  assumes "verify_finish e dbnow now otp d = (r, d')"
  obtains c d1 where "Consume e dbnow (otp_ID otp) d = (c, d1)" "tables d' = tables d1" "\<And>out. r = Inr out \<Longrightarrow> c = Inr True"
proof -
  obtain c d1 where c: "Consume e dbnow (otp_ID otp) d = (c, d1)" by fastforce
  have "tables d' = tables d1 \<and> (\<forall>out. r = Inr out \<longrightarrow> c = Inr True)"
    using assms c by (cases c) (auto simp: verify_finish_def bindE_def map_error_def fail_if_def lift_def ret_def throw_def split: sum.splits if_splits)
  with c that show ?thesis by blast
qed

lemma portal_inv_less:
  assumes "portal_inv e xs fl gs seen" "set fl' \<subseteq> set fl"
  shows "portal_inv e xs fl' gs seen"
  using assms by (auto simp: portal_inv_def)

lemma spent_append: "spent e (gs @ [(q, otp, t)]) = spent e gs @ (if demo_token e (otp_Token otp) then [] else [otp_ID otp])"
  by (simp add: spent_def)

lemma portal_inv_grant:
  assumes "portal_inv e xs fl gs seen" "(q, otp, t) \<in> set fl"
    and "\<not> demo_token e (otp_Token otp) \<Longrightarrow>
      otp_ID otp \<notin> set (spent e gs) \<and> (\<forall>x \<in> set xs. otp_ID x = otp_ID otp \<longrightarrow> otp_UsedAt x \<noteq> None)"
  shows "portal_inv e xs fl (gs @ [(q, otp, t)]) seen"
  using assms by (auto simp: portal_inv_def spent_append)

lemma portal_inv_finish:
  assumes i: "portal_inv e (t_otps (tables d)) fl gs seen" and f: "(q, otp, t) \<in> set fl"
    and r: "verify_finish e dbnow now otp d = (r, d')"
  shows "portal_inv e (t_otps (tables d')) fl (case r of Inl x \<Rightarrow> gs | Inr out \<Rightarrow> gs @ [(q, otp, t)]) seen"
proof -
  let ?xs = "t_otps (tables d)"
  from r obtain c d1 where c: "Consume e dbnow (otp_ID otp) d = (c, d1)" "tables d' = tables d1" "\<And>out. r = Inr out \<Longrightarrow> c = Inr True"
    by (rule verify_finish_run) blast
  from i f have fo: "flight_ok e ?xs seen (q, otp, t)" by (auto simp: portal_inv_def)
  from Consume_run [OF c(1)] show ?thesis
  proof (elim disjE conjE)
    assume t: "tables d1 = tables d" and g: "c = Inr True \<longrightarrow> (\<exists>x \<in> set ?xs. otp_ID x = otp_ID otp \<and> demo_token e (otp_Token x))"
    have "demo_token e (otp_Token otp)" if "r = Inr out" for out using g c(3) [OF that] fo by (auto simp: flight_ok_def)
    with i f t c(2) show ?thesis by (cases r) (auto intro!: portal_inv_grant)
  next
    assume t: "t_otps (tables d1) = otps_marked dbnow (otp_ID otp) ?xs"
      and g: "c = Inr True \<longrightarrow> (\<exists>x \<in> set ?xs. otp_ID x = otp_ID otp \<and> otp_UsedAt x = None)"
    have "portal_inv e (t_otps (tables d')) fl gs seen"
      using portal_inv_move [OF i otps_marked_move] t c(2) by simp
    moreover have "otp_ID otp \<notin> set (spent e gs)" if "r = Inr out" for out
      using g c(3) [OF that] i by (auto simp: portal_inv_def)
    ultimately show ?thesis using f t c(2) by (cases r) (auto intro!: portal_inv_grant dest: otps_marked_used)
  qed
qed

lemma portal_reach_inv:
  assumes "portal_reach e d0 d fl gs seen" "distinct (map otp_ID (t_otps (tables d0)))"
  shows "portal_inv e (t_otps (tables d)) fl gs seen"
  using assms
proof (induction rule: portal_reach.induct)
  case start
  then show ?case by (simp add: portal_inv_def spent_def)
next
  case (create d fl gs seen newid dbnow email h tok expires r d')
  from insert_otp_move [OF create.hyps(3) [unfolded CreateOTP_def]] portal_inv_move [OF create.IH [OF create.prems], of _ "{newid}"] create.hyps(2)
  show ?case by simp
next
  case (magic d fl gs seen newid dbnow secret email tok expires r d')
  from insert_otp_move [OF magic.hyps(3) [unfolded CreateMagicToken_def]] portal_inv_move [OF magic.IH [OF magic.prems], of _ "{newid}"] magic.hyps(2)
  show ?case by simp
next
  case (failure d fl gs seen dbnow email r d')
  then show ?case using portal_inv_move [OF _ count_move] by fastforce
next
  case (purge d fl gs seen dbnow email r d')
  then show ?case using portal_inv_move [OF _ purge_move] by fastforce
next
  case (erase d fl gs seen email r d')
  then show ?case using portal_inv_move [OF _ erase_move] by fastforce
next
  case (elsewhere d fl gs seen d')
  then show ?case by simp
next
  case (look d fl gs seen dbnow q found d' otp)
  then have i: "portal_inv e (t_otps (tables d)) fl gs seen" by blast
  from look.hyps(3) have o: "found = Some otp" "otp_Attempts otp < maxOTPAttempts"
    by (auto simp: verify_found_def split: option.splits if_splits)
  with verify_find_run [OF look.hyps(2)] obtain x where x: "tables d' = tables d" "presents e q otp" "dbnow < otp_ExpiresAt otp"
    "x \<in> set (t_otps (tables d))" "otp = CandidateOTP.truncate x" by auto
  have "y = x" if "y \<in> set (t_otps (tables d))" "otp_ID y = otp_ID x" for y
    using i x(4) that by (auto simp: portal_inv_def distinct_map inj_on_def)
  then have "flight_ok e (t_otps (tables d)) seen (q, otp, dbnow)"
    using x o(2) i by (auto simp: flight_ok_def portal_inv_def)
  with i x(1) show ?case by (auto simp: portal_inv_def)
next
  case (finish d fl1 q otp t fl2 gs seen dbnow now r d')
  then have "portal_inv e (t_otps (tables d)) (fl1 @ (q, otp, t) # fl2) gs seen" by blast
  from portal_inv_finish [OF this _ finish.hyps(2), of q t] show ?case by (simp add: portal_inv_less [where fl = "fl1 @ (q, otp, t) # fl2"] subset_iff)
qed

text \<open>A call of the handler that answers with a token is a lookup and a \<open>finish\<close>, with the other requests between them.\<close>

lemma VerifyOTP_run:
  assumes "VerifyOTP e world dbnow now (Some q) d = (Inr (jwt, email, expiry), d')"
  obtains otp d1 where "verify_find e dbnow q d = (Inr (Some otp), d1)" "verify_found (Some otp) = Inr otp"
    "verify_finish e dbnow now otp (world 1 (world 0 d1)) = (Inr (jwt, email, expiry), d')"
    "email = otp_Email otp" "fired d' = fired (world 1 (world 0 d1)) @ [LoggedIn jwt]"
proof -
  obtain f d1 where f: "verify_find e dbnow q d = (f, d1)" by fastforce
  from assms f obtain found where r: "f = Inr found"
    by (cases f) (auto simp: VerifyOTP_def bindE_def throw_def split: if_splits)
  obtain n d2 where n: "note_failure dbnow q found (world 0 d1) = (n, d2)" by fastforce
  from assms f r n have g: "n = Inr ()" "bindE (lift (verify_found found)) (\<lambda>otp d. verify_finish e dbnow now otp (world 1 d)) d2 = (Inr (jwt, email, expiry), d')"
    by (cases n; auto simp: VerifyOTP_def bindE_def throw_def split: if_splits)+
  then obtain otp where o: "found = Some otp" "verify_found found = Inr otp" "verify_finish e dbnow now otp (world 1 d2) = (Inr (jwt, email, expiry), d')"
    by (auto simp: bindE_def lift_def verify_found_def split: option.splits if_splits)
  from n o(1) have [simp]: "d2 = world 0 d1" by (simp add: note_failure_def ret_def)
  from o(3) obtain c d3 where c: "Consume e dbnow (otp_ID otp) (world 1 (world 0 d1)) = (c, d3)"
    and "email = otp_Email otp \<and> fired d' = fired d3 @ [LoggedIn jwt]"
    by (cases "Consume e dbnow (otp_ID otp) (world 1 (world 0 d1))")
      (auto simp: verify_finish_def bindE_def map_error_def fail_if_def lift_def ret_def throw_def split: sum.splits if_splits)
  moreover have "fired d3 = fired (world 1 (world 0 d1))" using quietD [OF quiet_Consume c] by simp
  ultimately show ?thesis using that f r o by simp
qed



definition demo_portal_env :: portal_env where
  "demo_portal_env = \<lparr>pe_hash = (\<lambda>s. s), pe_Issue = Inr, pe_Parse = (\<lambda>s. Inr (TokenTypeCandidate, s)), pe_demo = False, pe_queue = True,
     pe_publicURL = ''https://x'', pe_format = (\<lambda>t. []), pe_score = (\<lambda>s. None), pe_recommendation = (\<lambda>s. [])\<rparr>"

definition demo_portal_db :: "unit portal_db" where
  "demo_portal_db = \<lparr>tables = \<lparr>t_jobs = [], t_question_sets = [], t_candidates = [], t_applications = [], t_contexts = [], t_prompts = [],
       t_job_contexts = [], t_interviews = [], t_tokens = [], t_bank = [], t_users = [], t_otps = [], t_data_requests = [], t_org_rows = []\<rparr>,
     tenant = None, in_tx = False, aborted = False, saved = [], faults = [], pending = [], fired = []\<rparr>"

definition demo_portal_asked :: "unit portal_db" where
  "demo_portal_asked = snd (RequestOTP demo_portal_env (\<lambda>k. 100) 100 ''k'' ''tok'' (Inr 42) (Some '' A@b.c'') demo_portal_db)"

definition demo_login :: "unit portal_db \<Rightarrow> (string \<times> string \<times> string) result \<times> unit portal_db" where
  "demo_login = VerifyOTP demo_portal_env (\<lambda>k d. d) 200 200 (Some \<lparr>vr_Email = ''a@b.c'', vr_Code = ''000042'', vr_Token = []\<rparr>)"

lemma demo_login_once:
  "fst (demo_login demo_portal_asked) = Inr (''a@b.c'', ''a@b.c'', [])"
  "fst (demo_login (snd (demo_login demo_portal_asked))) = Inl (DomainError ''UNAUTHORIZED'' ''invalid or expired verification code'')"
  by code_simp+


section \<open>What the erasure does\<close>

definition with_requests :: "data_request list \<Rightarrow> 'm portal_tables_scheme \<Rightarrow> 'm portal_tables_scheme" where
  "with_requests qs r = r\<lparr>t_data_requests := t_data_requests r @ qs\<rparr>"

lemma with_requests_eq: "t_data_requests_update (\<lambda>xs. xs @ qs) r = with_requests qs r"
  by (cases r) (simp add: with_requests_def)

lemma LogDataRequest_run:
  assumes "LogDataRequest dbnow email action d = (r, d')"
  obtains qs where "tables d' = with_requests qs (tables d)" "fired d' = fired d"
proof -
  let ?qs = "map (\<lambda>c. \<lparr>dr_CandidateID = cand_ID c, dr_OrgID = cand_OrgID c, dr_Action = action, dr_CompletedAt = dbnow\<rparr>)
    (filter (of_email email) (t_candidates (tables d)))"
  from pool_stmt_run [OF assms [unfolded LogDataRequest_def]]
  have "tables d' = with_requests ?qs (tables d) \<or> tables d' = with_requests [] (tables d)" "fired d' = fired d"
    by (auto simp: with_requests_eq with_requests_def [of "[]"] split: if_splits)
  with that show ?thesis by blast
qed

lemma erased_requests [simp]:
  "erased_ids email (with_requests qs r) = erased_ids email r" "erased_apps email (with_requests qs r) = erased_apps email r"
  "erased_interviews email (with_requests qs r) = erased_interviews email r" "t_tokens (with_requests qs r) = t_tokens r"
  "t_candidates (with_requests qs r) = t_candidates r" "t_applications (with_requests qs r) = t_applications r"
  "t_interviews (with_requests qs r) = t_interviews r" "t_otps (with_requests qs r) = t_otps r" "t_jobs (with_requests qs r) = t_jobs r"
  "t_users (with_requests qs r) = t_users r"
  by (simp_all add: erased_ids_def erased_apps_def erased_interviews_def with_requests_def)

definition invited_of :: "string \<Rightarrow> 'm portal_tables_scheme \<Rightarrow> bool" where
  "invited_of email r \<longleftrightarrow> (\<exists>t \<in> set (t_tokens r). it_InterviewID t \<in> set (erased_interviews email r))"

lemma DeleteMe_run:
  assumes "DeleteMe dbnow email d = (r, d')"
  obtains (refused) x qs where "r = Inl x" "tables d' = with_requests qs (tables d)" "fired d' = fired d"
  | (erased) qs where "r = Inr ()" "\<not> invited_of email (tables d)" "fired d' = fired d @ [LoggedOut]"
      "tables d' = without_email email (with_requests qs (tables d))"
proof (cases "email = []")
  case True
  with assms show ?thesis by (intro refused [where qs = "[]"]) (auto simp: DeleteMe_def throw_def with_requests_def)
next
  case False
  obtain a d1 where a: "LogDataRequest dbnow email ''delete'' d = (a, d1)" by fastforce
  from LogDataRequest_run [OF a] obtain qs where q: "tables d1 = with_requests qs (tables d)" "fired d1 = fired d" by blast
  obtain b d2 where b: "EraseCandidate email d1 = (b, d2)" by fastforce
  have e: "fired d2 = fired d" "b = Inr () \<Longrightarrow> \<not> invited_of email (tables d) \<and> tables d2 = without_email email (tables d1)"
    "b = Inl x \<Longrightarrow> tables d2 = tables d1" for x
    using pool_stmt_run [OF b [unfolded EraseCandidate_def]] q by (auto simp: invited_of_def list_ex_iff split: if_splits)
  show ?thesis
  proof (cases b)
    case (Inl x)
    with assms False a b obtain y where "r = Inl y" "d' = d2"
      by (auto simp: DeleteMe_def bindE_def attempt_def map_error_def)
    with e(1) e(3) [OF Inl] q show ?thesis by (intro refused) auto
  next
    case (Inr u)
    with assms False a b have "r = Inr ()" "d' = d2\<lparr>fired := fired d2 @ [LoggedOut]\<rparr>"
      by (auto simp: DeleteMe_def bindE_def attempt_def map_error_def portal_Logout_def)
    with e(1,2) Inr q show ?thesis by (intro erased) auto
  qed
qed

lemma of_email_erased:
  assumes "distinct (map cand_ID (t_candidates r))" "c \<in> set (t_candidates r)"
  shows "cand_ID c \<in> set (erased_ids email r) \<longleftrightarrow> of_email email c"
  using assms by (auto simp: erased_ids_def distinct_map inj_on_def)

lemma lookup_without_email: "applications_lookup e email (without_email email r) = []"
proof -
  have "filter (of_email email) (t_candidates (without_email email r)) = []"
    by (auto simp: without_email_simps erased_ids_def filter_empty_conv)
  then show ?thesis by (simp add: applications_lookup_def newest_first_def)
qed


text \<open>A candidate with two accounts, one of them invited or not, beside somebody else.\<close>

definition demo_person :: "uuid \<Rightarrow> string \<Rightarrow> Candidate" where
  "demo_person key email = \<lparr>cand_ID = key, cand_CreatedAt = 0, cand_OrgID = ''o'', cand_Name = ''A'', cand_Email = email, cand_CVPath = [],
     cand_CVFormat = [], cand_CVRawText = [], cand_CVStructured = [], cand_CVOCRMethod = [], cand_Status = cv_StatusNew,
     cand_ErrorMessage = [], cand_BatchID = None, cand_ReviewToken = None\<rparr>"

definition demo_interview :: Interview where
  "demo_interview = \<lparr>iv_ID = ''i'', iv_CreatedAt = 0, iv_UpdatedAt = 0, iv_OrgID = ''o'', iv_ApplicationID = ''a1'', iv_Status = Pending,
     Questions = [], Answers = [], QAPairs = [], LastQuestionIdx = 0, ContextVersion = 0, iv_Evaluation = None, ConsentGiven = False,
     HumanRequested = False, ProctoringEvents = [], iv_Summary = empty_summary, CodingSessions = [], StartedAt = None,
     CompletedAt = None, ExpiresAt = None, lastActivity = 0\<rparr>"

definition demo_known :: "InvitationToken list \<Rightarrow> unit portal_db" where
  "demo_known invitations = demo_portal_db\<lparr>tables := (tables demo_portal_db)\<lparr>
     t_candidates := [demo_person ''c1'' ''a@b.c'', demo_person ''c2'' ''x@y.z'', demo_person ''c3'' ''A@B.c''],
     t_applications := [NewApplication ''a1'' 0 ''o'' ''c1'' ''j'', NewApplication ''a2'' 0 ''o'' ''c2'' ''j''],
     t_interviews := [demo_interview], t_tokens := invitations\<rparr>\<rparr>"

definition demo_invitation :: InvitationToken where
  "demo_invitation = \<lparr>it_ID = ''t'', it_OrgID = ''o'', it_InterviewID = ''i'', it_Token = ''tok'', it_ExpiresAt = 9, it_UsedAt = None,
     it_RevokedAt = None, it_CreatedAt = 0\<rparr>"

lemma invited_never_erased: "fst (DeleteMe 5 ''a@b.c'' (demo_known [demo_invitation])) = Inl (internal_error ''failed to erase candidate data'')"
  by code_simp


text \<open>
  The limit of codes per day counts rows, and every request first deletes the expired ones: requests eleven minutes apart
  never reach it.
\<close>

definition asked_again :: "nat \<Rightarrow> unit portal_db \<Rightarrow> unit portal_db" where
  "asked_again k = (\<lambda>d. snd (RequestOTP demo_portal_env (\<lambda>i. int k * 11 * minute) (int k * 11 * minute) (itoa_nat k) (itoa_nat k) (Inr k)
     (Some ''a@b.c'') d))"

lemma daily_limit_never_reached:
  "map otp_Token (t_otps (tables (fold asked_again [1, 2, 3, 4, 5, 6, 7, 8] demo_portal_db))) = [''8'']"
  by code_simp

text \<open>Failures count against every live row of the e-mail, so they also close the magic link somebody else was sent.\<close>

definition wrong_code :: "unit portal_db \<Rightarrow> unit portal_db" where
  "wrong_code = (\<lambda>d. snd (VerifyOTP demo_portal_env (\<lambda>k d. d) 200 200 (Some \<lparr>vr_Email = ''a@b.c'', vr_Code = ''1'', vr_Token = []\<rparr>) d))"

lemma failures_close_magic_link:
  "fst (VerifyOTP demo_portal_env (\<lambda>k d. d) 300 300 (Some \<lparr>vr_Email = [], vr_Code = [], vr_Token = ''tok''\<rparr>)
     (fold (\<lambda>_. wrong_code) [0::nat, 1, 2, 3, 4] (snd (CreateMagicToken demo_portal_env 100 ''k'' ''secret'' ''a@b.c'' ''tok'' 1000 demo_portal_db))))
   = Inl (DomainError ''TOO_MANY_REQUESTS'' ''too many attempts, request a new code'')"
  by code_simp

end
