(* ===== verification/Job_Service.thy ===== *)
theory Job_Service
  imports CV_Ingestion Question_Generation
begin

text \<open>
  The jobs of an organization (\<open>src/backend/internal/job/application\<close>): the use cases of \<open>job_service.go\<close>, the worker that
  asks the model for the questions of a published job (\<open>question_worker.go\<close>) and the one that asks for its rubric
  (\<open>rubric_worker.go\<close>).

  The use cases run inside the request's transaction; what they queue waits for its commit (\<open>AfterCommit\<close>). The hook
  only logs what it fails to queue, so its value is the list of the tasks it asks for. Parameters: JSON, the UUID parser
  and the model. \<open>world\<close> is what others do while the model answers.
\<close>

section \<open>Commands and results\<close>

record CreateJobCommand =
  cj_Title :: string
  cj_Description :: string
  cj_Location :: string
  cj_EmploymentType :: string
  cj_SalaryMin :: "int option"
  cj_SalaryMax :: "int option"
  cj_Currency :: string
  cj_RequiredSkills :: "string list"
  cj_MinExperience :: int
  cj_Responsibilities :: "string list"
  cj_Requirements :: "string list"
  cj_NiceToHaves :: "string list"
  cj_Benefits :: "string list"
  cj_ScoringWeights :: "(string \<times> rat) list"
  cj_MinScoreToProceed :: "rat option"

text \<open>\<open>None\<close> is the nil that keeps a field.\<close>

record UpdateJobCommand =
  uj_JobID :: uuid
  uj_Title :: "string option"
  uj_Description :: "string option"
  uj_Location :: "string option"
  uj_EmploymentType :: "string option"
  uj_SalaryMin :: "int option"
  uj_SalaryMax :: "int option"
  uj_Currency :: "string option"
  uj_RequiredSkills :: "string list option"
  uj_MinExperience :: "int option"
  uj_Responsibilities :: "string list option"
  uj_Requirements :: "string list option"
  uj_NiceToHaves :: "string list option"
  uj_Benefits :: "string list option"
  uj_ScoringWeights :: "(string \<times> rat) list option"
  uj_MinScoreToProceed :: "rat option"
  uj_Status :: string
  uj_IsPublished :: "bool option"

record JobResult =
  jo_ID :: uuid
  jo_Title :: string
  jo_Description :: string
  jo_Location :: string
  jo_EmploymentType :: string
  jo_SalaryMin :: "int option"
  jo_SalaryMax :: "int option"
  jo_Currency :: string
  jo_RequiredSkills :: "string list"
  jo_MinExperience :: int
  jo_Responsibilities :: "string list"
  jo_Requirements :: "string list"
  jo_NiceToHaves :: "string list"
  jo_Benefits :: "string list"
  jo_ScoringWeights :: "(string \<times> rat) list option"
  jo_MinScoreToProceed :: "rat option"
  jo_Status :: string
  jo_ProctoringMode :: string
  jo_IsPublished :: bool
  jo_Rubric :: string
  jo_QuestionSetError :: string
  jo_CreatedAt :: time

definition toResult :: "Job \<Rightarrow> JobResult" where
  "toResult j = \<lparr>jo_ID = job_ID j, jo_Title = job_Title j, jo_Description = job_Description j, jo_Location = job_Location j,
     jo_EmploymentType = job_EmploymentType j, jo_SalaryMin = job_SalaryMin j, jo_SalaryMax = job_SalaryMax j,
     jo_Currency = job_Currency j, jo_RequiredSkills = job_RequiredSkills j, jo_MinExperience = job_MinExperience j,
     jo_Responsibilities = job_Responsibilities j, jo_Requirements = job_Requirements j, jo_NiceToHaves = job_NiceToHaves j,
     jo_Benefits = job_Benefits j, jo_ScoringWeights = job_ScoringWeights j, jo_MinScoreToProceed = job_MinScoreToProceed j,
     jo_Status = job_Status j, jo_ProctoringMode = job_ProctoringMode j, jo_IsPublished = job_IsPublished j,
     jo_Rubric = job_Rubric j, jo_QuestionSetError = job_QuestionSetError j, jo_CreatedAt = job_CreatedAt j\<rparr>"


section \<open>What a change of a job queues\<close>

definition TaskGenerateQuestionSet :: string where "TaskGenerateQuestionSet = ''generate_question_set''"

text \<open>A task, with its identity where it is given one.\<close>

datatype job_task =
    GenerateRubric uuid uuid \<comment> \<open>job, organization\<close>
  | GenerateQuestionSet string uuid uuid time \<comment> \<open>task identity, job, organization, version of the row\<close>

datatype job_effect = Queue "job_task list"

type_synonym 'm job_db = "('m, job_effect) core_db"

definition questionSetTaskID :: "uuid \<Rightarrow> time \<Rightarrow> string" where
  "questionSetTaskID jobID updatedAt = TaskGenerateQuestionSet @ '':'' @ jobID @ '':'' @ itoa updatedAt"

definition enqueueRubric :: "bool \<Rightarrow> uuid \<Rightarrow> uuid \<Rightarrow> job_task list" where
  "enqueueRubric queue orgID jobID = (if queue then [GenerateRubric jobID orgID] else [])"

definition enqueueQuestionSet :: "bool \<Rightarrow> uuid \<Rightarrow> uuid \<Rightarrow> time \<Rightarrow> bool \<Rightarrow> job_task list" where
  "enqueueQuestionSet queue orgID jobID updatedAt published =
     (if \<not> queue \<or> \<not> published then [] else [GenerateQuestionSet (questionSetTaskID jobID updatedAt) jobID orgID updatedAt])"

definition publish_hook :: "bool \<Rightarrow> Job \<Rightarrow> job_effect" where
  "publish_hook queue j = Queue (enqueueRubric queue (job_OrgID j) (job_ID j)
     @ enqueueQuestionSet queue (job_OrgID j) (job_ID j) (job_UpdatedAt j) (job_IsPublished j))"


section \<open>The use cases\<close>

definition non_empty :: "'a list \<Rightarrow> 'a list \<Rightarrow> 'a list" where
  "non_empty new old = (if new \<noteq> [] then new else old)"

definition created_job :: "CreateJobCommand \<Rightarrow> Job \<Rightarrow> Job" where
  "created_job cmd j = j\<lparr>job_Location := non_empty (cj_Location cmd) (job_Location j),
     job_EmploymentType := non_empty (cj_EmploymentType cmd) (job_EmploymentType j), job_SalaryMin := cj_SalaryMin cmd,
     job_SalaryMax := cj_SalaryMax cmd, job_Currency := non_empty (cj_Currency cmd) (job_Currency j),
     job_Responsibilities := non_empty (cj_Responsibilities cmd) (job_Responsibilities j),
     job_Requirements := non_empty (cj_Requirements cmd) (job_Requirements j),
     job_NiceToHaves := non_empty (cj_NiceToHaves cmd) (job_NiceToHaves j), job_Benefits := non_empty (cj_Benefits cmd) (job_Benefits j)\<rparr>"

definition JobService_Create :: "bool \<Rightarrow> uuid \<Rightarrow> time \<Rightarrow> AuthContext \<Rightarrow> CreateJobCommand \<Rightarrow> ('m job_db, JobResult) op" where
  "JobService_Create queue newid now actor cmd =
     bindE (check (Authorize actor [RoleAdmin, RoleRecruiter])) (\<lambda>_.
     bindE (lift (NewJob newid now (ac_OrgID actor) (trim_space (cj_Title cmd)) (trim_space (cj_Description cmd))
       (cj_RequiredSkills cmd) (cj_MinExperience cmd))) (\<lambda>j0.
     bindE (lift (job_SetScoringWeights (cj_ScoringWeights cmd) (created_job cmd j0))) (\<lambda>j1.
     let j = j1\<lparr>job_MinScoreToProceed := cj_MinScoreToProceed cmd\<rparr> in
     bindE (job_Create j) (\<lambda>_.
     bindE (AfterCommit (publish_hook queue j)) (\<lambda>_. ret (toResult j))))))"

definition keep :: "'a option \<Rightarrow> 'a \<Rightarrow> 'a" where
  "keep new old = (case new of None \<Rightarrow> old | Some x \<Rightarrow> x)"

definition keep_opt :: "'a option \<Rightarrow> 'a option \<Rightarrow> 'a option" where
  "keep_opt new old = (case new of None \<Rightarrow> old | Some x \<Rightarrow> Some x)"

definition patched_job :: "UpdateJobCommand \<Rightarrow> Job \<Rightarrow> Job" where
  "patched_job cmd j = j\<lparr>job_Title := keep (map_option trim_space (uj_Title cmd)) (job_Title j),
     job_Description := keep (map_option trim_space (uj_Description cmd)) (job_Description j),
     job_RequiredSkills := keep (uj_RequiredSkills cmd) (job_RequiredSkills j),
     job_MinExperience := keep (uj_MinExperience cmd) (job_MinExperience j),
     job_Location := keep (map_option trim_space (uj_Location cmd)) (job_Location j),
     job_EmploymentType := keep (map_option trim_space (uj_EmploymentType cmd)) (job_EmploymentType j),
     job_SalaryMin := keep_opt (uj_SalaryMin cmd) (job_SalaryMin j), job_SalaryMax := keep_opt (uj_SalaryMax cmd) (job_SalaryMax j),
     job_Currency := keep (map_option trim_space (uj_Currency cmd)) (job_Currency j),
     job_Responsibilities := keep (uj_Responsibilities cmd) (job_Responsibilities j),
     job_Requirements := keep (uj_Requirements cmd) (job_Requirements j),
     job_NiceToHaves := keep (uj_NiceToHaves cmd) (job_NiceToHaves j), job_Benefits := keep (uj_Benefits cmd) (job_Benefits j),
     job_MinScoreToProceed := keep_opt (uj_MinScoreToProceed cmd) (job_MinScoreToProceed j),
     job_Status := (if uj_Status cmd \<noteq> [] then uj_Status cmd else job_Status j),
     job_IsPublished := keep (uj_IsPublished cmd) (job_IsPublished j)\<rparr>"

definition reweighted_job :: "UpdateJobCommand \<Rightarrow> Job \<Rightarrow> Job result" where
  "reweighted_job cmd j = (case uj_ScoringWeights cmd of None \<Rightarrow> Inr j
   | Some w \<Rightarrow> if job_IsPublished j then Inl (DomainError ''JOB_WEIGHTS_LOCKED'' ''scoring weights are frozen once the job is published'')
       else job_SetScoringWeights w j)"

definition JobService_Update :: "bool \<Rightarrow> time \<Rightarrow> AuthContext \<Rightarrow> UpdateJobCommand \<Rightarrow> ('m job_db, JobResult) op" where
  "JobService_Update queue dbnow actor cmd =
     bindE (check (Authorize actor [RoleAdmin, RoleRecruiter])) (\<lambda>_.
     bindE (map_error (\<lambda>e. if err_is e job_ErrNotFound then NotFoundError ''job'' (uj_JobID cmd) else e)
       (job_GetByIDForUpdate (uj_JobID cmd))) (\<lambda>j0.
     bindE (fail_if (job_OrgID j0 \<noteq> ac_OrgID actor) (DomainError ''FORBIDDEN'' ''job belongs to another org'')) (\<lambda>_.
     bindE (lift (reweighted_job cmd (patched_job cmd j0))) (\<lambda>j1.
     bindE (check (ValidateJobFields (job_Title j1) (job_Description j1) (job_MinExperience j1) (job_Status j1))) (\<lambda>_.
     bindE (job_Update dbnow j1) (\<lambda>j.
     bindE (AfterCommit (publish_hook queue j)) (\<lambda>_. ret (toResult j))))))))"

definition JobService_Get :: "AuthContext \<Rightarrow> uuid \<Rightarrow> (('m, 'h) core_db, JobResult) op" where
  "JobService_Get actor key =
     bindE (map_error (\<lambda>e. if err_is e job_ErrNotFound then NotFoundError ''job'' key else e) (job_GetByID key)) (\<lambda>j.
     bindE (fail_if (job_OrgID j \<noteq> ac_OrgID actor) (DomainError ''FORBIDDEN'' ''job belongs to another org'')) (\<lambda>_. ret (toResult j)))"

definition JobService_List :: "AuthContext \<Rightarrow> (('m, 'h) core_db, JobResult list) op" where
  "JobService_List actor = bindE (job_List (ac_OrgID actor)) (\<lambda>js. ret (map toResult js))"

section \<open>The worker that generates the questions\<close>

definition QuestionSourceLLM :: string where "QuestionSourceLLM = ''llm''"
definition questionSetErrorMaxLen :: nat where "questionSetErrorMaxLen = 300"
definition questionSetCount :: nat where "questionSetCount = 8"

record questionSchema =
  ls_Category :: string
  ls_Prompt :: string
  ls_Context :: string
  ls_Expectation :: string
  ls_Skill :: string
  ls_Priority :: int

text \<open>What the model's client hands back: nothing, the schema it filled, or another value, which takes the way through JSON.\<close>

datatype question_payload =
    NoPayload
  | FilledSchema "questionSchema list"
  | Unreadable string \<comment> \<open>it cannot be encoded\<close>
  | Undecodable string \<comment> \<open>its encoding does not fit the schema\<close>
  | Reencoded "questionSchema list"

record question_worker =
  qw_DecodePayload :: "string \<Rightarrow> (string \<times> string \<times> time) result" \<comment> \<open>job, organization, version\<close>
  qw_ParseUUID :: "string \<Rightarrow> uuid result"
  qw_DecodeSet :: "string \<Rightarrow> QuestionSet result"
  qw_EncodeSet :: "QuestionSet \<Rightarrow> string"
  qw_MarshalInput :: "Job \<Rightarrow> string result"
  qw_Ask :: "string \<Rightarrow> string \<Rightarrow> string \<Rightarrow> question_payload result" \<comment> \<open>organization, system prompt, input\<close>

definition question_system :: string where
  "question_system = join_with newline [''You are an expert technical interviewer.'',
     ''Generate '' @ itoa_nat questionSetCount @ '' interview questions for the job below. Every question must be'',
     ''SELF-EXPLANATORY: the candidate is told why it is asked and what a good answer'', ''shows.'', '''', ''Rules:'',
     ''- \"category\" is exactly one of: '' @ go_quote ''technical'' @ '', '' @ go_quote ''behavioral'' @ '', '' @ go_quote ''situational'' @ ''.'',
     ''- \"prompt\" is the question the candidate hears (one sentence, no preamble).'',
     ''- \"context\" explains why this question is asked FOR THIS JOB.'',
     ''- \"expectation\" states what a strong answer demonstrates.'',
     ''- \"skill\" is the related required skill when the question targets one, else \"\".'',
     ''- \"priority\": 1 = probes a gap in the requirements, 2 = verifies claimed depth, 3 = general.'',
     ''- NEVER ask about age, marital or family status, religion, politics, gender,'',
     ''  ethnicity, disability or any protected characteristic.'',
     ''- Cover the required skills first, then behavioral and situational judgement.'', '''',
     ''Output JSON exactly matching this schema:'', ''{'', ''  \"questions\": ['',
     ''    {\"category\": \"string\", \"prompt\": \"string\", \"context\": \"string\", \"expectation\": \"string\", \"skill\": \"string\", \"priority\": 1}'',
     ''  ]'', ''}'']"

definition coerceQuestionSchema :: "question_payload \<Rightarrow> questionSchema list result" where
  "coerceQuestionSchema out = (case out of
     NoPayload \<Rightarrow> Inl (invalid_set ''provider returned no payload'')
   | FilledSchema qs \<Rightarrow> Inr qs
   | Unreadable m \<Rightarrow> Inl (invalid_set (''unreadable payload: '' @ m))
   | Undecodable m \<Rightarrow> Inl (invalid_set m)
   | Reencoded qs \<Rightarrow> Inr qs)"

definition llm_question :: "questionSchema \<Rightarrow> JobQuestion" where
  "llm_question q = \<lparr>jq_Category = NormalizeQuestionCategory (ls_Category q), jq_Prompt = trim_space (ls_Prompt q),
     jq_Context = trim_space (ls_Context q), jq_Expectation = trim_space (ls_Expectation q),
     jq_Skill = to_lower (trim_space (ls_Skill q)), jq_Priority = ls_Priority q\<rparr>"

definition llm_biased :: "JobQuestion \<Rightarrow> bool" where
  "llm_biased q \<longleftrightarrow> IsBiased (jq_Prompt q) \<or> IsBiased (jq_Context q) \<or> IsBiased (jq_Expectation q) \<or> IsBiased (jq_Skill q)"

fun accept_questions :: "nat \<Rightarrow> questionSchema list \<Rightarrow> JobQuestion list result" where
  "accept_questions i [] = Inr []"
| "accept_questions i (q # qs) = (let candidate = llm_question q in case question_Validate candidate of
     Some e \<Rightarrow> Inl (Wrapped (''question '' @ itoa_nat i) e)
   | None \<Rightarrow> (case accept_questions (i + 1) qs of
         Inl e \<Rightarrow> Inl e
       | Inr out \<Rightarrow> Inr (if llm_biased candidate then out else candidate # out)))"

definition decodeLLMQuestions :: "question_payload \<Rightarrow> JobQuestion list result" where
  "decodeLLMQuestions out = (case coerceQuestionSchema out of
     Inl e \<Rightarrow> Inl e
   | Inr [] \<Rightarrow> Inl (invalid_set ''provider returned no questions'')
   | Inr qs \<Rightarrow> (case accept_questions 0 qs of
         Inl e \<Rightarrow> Inl e
       | Inr [] \<Rightarrow> Inl (invalid_set ''every generated question was bias-filtered'')
       | Inr out \<Rightarrow> Inr out))"

definition generate :: "question_worker \<Rightarrow> Job \<Rightarrow> JobQuestion list result" where
  "generate qw j = (case qw_MarshalInput qw j of
     Inl e \<Rightarrow> Inl (Wrapped ''marshal question input'' e)
   | Inr input \<Rightarrow> (case qw_Ask qw (job_OrgID j) question_system input of
         Inl e \<Rightarrow> Inl e
       | Inr out \<Rightarrow> decodeLLMQuestions out))"

text \<open>The count of retries and their maximum, where the context knows them.\<close>

definition retriesExhausted :: "int option \<Rightarrow> int option \<Rightarrow> bool" where
  "retriesExhausted retried maxRetry = (case retried of None \<Rightarrow> False
     | Some n \<Rightarrow> (case maxRetry of None \<Rightarrow> False | Some m \<Rightarrow> 0 < m \<and> m \<le> n))"

definition safeQuestionSetError :: "error \<Rightarrow> string" where
  "safeQuestionSetError cause = (let msg = trim_space (error_text cause) in
     take questionSetErrorMaxLen (if msg = [] then ''question set generation failed'' else msg))"

text \<open>The columns of the row that the worker writes; both statements stamp \<open>updated_at\<close>.\<close>

definition job_hit :: "uuid \<Rightarrow> uuid option \<Rightarrow> Job \<Rightarrow> bool" where
  "job_hit key t x \<longleftrightarrow> job_ID x = key \<and> sees_job t x"

definition storeQuestionSet :: "time \<Rightarrow> uuid \<Rightarrow> string \<Rightarrow> time \<Rightarrow> (('m, 'h) core_db, bool) op" where
  "storeQuestionSet dbnow key raw version = exec (\<lambda>t r.
     let hit = (\<lambda>x. job_hit key t x \<and> job_UpdatedAt x = version) in
     if list_ex hit (t_jobs r)
     then Inr (False, t_question_sets_update (\<lambda>m. (key, raw) # filter (\<lambda>p. fst p \<noteq> key) m)
       (t_jobs_update (map_hits hit (\<lambda>x. x\<lparr>job_QuestionSetError := [], job_UpdatedAt := dbnow\<rparr>)) r))
     else Inr (True, r))"

definition storeQuestionSetError :: "time \<Rightarrow> uuid \<Rightarrow> string \<Rightarrow> (('m, 'h) core_db, unit) op" where
  "storeQuestionSetError dbnow key msg = unit_of (update_rows t_jobs t_jobs_update (\<lambda>t r. job_hit key t)
     (\<lambda>x. x\<lparr>job_QuestionSetError := msg, job_UpdatedAt := dbnow\<rparr>))"

definition question_fail :: "time \<Rightarrow> int option \<Rightarrow> int option \<Rightarrow> string \<Rightarrow> string \<Rightarrow> uuid \<Rightarrow> error \<Rightarrow> (('m, 'h) core_db, unit) op" where
  "question_fail dbnow retried maxRetry orgID jobID key cause =
     bindE (attempt (RunInTx orgID (storeQuestionSetError dbnow key (safeQuestionSetError cause)))) (\<lambda>_.
     throw (if retriesExhausted retried maxRetry then SkipRetry else Wrapped (''generate question set for job '' @ jobID) cause))"

definition question_load :: "string \<Rightarrow> uuid \<Rightarrow> (('m, 'h) core_db, Job \<times> string) op" where
  "question_load orgID key = RunInTx orgID (
     bindE (map_error (\<lambda>e. if err_is e job_ErrNotFound then SkipRetry else e) (job_GetByID key)) (\<lambda>j.
     bindE (LoadQuestionSet key) (\<lambda>stored. ret (j, stored))))"

text \<open>The set to store, or why there is none.\<close>

definition question_set :: "question_worker \<Rightarrow> time \<Rightarrow> Job \<Rightarrow> string result" where
  "question_set qw now j = (case generate qw j of Inl e \<Rightarrow> Inl e
     | Inr qs \<Rightarrow> Marshal (qw_EncodeSet qw) (Some (NewQuestionSet QuestionSourceLLM qs now)))"

definition question_finish ::
  "question_worker \<Rightarrow> time \<Rightarrow> time \<Rightarrow> int option \<Rightarrow> int option \<Rightarrow> string \<Rightarrow> string \<Rightarrow> uuid \<Rightarrow> time \<Rightarrow> Job \<Rightarrow> (('m, 'h) core_db, unit) op" where
  "question_finish qw now dbnow retried maxRetry orgID jobID key updatedAt j = (case question_set qw now j of
     Inl e \<Rightarrow> question_fail dbnow retried maxRetry orgID jobID key e
   | Inr raw \<Rightarrow> unit_of (RunInTx orgID (storeQuestionSet dbnow key raw (if updatedAt = 0 then job_UpdatedAt j else updatedAt))))"

definition question_handle ::
  "question_worker \<Rightarrow> time \<Rightarrow> time \<Rightarrow> int option \<Rightarrow> int option \<Rightarrow> (('m, 'h) core_db \<Rightarrow> ('m, 'h) core_db) \<Rightarrow> string \<Rightarrow> (('m, 'h) core_db, unit) op" where
  "question_handle qw now dbnow retried maxRetry world task = (case qw_DecodePayload qw task of
     Inl e \<Rightarrow> throw SkipRetry
   | Inr (jobID, orgID, updatedAt) \<Rightarrow> (case qw_ParseUUID qw jobID of
         Inl e \<Rightarrow> throw SkipRetry
       | Inr key \<Rightarrow> bindE (question_load orgID key) (\<lambda>(j, stored).
           if SelectQuestionSet (qw_DecodeSet qw) stored \<noteq> None then ret ()
           else if \<not> job_IsPublished j then ret ()
           else (\<lambda>d. question_finish qw now dbnow retried maxRetry orgID jobID key updatedAt j (world d)))))"


section \<open>The worker that generates the rubric\<close>

definition rubric_system :: string where
  "rubric_system = join_with newline [''You are an expert HR Recruiter and Technical Assessor.'',
     ''Your task is to generate a Transparent Scoring Rubric based on a Job Description.'',
     ''This rubric explains to both HR and candidates exactly how their CVs and Interviews will be evaluated.'', '''',
     ''Output JSON exactly matching the following schema:'', ''{'',
     ''  \"summary\": \"Brief 1-2 sentence overview of what a successful candidate looks like.\",'', ''  \"dimensions\": ['', ''    {'',
     ''      \"name\": \"string (e.g., Technical Skills, Experience, Education, Semantic Match)\",'',
     ''      \"description\": \"string (What exactly is being measured here)\",'',
     ''      \"weight_percentage\": \"number (e.g., 35)\",'',
     ''      \"criteria\": [\"string (e.g., Must have 5+ years in Go)\"]'', ''    }'', ''  ]'', ''}'']"

record rubric_worker =
  bw_DecodePayload :: "string \<Rightarrow> (string \<times> string) result" \<comment> \<open>job, organization\<close>
  bw_ParseUUID :: "string \<Rightarrow> uuid result"
  bw_MarshalInput :: "Job \<Rightarrow> string result"
  bw_Ask :: "string \<Rightarrow> string \<Rightarrow> string \<Rightarrow> string result" \<comment> \<open>organization, system prompt, input\<close>
  bw_Marshal :: "string \<Rightarrow> string result"

definition rubric_text :: "rubric_worker \<Rightarrow> Job \<Rightarrow> string result" where
  "rubric_text bw j = (case bw_MarshalInput bw j of
     Inl e \<Rightarrow> Inl (Wrapped ''marshal rubric input'' e)
   | Inr input \<Rightarrow> (case bw_Ask bw (job_OrgID j) rubric_system input of Inl e \<Rightarrow> Inl e | Inr out \<Rightarrow> bw_Marshal bw out))"

definition rubric_handle ::
  "rubric_worker \<Rightarrow> time \<Rightarrow> (('m, 'h) core_db \<Rightarrow> ('m, 'h) core_db) \<Rightarrow> string \<Rightarrow> (('m, 'h) core_db, unit) op" where
  "rubric_handle bw dbnow world task = (case bw_DecodePayload bw task of
     Inl e \<Rightarrow> throw SkipRetry
   | Inr (jobID, orgID) \<Rightarrow> (case bw_ParseUUID bw jobID of
         Inl e \<Rightarrow> throw SkipRetry
       | Inr key \<Rightarrow> bindE (RunInTx orgID (map_error (\<lambda>e. if e = job_ErrNotFound then SkipRetry else e) (job_GetByID key))) (\<lambda>j.
           if job_Rubric j \<noteq> [] \<and> job_Rubric j \<noteq> ''null'' then ret ()
           else bindE (lift (rubric_text bw j)) (\<lambda>raw. \<lambda>d. RunInTx orgID (job_UpdateRubric dbnow key raw) (world d)))))"


section \<open>What an update of a job does\<close>

lemma SetScoringWeights_keeps:
  assumes "job_SetScoringWeights w j = Inr j'"
  shows "\<exists>ws. j' = j\<lparr>job_ScoringWeights := ws\<rparr>"
proof (cases "w = []")
  case True
  with assms show ?thesis by (intro exI [of _ "job_ScoringWeights j"]) (simp add: job_SetScoringWeights_def)
next
  case False
  with assms show ?thesis unfolding job_SetScoringWeights_def Let_def by (auto split: if_splits option.splits)
qed

lemma reweighted_job_run:
  assumes "reweighted_job cmd j = Inr j'"
  obtains ws where "j' = j\<lparr>job_ScoringWeights := ws\<rparr>" "job_IsPublished j \<Longrightarrow> ws = job_ScoringWeights j"
proof (cases "uj_ScoringWeights cmd")
  case None
  with assms show ?thesis by (intro that [of "job_ScoringWeights j"]) (simp_all add: reweighted_job_def)
next
  case (Some w)
  with assms have "\<not> job_IsPublished j" "job_SetScoringWeights w j = Inr j'" by (auto simp: reweighted_job_def split: if_splits)
  with SetScoringWeights_keeps that show ?thesis by blast
qed

lemma jobs_unhit:
  assumes "filter hit (t_jobs r) = []"
  shows "t_jobs_update (map_hits hit f) r = r"
proof -
  from assms have "map_hits hit f (t_jobs r) = t_jobs r" by (auto simp: map_hits_def filter_empty_conv intro: map_idI)
  then show ?thesis by (cases r) simp
qed

lemma job_Update_run:
  assumes "job_Update dbnow j d = (r, d')"
  shows "pending d' = pending d \<and> fired d' = fired d \<and> (case r of Inl e \<Rightarrow> tables d' = tables d
    | Inr j' \<Rightarrow> j' = j\<lparr>job_UpdatedAt := dbnow\<rparr> \<and> in_tx d'
        \<and> tables d' = t_jobs_update (map_hits (job_hit (job_ID j) (tenant d)) (job_columns dbnow j)) (tables d))"
proof -
  have hit: "(\<lambda>x. job_ID x = job_ID j \<and> sees_job t x) = job_hit (job_ID j) t" for t by (simp add: job_hit_def fun_eq_iff)
  obtain n d1 where u: "update_rows t_jobs t_jobs_update (\<lambda>t r x. job_ID x = job_ID j \<and> sees_job t x) (job_columns dbnow j) d = (n, d1)"
    by fastforce
  have e: "d' = d1" "r = (case n of Inl e \<Rightarrow> Inl e | Inr k \<Rightarrow> if k = 0 then Inl ErrNoRows else Inr (j\<lparr>job_UpdatedAt := dbnow\<rparr>))"
    using assms u unfolding job_Update_def by (auto simp: bindE_def fail_if_def ret_def throw_def split: prod.splits sum.splits if_splits)
  show ?thesis
  proof (cases n)
    case (Inl x)
    with u e show ?thesis unfolding update_rows_def exec_def
      by (auto split: if_splits option.splits prod.splits sum.splits dest!: next_fault_frameD)
  next
    case (Inr k)
    with u have t: "k = length (filter (job_hit (job_ID j) (tenant d)) (t_jobs (tables d)))" "ran d d1"
      "tables d1 = t_jobs_update (map_hits (job_hit (job_ID j) (tenant d)) (job_columns dbnow j)) (tables d)"
      by (auto elim!: update_rows_InrE simp: hit)
    then have "tables d1 = tables d" if "k = 0" using that by (simp add: jobs_unhit)
    with t e Inr show ?thesis by (auto simp: ran_def)
  qed
qed

lemma job_reads_frame:
  assumes "job_GetByIDForUpdate key d = (r, d')"
  shows "tables d' = tables d \<and> pending d' = pending d \<and> fired d' = fired d \<and> tenant d' = tenant d
    \<and> (\<forall>j. r = Inr j \<longrightarrow> j \<in> set (t_jobs (tables d)) \<and> job_hit key (tenant d) j)"
proof (cases r)
  case (Inl e)
  with assms show ?thesis unfolding job_GetByIDForUpdate_def query_row_def stmt_def
    by (auto split: if_splits option.splits prod.splits sum.splits dest!: next_fault_frameD)
next
  case (Inr j)
  with assms show ?thesis unfolding job_GetByIDForUpdate_def
    by (auto elim!: query_row_InrE simp: ran_def job_hit_def find_Some_iff)
qed


definition job_sample :: "bool \<Rightarrow> Job" where
  "job_sample published = \<lparr>job_ID = ''j'', job_CreatedAt = 0, job_UpdatedAt = 1, job_OrgID = ''o'', job_Title = ''Dev'', job_Description = ''x'',
     job_Location = ''Remote'', job_EmploymentType = ''Full-time'', job_SalaryMin = None, job_SalaryMax = None, job_Currency = ''USD'',
     job_RequiredSkills = [], job_MinExperience = 0, job_Responsibilities = [], job_Requirements = [], job_NiceToHaves = [],
     job_Benefits = [], job_ScoringWeights = None, job_MinScoreToProceed = None, job_Status = job_StatusActive,
     job_ProctoringMode = [], job_IsPublished = published, job_Rubric = [], job_QuestionSetError = []\<rparr>"

definition job_sample_db :: "bool \<Rightarrow> unit job_db" where
  "job_sample_db published = \<lparr>tables = \<lparr>t_jobs = [job_sample published], t_question_sets = [], t_candidates = [], t_applications = [],
       t_contexts = [], t_prompts = [], t_job_contexts = []\<rparr>,
     tenant = Some ''o'', in_tx = True, aborted = False, saved = [], faults = [], pending = [], fired = []\<rparr>"

definition job_no_change :: UpdateJobCommand where
  "job_no_change = \<lparr>uj_JobID = ''j'', uj_Title = None, uj_Description = None, uj_Location = None, uj_EmploymentType = None,
     uj_SalaryMin = None, uj_SalaryMax = None, uj_Currency = None, uj_RequiredSkills = None, uj_MinExperience = None,
     uj_Responsibilities = None, uj_Requirements = None, uj_NiceToHaves = None, uj_Benefits = None, uj_ScoringWeights = None,
     uj_MinScoreToProceed = None, uj_Status = [], uj_IsPublished = None\<rparr>"

definition job_recruiter :: AuthContext where
  "job_recruiter = \<lparr>ac_UserID = ''u'', ac_OrgID = ''o'', ac_Role = RoleRecruiter\<rparr>"

definition job_skewed :: "(string \<times> rat) list" where
  "job_skewed = [(''skills_match'', 1), (''experience_years'', 0), (''semantic_match'', 0), (''education'', 0), (''certifications'', 0)]"


text \<open>
  The freeze holds within one request only: a PATCH that withdraws the job may change its weights, and the next one
  publishes it again. A PATCH that publishes a draft may not set its weights.
\<close>

lemma weights_changed_between_publications:
  "map job_ScoringWeights (t_jobs (tables (snd (JobService_Update True 6 job_recruiter (job_no_change\<lparr>uj_IsPublished := Some True\<rparr>)
     (snd (JobService_Update True 5 job_recruiter (job_no_change\<lparr>uj_IsPublished := Some False, uj_ScoringWeights := Some job_skewed\<rparr>)
       (job_sample_db True))))))) = [Some job_skewed]"
  by code_simp

lemma draft_published_with_weights_refused:
  "fst (JobService_Update True 5 job_recruiter (job_no_change\<lparr>uj_IsPublished := Some True, uj_ScoringWeights := Some job_skewed\<rparr>)
     (job_sample_db False)) = Inl (DomainError ''JOB_WEIGHTS_LOCKED'' ''scoring weights are frozen once the job is published'')"
  by code_simp


section \<open>What a run of the question worker does\<close>

lemma accept_questions_ok: "accept_questions i qs = Inr out \<Longrightarrow> list_all (\<lambda>q. question_Validate q = None \<and> \<not> llm_biased q) out"
  by (induction i qs arbitrary: out rule: accept_questions.induct) (auto simp: Let_def split: option.splits sum.splits if_splits)

lemma question_set_ok:
  assumes "question_set qw now j = Inr raw"
  obtains qs where "raw = qw_EncodeSet qw (NewQuestionSet QuestionSourceLLM qs now)" "Usable (Some (NewQuestionSet QuestionSourceLLM qs now))"
    "list_all (\<lambda>q. question_Validate q = None \<and> \<not> llm_biased q) qs"
proof -
  from assms obtain qs where g: "generate qw j = Inr qs" and m: "Marshal (qw_EncodeSet qw) (Some (NewQuestionSet QuestionSourceLLM qs now)) = Inr raw"
    by (auto simp: question_set_def split: sum.splits)
  from g obtain out where "decodeLLMQuestions out = Inr qs" by (auto simp: generate_def split: sum.splits)
  then obtain ls where "accept_questions 0 ls = Inr qs" by (auto simp: decodeLLMQuestions_def simp del: accept_questions.simps split: sum.splits list.splits)
  moreover from m have "set_Validate (Some (NewQuestionSet QuestionSourceLLM qs now)) = None"
    "raw = qw_EncodeSet qw (NewQuestionSet QuestionSourceLLM qs now)" by (auto simp: Marshal_def split: option.splits)
  ultimately show ?thesis by (intro that) (auto simp: Usable_def NewQuestionSet_def accept_questions_ok)
qed

definition marked_failed :: "string \<Rightarrow> uuid \<Rightarrow> time \<Rightarrow> string \<Rightarrow> 'm core_tables_scheme \<Rightarrow> 'm core_tables_scheme" where
  "marked_failed orgID key dbnow msg = t_jobs_update (map_hits (job_hit key (Some orgID))
     (\<lambda>x. x\<lparr>job_QuestionSetError := msg, job_UpdatedAt := dbnow\<rparr>))"

definition with_set :: "string \<Rightarrow> uuid \<Rightarrow> time \<Rightarrow> time \<Rightarrow> string \<Rightarrow> 'm core_tables_scheme \<Rightarrow> 'm core_tables_scheme" where
  "with_set orgID key dbnow version raw r = t_question_sets_update (\<lambda>m. (key, raw) # filter (\<lambda>p. fst p \<noteq> key) m)
     (t_jobs_update (map_hits (\<lambda>x. job_hit key (Some orgID) x \<and> job_UpdatedAt x = version)
       (\<lambda>x. x\<lparr>job_QuestionSetError := [], job_UpdatedAt := dbnow\<rparr>)) r)"

lemma quiet_job_reads [quiet_intros]: "quiet (job_GetByID key)" "quiet (LoadQuestionSet key)"
  unfolding job_GetByID_def LoadQuestionSet_def by (intro quiet_intros)+

lemma question_load_run:
  assumes "\<not> in_tx d" "question_load orgID key d = (r, d1)"
  shows "\<not> in_tx d1 \<and> tables d1 = tables d \<and> fired d1 = fired d \<and> (\<forall>j stored. r = Inr (j, stored) \<longrightarrow>
    j \<in> set (t_jobs (tables d)) \<and> job_hit key (Some orgID) j)"
proof -
  have "quiet (bindE (map_error (\<lambda>e. if err_is e job_ErrNotFound then SkipRetry else e) (job_GetByID key)) (\<lambda>j.
     bindE (LoadQuestionSet key) (\<lambda>stored. ret (j, stored))))" by (intro quiet_intros)
  from tx_run [OF assms(1) assms(2) [unfolded question_load_def] this] show ?thesis
    by (cases r) (auto simp: job_GetByID_def LoadQuestionSet_def map_error_Inr ret_def job_hit_def find_Some_iff
      elim!: bindE_InrE query_row_InrE)
qed

lemma question_store_run:
  assumes "\<not> in_tx d" "RunInTx orgID (storeQuestionSet dbnow key raw version) d = (r, d')"
  shows "fired d' = fired d \<and> (tables d' = tables d \<or> (\<exists>b. r = Inr b) \<and> tables d' = with_set orgID key dbnow version raw (tables d)
    \<and> (\<exists>x \<in> set (t_jobs (tables d)). job_hit key (Some orgID) x \<and> job_UpdatedAt x = version))"
proof -
  have "quiet (storeQuestionSet dbnow key raw version)" unfolding storeQuestionSet_def by (rule quiet_exec)
  from tx_run [OF assms this] show ?thesis
    by (cases r) (auto simp: storeQuestionSet_def with_set_def Let_def list_ex_iff dest!: exec_InrD(1) split: if_splits)
qed

lemma question_fail_run:
  assumes "\<not> in_tx d" "question_fail dbnow retried maxRetry orgID jobID key cause d = (r, d')"
  shows "fired d' = fired d \<and> (\<exists>e. r = Inl e) \<and> (tables d' = tables d \<or> (\<exists>msg. tables d' = marked_failed orgID key dbnow msg (tables d)))"
proof -
  let ?m = "storeQuestionSetError dbnow key (safeQuestionSetError cause) :: (('a, 'b) core_db, unit) op"
  obtain a where a: "RunInTx orgID ?m d = (a, d')" "\<exists>e. r = Inl e"
    using assms(2) by (auto simp: question_fail_def bindE_def attempt_def throw_def split: prod.splits)
  have "quiet ?m" unfolding storeQuestionSetError_def by (intro quiet_intros quiet_sql)
  from tx_run [OF assms(1) a(1) this] a(2) show ?thesis
    by (cases a) (auto simp: storeQuestionSetError_def marked_failed_def elim!: unit_of_InrE update_rows_InrE)
qed


definition job_at_rest :: "unit job_db" where
  "job_at_rest = (job_sample_db True)\<lparr>tenant := None, in_tx := False\<rparr>"

definition sample_schema :: "questionSchema list" where
  "sample_schema = [\<lparr>ls_Category = '' Technical'', ls_Prompt = ''How do channels work?'', ls_Context = ''The job is in Go.'',
       ls_Expectation = ''Blocking sends.'', ls_Skill = ''Go'', ls_Priority = 2\<rparr>,
     \<lparr>ls_Category = ''behavioral'', ls_Prompt = ''Are you married?'', ls_Context = ''x'', ls_Expectation = ''y'', ls_Skill = '''', ls_Priority = 3\<rparr>]"

definition question_sample :: "question_payload result \<Rightarrow> question_worker" where
  "question_sample answer = \<lparr>qw_DecodePayload = (\<lambda>s. Inr (''j'', ''o'', 1)), qw_ParseUUID = Inr,
     qw_DecodeSet = (\<lambda>s. Inl ErrQuestionSetInvalid), qw_EncodeSet = concat \<circ> map jq_Prompt \<circ> qs_Questions, qw_MarshalInput = (\<lambda>j. Inr ''in''),
     qw_Ask = (\<lambda>org sys user. answer)\<rparr>"

definition question_run :: "question_payload result \<Rightarrow> time \<Rightarrow> (unit job_db \<Rightarrow> unit job_db) \<Rightarrow> unit job_db \<Rightarrow> unit result \<times> unit job_db" where
  "question_run answer dbnow world = question_handle (question_sample answer) dbnow dbnow (Some 0) (Some 5) world ''task''"

lemma question_stored:
  "t_question_sets (tables (snd (question_run (Inr (FilledSchema sample_schema)) 7 (\<lambda>d. d) job_at_rest))) = [(''j'', ''How do channels work?'')]"
  by code_simp


text \<open>
  The version is the one of the row when the task was queued, and recording a failure changes it: a retry of the same
  task asks the model again and drops the answer, for every task that failed once. So does a rubric that is stored while
  the model answers. The run reports success.
\<close>

lemma retry_never_stores:
  "let d = snd (question_run (Inl (Sentinel ''busy'')) 7 (\<lambda>d. d) job_at_rest);
       (r, d') = question_run (Inr (FilledSchema sample_schema)) 9 (\<lambda>d. d) d
   in r = Inr () \<and> t_question_sets (tables d') = [] \<and> map job_QuestionSetError (t_jobs (tables d')) = [''busy'']"
  by code_simp

definition rubric_sample :: rubric_worker where
  "rubric_sample = \<lparr>bw_DecodePayload = (\<lambda>s. Inr (''j'', ''o'')), bw_ParseUUID = Inr, bw_MarshalInput = (\<lambda>j. Inr ''in''),
     bw_Ask = (\<lambda>org sys user. Inr ''out''), bw_Marshal = Inr\<rparr>"

lemma rubric_drops_questions:
  "let (r, d') = question_run (Inr (FilledSchema sample_schema)) 9 (\<lambda>d. snd (rubric_handle rubric_sample 8 (\<lambda>d. d) ''task'' d)) job_at_rest
   in r = Inr () \<and> t_question_sets (tables d') = [] \<and> map job_Rubric (t_jobs (tables d')) = [''out'']"
  by code_simp

end
