(* ===== verification/Spec2Isabelle.thy ===== *)
theory Spec2Isabelle
  imports Interview_Promises Question_Generation IAM Entities Session_Registry Session_Refinement Evaluation_Worker CV_Ingestion
    Candidate_Portal Job_Service
begin

text \<open>
  A verification library of the intivai backend, a service that screens job applicants and interviews them
  (\<open>src/backend\<close>, in Go; every path below is relative to \<open>src/backend\<close>).

  \<^bold>\<open>The program.\<close> A recruiter of an organization publishes a job and uploads CVs; a worker turns each CV into text and
  another one into a profile, by a call to a language model; the candidate reviews the profile; a worker scores the
  application. The recruiter then invites the candidate to an interview. The candidate opens a WebSocket with the
  invitation token, and holds a dialogue in which the model reacts to each answer and probes the weak ones; code is run
  in throwaway containers. The finished transcript is scored by the model, at once or by a worker, and the report goes
  to the recruiters and to webhooks. Candidates see and erase their data in a portal without passwords. Everything an
  organization owns is confined to it by row-level security, whose tenant is set per transaction.

  \<^bold>\<open>Conventions.\<close> A Go function is a HOL function of its name (with a prefix where two packages share one). Code that
  reads or writes the database is an operation \<open>('d, 'a) op\<close>, a function from a state \<open>db\<close> to a result and a new
  state: tables, tenant, open transaction, hooks that wait for the commit, and \<open>fired\<close>, what has left the process (mails,
  tasks, events, files, cookies). An error is a value of \<open>error\<close> in \<open>Inl\<close>; every early return is a branch.
  Which statements the database fails is an input (\<open>faults\<close>), and so are clocks, new identities and random numbers; they
  are universally quantified in the theorems. Code outside the repository is a parameter: PostgreSQL's answers, JSON,
  HMAC, bcrypt, JWT, Docker, the object store, the mail server, the models, \<open>net\<close> and \<open>net/url\<close>. Floats are rationals
  rounded after every operation (\<open>rnd64\<close>), instants and durations integers of nanoseconds, machine integers that cross a
  wire or are bytes are words. Loops over lists are structural recursions; retry loops (\<open>LLM_Client\<close>, \<open>Webhooks\<close>)
  recurse on the number of attempts the source bounds; no fuel is needed anywhere. Runs of several goroutines, workers or
  requests are step relations or folds over explicit events, cut where the code waits for something outside.

  \<^bold>\<open>The theories\<close>, from the bottom up.

  \<^item> \<open>Prelude\<close>: Go strings and UTF-8, package \<open>strings\<close>, lists, maps; the collections of hints.
  \<^item> \<open>Shared\<close> (\<open>internal/shared/errors\<close>, \<open>pkg/db/postgres.go\<close>): error values, the state \<open>db\<close>, statements, savepoints,
    \<open>RunInTx\<close> with its after-commit hooks: a transaction happens entirely or not at all.
  \<^item> \<open>Float64\<close>: \<open>float64\<close> and time arithmetic. Locale \<open>float_rounding\<close> (monotone, exact on small integers), interpreted
    as \<open>fl\<close> by \<open>rnd64\<close>.
  \<^item> \<open>Sql\<close>: the shapes of statement under row-level security; \<open>confines\<close> (an operation cannot touch what its tenant does
    not see), \<open>quiet\<close> (it announces nothing).
  \<^item> \<open>Entities\<close>, \<open>Repositories\<close> (\<open>internal/{job,cv,screening,context}/domain\<close> and \<open>infrastructure/persistence\<close>):
    the aggregates and their tables. Every repository call is confined to its tenant, an application by somebody
    unknown or known by e-mail ends in exactly one candidate and application.
  \<^item> \<open>IAM\<close> (\<open>internal/iam\<close>): organizations, users, roles, login, the authentication and the tenant middleware. Nobody
    creates a user above their own rank; a registration and a request are atomic.
  \<^item> \<open>Protocol\<close>, \<open>Proctoring\<close> (\<open>internal/interview/domain/protocol.go\<close>, \<open>proctoring.go\<close>): frames of the socket; the
    integrity score.
  \<^item> \<open>Question_Generation\<close> (\<open>internal/interview/domain/service\<close>, \<open>internal/job/domain/question_set.go\<close>): where the
    questions come from, the bias filter, probes, prompt and history window.
  \<^item> \<open>Interview_Domain\<close>, \<open>Interview_Dialogue\<close> (\<open>internal/interview/domain/interview.go\<close>, \<open>transcript.go\<close>): the
    aggregate as a state machine, its invariant over every reachable interview, the dialogue step on every branch.
  \<^item> \<open>Interview_Store\<close>, \<open>Interview_Service\<close>, \<open>Interview_Guarantees\<close>, \<open>Interview_Promises\<close> (\<open>internal/interview/application/interview_service.go\<close>
    and its repositories): every use case; what any sequence of them keeps (well-formed rows, consent, a history that
    only grows), what a failed call leaves behind, one dialogue turn from the request to the row, the bound on turns.
  \<^item> \<open>Session_Registry\<close> (\<open>internal/interview/api/session_registry.go\<close>): one live connection per interview. Locale
    \<open>session_lock\<close>, interpreted by both registries (\<open>mem_lock\<close>, \<open>redis_lock\<close>).
  \<^item> \<open>Session\<close>, \<open>Session_Guarantees\<close>, \<open>Session_Refinement\<close> (\<open>internal/interview/application/session\<close>, the read loop of
    \<open>api/chat_handler.go\<close>): the goroutines of a connection. An invariant over all their interleavings; every turn ends
    with a question, every request is answered once; each step refines calls of the interview service (locale
    \<open>session_service\<close>, interpretation \<open>ivs\<close>).
  \<^item> \<open>Sandbox\<close> (\<open>internal/sandbox\<close>): the runner of a candidate's code, its gRPC client and server. The candidate's input
    reaches Docker only as data; the verdict is right; running remotely changes nothing.
  \<^item> \<open>Evaluation\<close>, \<open>Evaluation_Worker\<close> (\<open>internal/evaluation\<close>): what is accepted from the model that scores, the roll-up in
    any order of summation, and the worker with its three phases under arbitrary interference.
  \<^item> \<open>LLM_Client\<close> (\<open>internal/llm/client.go\<close>, \<open>token_ledger.go\<close>): retry, fallback and budget; the calls it makes are counted.
  \<^item> \<open>Webhook_Address\<close>, \<open>Webhooks\<close>, \<open>Webhook_Delivery\<close> (\<open>internal/integration\<close>): the guard of addresses, the service, the
    dispatcher and the worker; at most three attempts and no change after delivery, under any overlap.
  \<^item> \<open>Screening\<close>, \<open>Screening_Service\<close> (\<open>internal/screening/domain\<close>, \<open>application\<close>): the score and its bounds, decisions
    along the ladder of stages.
  \<^item> \<open>CV_Ingestion\<close> (\<open>internal/cv/application\<close>): upload, parsing, extraction, review.
  \<^item> \<open>Job_Service\<close> (\<open>internal/job/application\<close>): jobs and their publication, the workers for questions and rubrics.
  \<^item> \<open>Candidate_Portal\<close> (\<open>internal/screening/api/candidate_portal_handler.go\<close> and its repository): login by code or link,
    export, erasure.

  \<^bold>\<open>How the parts compose.\<close> The theorems on the use cases quantify over sequences of all operations of their component
  and, where another one may run in between, over what it does (\<open>world\<close> in the workers, steps named \<open>elsewhere\<close> in the
  relations). A connection calls the interview service through the locale \<open>session_service\<close>; the evaluation worker and the
  screening service call the webhook dispatcher as modelled in \<open>Webhooks\<close>, on the same tables as the interviews.

  \<^bold>\<open>Not modelled\<close>, and why.

  \<^item> Wiring and input/output: \<open>cmd\<close>, \<open>pkg/{config,logger,mailer,metrics,observability,queue,storage,telemetry}\<close>, the HTTP
    handlers that decode a request, call one use case and encode its result (\<open>internal/*/api\<close>, except the handlers named
    above), \<open>internal/shared/{httpapi,httpmw}\<close>: their content is calls of third-party libraries.
  \<^item> Rendering: \<open>internal/evaluation/application/pdf.go\<close>, the templates of \<open>pkg/mailer\<close>. Generated code:
    \<open>internal/sandbox/proto\<close>.
  \<^item> Adapters of external programs: \<open>internal/llm/openai_provider.go\<close>, \<open>internal/embedding\<close>,
    \<open>internal/interview/infrastructure/{stt,tts,webrtc}\<close> and the voice session over them, \<open>internal/memory\<close>.
  \<^item> Services of smaller weight, still open: the public intake of applications (its transaction
    \<open>ApplyWithDedupe\<close> is modelled), contexts, billing, notifications, the read-only report queries.
  \<^item> The weak points of the model: a statement is atomic and reads the latest state (READ COMMITTED without the window
    between a statement's snapshot and its locks); Go maps are lists or orders given as arguments; infinities and NaN do
    not occur; case mapping is ASCII's.
\<close>

end
